(* ===== verification/Rk_Prelude.thy ===== *)
theory Rk_Prelude
  imports Main "HOL-Library.Word" "HOL-Library.Monad_Syntax"
begin

text \<open>
  Shared base of the development: the machine types of a 32-bit ARM kernel, error codes, bounds-checked
  memory accesses (\<open>None\<close> stands for an access outside the object, that is undefined
  behaviour in C), little-endian words, and the generic transition system with the locale that
  lifts a one-step invariant to every reachable state.
\<close>

unbundle bit_operations_syntax

section \<open>Machine types and error codes\<close>

type_synonym u8 = "8 word"
type_synonym u16 = "16 word"
type_synonym u32 = "32 word"
type_synonym u64 = "64 word"
type_synonym bytes = "u8 list"

text \<open>\<open>unsigned long\<close> is 32 bits wide on the box (armv7).\<close>

type_synonym ulong = "32 word"

text \<open>The tick rate of the kernel the modules are built for.\<close>

definition HZ :: ulong where "HZ = 250"

abbreviation (input) EIO :: int where "EIO \<equiv> 5"
abbreviation (input) ENXIO :: int where "ENXIO \<equiv> 6"
abbreviation (input) ENOMEM :: int where "ENOMEM \<equiv> 12"
abbreviation (input) EBUSY :: int where "EBUSY \<equiv> 16"
abbreviation (input) ENODEV :: int where "ENODEV \<equiv> 19"
abbreviation (input) EINVAL :: int where "EINVAL \<equiv> 22"
abbreviation (input) ENOTTY :: int where "ENOTTY \<equiv> 25"
abbreviation (input) EBADMSG :: int where "EBADMSG \<equiv> 74"
abbreviation (input) EUCLEAN :: int where "EUCLEAN \<equiv> 117"

named_theorems mem_simps \<open>bounds-checked memory accesses\<close>
named_theorems word_nat \<open>moving unsigned word arithmetic to nat\<close>

section \<open>Bounds-checked memory\<close>

definition mem_get :: "'a list \<Rightarrow> nat \<Rightarrow> 'a option" where
  "mem_get xs i = (if i < length xs then Some (xs ! i) else None)"

definition mem_set :: "'a list \<Rightarrow> nat \<Rightarrow> 'a \<Rightarrow> 'a list option" where
  "mem_set xs i v = (if i < length xs then Some (xs[i := v]) else None)"

definition mem_slice :: "'a list \<Rightarrow> nat \<Rightarrow> nat \<Rightarrow> 'a list option" where
  "mem_slice xs off n = (if off + n \<le> length xs then Some (take n (drop off xs)) else None)"

text \<open>\<open>memset(p, v, n)\<close> on a buffer that must hold at least \<open>n\<close> elements.\<close>

definition mem_fill :: "'a list \<Rightarrow> 'a \<Rightarrow> nat \<Rightarrow> 'a list option" where
  "mem_fill xs v n = (if n \<le> length xs then Some (replicate n v @ drop n xs) else None)"

section \<open>Little-endian words\<close>

definition le32 :: "u8 \<Rightarrow> u8 \<Rightarrow> u8 \<Rightarrow> u8 \<Rightarrow> u32" where
  "le32 b0 b1 b2 b3 =
     ucast b0 OR push_bit 8 (ucast b1) OR push_bit 16 (ucast b2) OR push_bit 24 (ucast b3)"

definition le32_bytes :: "u32 \<Rightarrow> bytes" where
  "le32_bytes w = [ucast w, ucast (drop_bit 8 w), ucast (drop_bit 16 w), ucast (drop_bit 24 w)]"

definition le32_at :: "bytes \<Rightarrow> nat \<Rightarrow> u32 option" where
  "le32_at bs off = do {
     b0 \<leftarrow> mem_get bs off;
     b1 \<leftarrow> mem_get bs (off + 1);
     b2 \<leftarrow> mem_get bs (off + 2);
     b3 \<leftarrow> mem_get bs (off + 3);
     Some (le32 b0 b1 b2 b3) }"

section \<open>Decimal numbers\<close>

text \<open>Decimal digits, as \<open>%d\<close> prints them.\<close>

fun dec_digits :: "nat \<Rightarrow> string" where
  "dec_digits n = (if n < 10 then [char_of (48 + n)] else dec_digits (n div 10) @ [char_of (48 + n mod 10)])"

declare dec_digits.simps [simp del]

definition dec_string :: "int \<Rightarrow> string" where
  "dec_string i = (if i < 0 then CHR ''-'' # dec_digits (nat (- i)) else dec_digits (nat i))"

section \<open>Reachable states\<close>

inductive reachable :: "('s \<Rightarrow> bool) \<Rightarrow> ('s \<Rightarrow> 's \<Rightarrow> bool) \<Rightarrow> 's \<Rightarrow> bool"
  for init :: "'s \<Rightarrow> bool" and step :: "'s \<Rightarrow> 's \<Rightarrow> bool" where
  reach_init: "init s \<Longrightarrow> reachable init step s"
| reach_step: "reachable init step s \<Longrightarrow> step s t \<Longrightarrow> reachable init step t"

text \<open>
  A component whose steps keep an invariant: the contract every state machine of the development
  discharges once, and the fact its properties rest on.
\<close>

locale invariant_system =
  fixes init :: "'s \<Rightarrow> bool"
    and step :: "'s \<Rightarrow> 's \<Rightarrow> bool"
    and inv :: "'s \<Rightarrow> bool"
  assumes init_inv: "init s \<Longrightarrow> inv s"
    and step_inv: "inv s \<Longrightarrow> step s t \<Longrightarrow> inv t"
begin

lemma reachable_inv: "reachable init step s \<Longrightarrow> inv s"
  by (induction rule: reachable.induct) (auto intro: init_inv step_inv)

lemma rtranclp_inv: "step\<^sup>*\<^sup>* s t \<Longrightarrow> inv s \<Longrightarrow> inv t"
  by (induction rule: rtranclp_induct) (auto intro: step_inv)

end

section \<open>Lemmas\<close>

lemma mem_get_some [mem_simps]: "i < length xs \<Longrightarrow> mem_get xs i = Some (xs ! i)"
  by (simp add: mem_get_def)

lemma mem_get_eq_Some: "mem_get xs i = Some v \<longleftrightarrow> i < length xs \<and> v = xs ! i"
  by (auto simp: mem_get_def)

lemma mem_get_eq_None: "mem_get xs i = None \<longleftrightarrow> length xs \<le> i"
  by (auto simp: mem_get_def)

lemma mem_set_some [mem_simps]: "i < length xs \<Longrightarrow> mem_set xs i v = Some (xs[i := v])"
  by (simp add: mem_set_def)

lemma mem_set_length: "mem_set xs i v = Some ys \<Longrightarrow> length ys = length xs"
  by (auto simp: mem_set_def split: if_splits)

lemma mem_slice_some [mem_simps]:
  "off + n \<le> length xs \<Longrightarrow> mem_slice xs off n = Some (take n (drop off xs))"
  by (simp add: mem_slice_def)

lemma mem_slice_length: "mem_slice xs off n = Some ys \<Longrightarrow> length ys = n"
  by (auto simp: mem_slice_def split: if_splits)

lemma mem_fill_all [mem_simps]: "length xs = n \<Longrightarrow> mem_fill xs v n = Some (replicate n v)"
  by (simp add: mem_fill_def)

lemma mem_slice_replicate [mem_simps]:
  "off + n \<le> k \<Longrightarrow> mem_slice (replicate k v) off n = Some (replicate n v)"
  by (simp add: mem_slice_def)

lemma length_le32_bytes [simp]: "length (le32_bytes w) = 4"
  by (simp add: le32_bytes_def)

lemma le32_le32_bytes:
  "le32 (ucast w) (ucast (drop_bit 8 w)) (ucast (drop_bit 16 w)) (ucast (drop_bit 24 w)) = w"
proof (rule bit_word_eqI)
  fix n
  assume n: "n < LENGTH(32)"
  then consider "n < 8" | "8 \<le> n" "n < 16" | "16 \<le> n" "n < 24" | "24 \<le> n" "n < 32"
    by force
  then show "bit (le32 (ucast w) (ucast (drop_bit 8 w)) (ucast (drop_bit 16 w))
      (ucast (drop_bit 24 w))) n = bit w n"
    by cases (auto simp: le32_def bit_simps)
qed

lemma le32_at_append:
  "off = length xs \<Longrightarrow> le32_at (xs @ le32_bytes w @ ys) off = Some w"
  by (simp add: le32_at_def le32_bytes_def mem_get_def nth_append le32_le32_bytes)

lemma le32_at_some: "off + 4 \<le> length bs \<Longrightarrow> \<exists>w. le32_at bs off = Some w"
  by (simp add: le32_at_def mem_get_def)

lemma le32_at_none: "length bs < off + 4 \<Longrightarrow> le32_at bs off = None"
  by (auto simp: le32_at_def mem_get_def bind_eq_None_conv)

lemma unat_div_word [word_nat]: "unat (a div b :: 'a::len word) = unat a div unat b"
  by (simp add: unat_div)

lemma unat_mod_word [word_nat]: "unat (a mod b :: 'a::len word) = unat a mod unat b"
  by (simp add: unat_mod)

lemma unat_lt_iff [word_nat]: "(a :: 'a::len word) < b \<longleftrightarrow> unat a < unat b"
  by (simp add: word_less_nat_alt)

lemma unat_le_iff [word_nat]: "(a :: 'a::len word) \<le> b \<longleftrightarrow> unat a \<le> unat b"
  by (simp add: word_le_nat_alt)

lemma dec_digits_le:
  "m \<le> n \<Longrightarrow> length (dec_digits m) \<le> length (dec_digits n)"
proof (induction n arbitrary: m rule: less_induct)
  case (less n)
  show ?case
  proof (cases "m < 10")
    case True
    then show ?thesis by (simp add: dec_digits.simps [of m] dec_digits.simps [of n])
  next
    case False
    then have "n div 10 < n" "m div 10 \<le> n div 10" using less.prems by (auto intro: div_le_mono)
    from less.IH [OF this] show ?thesis
      using False less.prems by (simp add: dec_digits.simps [of m] dec_digits.simps [of n])
  qed
qed

lemma dec_digits_char: "c \<in> set (dec_digits n) \<Longrightarrow> 48 \<le> (of_char c :: nat) \<and> (of_char c :: nat) < 58"
proof (induction n rule: dec_digits.induct)
  case (1 n)
  then show ?case by (cases "n < 10") (auto simp: dec_digits.simps [of n])
qed

end
