(* ===== verification/Ftl_Format.thy ===== *)
theory Ftl_Format
  imports Rk_Prelude
begin

text \<open>
  \<open>ftl/rk-ftl.h\<close>: geometry constants, the PPA encoding, the wrapping version counter, the
  rotation of the sys words in the OOB and the structs of the read-only FTL; and the OOB decoder
  \<open>rk_ftl_read_oob\<close> of \<open>ftl/rk-ftl.c\<close>. The kernel services the FTL calls are the
  fields of \<open>mtd_kernel\<close>, a parameter of every definition that uses them.
\<close>

section \<open>Geometry\<close>

definition RK_FTL_SECT_SIZE :: nat where "RK_FTL_SECT_SIZE = 512"
definition RK_FTL_SPP :: nat where "RK_FTL_SPP = 16"
definition RK_FTL_PAGE_SIZE :: nat where "RK_FTL_PAGE_SIZE = push_bit 9 RK_FTL_SPP"
definition RK_FTL_STEPS :: nat where "RK_FTL_STEPS = 8"
definition RK_FTL_ENTRIES_PER_REGION :: nat where
  "RK_FTL_ENTRIES_PER_REGION = RK_FTL_SPP * 128"

definition RK_FTL_PPA_INVALID :: u32 where "RK_FTL_PPA_INVALID = 0xFFFFFFFF"

section \<open>PPA decoding, versions, sys-word rotation\<close>

definition RK_FTL_PPA_PAGE :: "u32 \<Rightarrow> u32" where
  "RK_FTL_PPA_PAGE ppa = ppa AND 0x3FF"

definition RK_FTL_PPA_BLK :: "u32 \<Rightarrow> u32" where
  "RK_FTL_PPA_BLK ppa = drop_bit 10 (ppa AND 0x03FFFFFF)"

definition RK_FTL_PPA_IS_SLC :: "u32 \<Rightarrow> u32" where
  "RK_FTL_PPA_IS_SLC ppa = drop_bit 31 ppa AND 1"

definition rk_ftl_ver_newer :: "u32 \<Rightarrow> u32 \<Rightarrow> bool" where
  "rk_ftl_ver_newer a b \<longleftrightarrow> (a - b) AND 0xFFFFFFFF < 0x80000001"

definition rk_ftl_sysword_pos :: "nat \<Rightarrow> nat" where
  "rk_ftl_sysword_pos step = (if step = 0 then RK_FTL_STEPS - 1 else step - 1)"

section \<open>Structs\<close>

record rk_ftl_oob =
  oob_magic :: u16
  oob_tag :: u16
  oob_version :: u32
  oob_lpn :: u32
  oob_prev_ppa :: u32

record rk_ftl_sysinfo =
  sys_capacity :: u32
  sys_max_version :: u32
  sys_open_sblk :: "u32 list"
  sys_num_open_sblk :: int

datatype mtd_type = MTD_NANDFLASH | MTD_MLCNANDFLASH | MTD_OTHER nat

text \<open>The fields of the kernel's \<open>struct mtd_info\<close> and \<open>struct mtd_blktrans_dev\<close> the FTL uses.\<close>

record mtd_info =
  mtd_type :: mtd_type
  mtd_writesize :: u32
  mtd_erasesize :: u32
  mtd_size :: u64
  mtd_oobsize :: u32
  mtd_index :: int

record mtd_blktrans_dev =
  mbd_devnum :: int
  mbd_readonly :: bool
  mbd_size :: ulong

text \<open>A pointer that may be NULL is an option; the buffer it points to is the list.\<close>

record rk_ftl =
  ftl_mbd :: mtd_blktrans_dev
  ftl_mtd :: mtd_info
  page_size :: u32
  pages_per_block :: u32
  total_blocks :: u32
  total_pages :: u64
  sysblk_num :: u32
  ftl_sys :: rk_ftl_sysinfo
  capacity :: u32
  region_to_ppa :: "u32 list option"
  num_regions :: u32
  l2p :: "u32 list option"
  page_buf :: "bytes option"
  page_buf_lpn :: u32
  oob_buf :: "bytes option"

datatype alloc_site = A_ftl | A_oob_buf | A_page_buf | A_region_to_ppa | A_l2p

text \<open>
  Kernel services, none of them code of this repository:
  \<^item> \<open>k_mtd_read off len buf\<close> is \<open>mtd_read\<close>: the error code, the number of bytes read and the
    contents of the buffer afterwards (an uncorrectable page is transferred, too);
  \<^item> \<open>k_mtd_read_oob off len buf\<close> is \<open>mtd_read_oob\<close> in \<open>MTD_OPS_PLACE_OOB\<close> mode;
  \<^item> \<open>k_div_by_eb\<close>, \<open>k_div_by_ws\<close> are \<open>mtd_div_by_eb\<close> and \<open>mtd_div_by_ws\<close>;
  \<^item> \<open>k_alloc\<close> and \<open>k_alloc32\<close> are the allocators: \<open>None\<close> when out of memory, else the
    (uninitialised) contents of a buffer of that many bytes, respectively u32 entries;
  \<^item> \<open>k_add_blktrans\<close> is \<open>add_mtd_blktrans_dev\<close>.
\<close>

record mtd_kernel =
  k_mtd_read :: "u64 \<Rightarrow> u32 \<Rightarrow> bytes \<Rightarrow> int \<times> u32 \<times> bytes"
  k_mtd_read_oob :: "u64 \<Rightarrow> u32 \<Rightarrow> bytes \<Rightarrow> int \<times> bytes"
  k_div_by_eb :: "u64 \<Rightarrow> mtd_info \<Rightarrow> u32"
  k_div_by_ws :: "u64 \<Rightarrow> mtd_info \<Rightarrow> u32"
  k_alloc :: "alloc_site \<Rightarrow> nat \<Rightarrow> bytes option"
  k_alloc32 :: "alloc_site \<Rightarrow> nat \<Rightarrow> u32 list option"
  k_add_blktrans :: "mtd_blktrans_dev \<Rightarrow> int"

section \<open>Reading the OOB metadata of a page\<close>

definition rk_ftl_decode_oob :: "bytes \<Rightarrow> rk_ftl_oob option" where
  "rk_ftl_decode_oob buf = do {
     w0 \<leftarrow> le32_at buf (rk_ftl_sysword_pos 0 * 4);
     w1 \<leftarrow> le32_at buf (rk_ftl_sysword_pos 1 * 4);
     w2 \<leftarrow> le32_at buf (rk_ftl_sysword_pos 2 * 4);
     w3 \<leftarrow> le32_at buf (rk_ftl_sysword_pos 3 * 4);
     Some \<lparr>oob_magic = ucast (w0 AND 0xFFFF), oob_tag = ucast (drop_bit 16 w0),
       oob_version = w1, oob_lpn = w2, oob_prev_ppa = w3\<rparr> }"

definition rk_ftl_read_oob ::
  "mtd_kernel \<Rightarrow> rk_ftl \<Rightarrow> u64 \<Rightarrow> ((int + rk_ftl_oob) \<times> rk_ftl) option" where
  "rk_ftl_read_oob K ftl phys_page = do {
     buf \<leftarrow> oob_buf ftl;
     let off = phys_page * ucast (page_size ftl);
     let (ret, buf') = k_mtd_read_oob K off (mtd_oobsize (ftl_mtd ftl)) buf;
     let ftl' = ftl\<lparr>oob_buf := Some buf'\<rparr>;
     if ret \<noteq> 0 \<and> ret \<noteq> - EUCLEAN \<and> ret \<noteq> - EBADMSG then Some (Inl ret, ftl')
     else do {
       oob \<leftarrow> rk_ftl_decode_oob buf';
       Some (Inr oob, ftl') } }"

section \<open>Specification side: the documented layouts\<close>

text \<open>
  The PPA layout of \<open>docs/rknand-re/ftl-oob-format.md\<close> and the OOB layout the mainline
  controller driver exposes: the sys word of BCH step \<open>i\<close> at word \<open>i - 1\<close>, step 0 at the last word.
\<close>

definition ppa_encode :: "bool \<Rightarrow> u32 \<Rightarrow> u32 \<Rightarrow> u32" where
  "ppa_encode slc blk page = push_bit 31 (of_bool slc) OR push_bit 10 blk OR page"

definition oob_sys_words :: "rk_ftl_oob \<Rightarrow> u32 list" where
  "oob_sys_words oob =
     [push_bit 16 (ucast (oob_tag oob)) OR ucast (oob_magic oob), oob_version oob, oob_lpn oob,
      oob_prev_ppa oob]"

definition oob_expose :: "u32 list \<Rightarrow> u32 list \<Rightarrow> bytes \<Rightarrow> bytes" where
  "oob_expose ws rest parity =
     concat (map le32_bytes (tl ws @ rest @ [hd ws])) @ parity"

section \<open>Lemmas\<close>

lemmas ftl_consts = RK_FTL_SECT_SIZE_def RK_FTL_SPP_def RK_FTL_PAGE_SIZE_def RK_FTL_STEPS_def
  RK_FTL_ENTRIES_PER_REGION_def RK_FTL_PPA_INVALID_def

lemma page_size_8192: "RK_FTL_PAGE_SIZE = 8192"
  by (simp add: ftl_consts push_bit_eq_mult)

lemma entries_2048: "RK_FTL_ENTRIES_PER_REGION = 2048"
  by (simp add: ftl_consts)

lemma ppa_page_mask: "RK_FTL_PPA_PAGE ppa = take_bit 10 ppa"
proof -
  have "(0x3FF :: u32) = mask 10" by (simp add: mask_eq_exp_minus_1)
  then show ?thesis by (simp only: RK_FTL_PPA_PAGE_def take_bit_eq_mask)
qed

lemma ppa_blk_mask: "RK_FTL_PPA_BLK ppa = drop_bit 10 (take_bit 26 ppa)"
proof -
  have "(0x03FFFFFF :: u32) = mask 26" by (simp add: mask_eq_exp_minus_1)
  then show ?thesis by (simp only: RK_FTL_PPA_BLK_def take_bit_eq_mask)
qed

lemma unat_ppa_page: "unat (RK_FTL_PPA_PAGE ppa) = unat ppa mod 1024"
  by (simp add: ppa_page_mask take_bit_eq_mod word_nat)

lemma unat_ppa_blk: "unat (RK_FTL_PPA_BLK ppa) = unat ppa mod 2 ^ 26 div 1024"
  by (simp add: ppa_blk_mask take_bit_eq_mod drop_bit_eq_div word_nat)

lemma ver_newer_unat: "rk_ftl_ver_newer a b \<longleftrightarrow> unat (a - b) < 0x80000001"
proof -
  have "(a - b) AND 0xFFFFFFFF = a - b"
  proof -
    have "(0xFFFFFFFF :: u32) = - 1" by simp
    then show ?thesis by (simp only: bit.conj_one_right)
  qed
  then show ?thesis by (simp add: rk_ftl_ver_newer_def word_less_nat_alt)
qed

lemma take_bit_word_id: "unat w < 2 ^ n \<Longrightarrow> take_bit n w = (w :: 'a::len word)"
  by (metis take_bit_nat_eq_self unsigned_take_bit_eq word_unat_eq_iff)

lemma word_bit_below: "unat (w :: 'a::len word) < 2 ^ n \<Longrightarrow> bit w k \<Longrightarrow> k < n"
  by (metis bit_take_bit_iff take_bit_word_id)

lemma oob_word0_magic:
  "ucast ((push_bit 16 (ucast (t :: u16)) OR ucast (m :: u16)) AND (0xFFFF :: u32)) = m"
proof -
  have "(0xFFFF :: u32) = mask 16" by (simp add: mask_eq_exp_minus_1)
  then have "(push_bit 16 (ucast t) OR ucast m) AND (0xFFFF :: u32)
      = take_bit 16 (push_bit 16 (ucast t) OR ucast m)"
    by (simp only: take_bit_eq_mask)
  then show ?thesis by (auto intro!: bit_word_eqI simp: bit_simps)
qed

lemma oob_word0_tag:
  "ucast (drop_bit 16 (push_bit 16 (ucast (t :: u16))) OR drop_bit 16 (ucast (m :: u16)) :: u32) = t"
proof -
  have "\<not> bit m (16 + n)" for n
    using bit_imp_le_length [of m "16 + n"] by auto
  then show ?thesis by (auto intro!: bit_word_eqI simp: bit_simps)
qed

lemma decode_oob_expose:
  assumes "length rest = 4"
  shows "rk_ftl_decode_oob (oob_expose (oob_sys_words oob) rest parity) = Some oob"
proof -
  obtain r4 r5 r6 r7 where r: "rest = [r4, r5, r6, r7]"
    using assms by (auto simp: length_Suc_conv numeral_eq_Suc)
  let ?w = "push_bit 16 (ucast (oob_tag oob)) OR ucast (oob_magic oob) :: u32"
  let ?buf = "oob_expose (oob_sys_words oob) rest parity"
  have 0: "le32_at ?buf 28 = Some ?w"
    using le32_at_append [of 28 "le32_bytes (oob_version oob) @ le32_bytes (oob_lpn oob) @
        le32_bytes (oob_prev_ppa oob) @ le32_bytes r4 @ le32_bytes r5 @ le32_bytes r6 @
        le32_bytes r7" ?w parity]
    by (simp add: oob_expose_def oob_sys_words_def r)
  have 1: "le32_at ?buf 0 = Some (oob_version oob)"
    using le32_at_append [of 0 "[]" "oob_version oob"]
    by (simp add: oob_expose_def oob_sys_words_def r)
  have 2: "le32_at ?buf 4 = Some (oob_lpn oob)"
    using le32_at_append [of 4 "le32_bytes (oob_version oob)" "oob_lpn oob"]
    by (simp add: oob_expose_def oob_sys_words_def r)
  have 3: "le32_at ?buf 8 = Some (oob_prev_ppa oob)"
    using le32_at_append [of 8 "le32_bytes (oob_version oob) @ le32_bytes (oob_lpn oob)"]
    by (simp add: oob_expose_def oob_sys_words_def r)
  show ?thesis
    by (simp add: rk_ftl_decode_oob_def rk_ftl_sysword_pos_def RK_FTL_STEPS_def 0 1 2 3
        oob_word0_magic oob_word0_tag)
qed

section \<open>Properties\<close>

text \<open>
  C32: the version comparison orders the counter correctly across the 32-bit wrap-around: among
  versions drawn from any window of 2^31 consecutive counter values, \<open>rk_ftl_ver_newer\<close> is exactly
  the order in which they were drawn (with equality counted as newer).
\<close>

theorem ver_newer_window:
  assumes "i < 2 ^ 31" and "j < 2 ^ 31"
  shows "rk_ftl_ver_newer (b + of_nat i) (b + of_nat j) \<longleftrightarrow> j \<le> i"
proof -
  have eq: "(b + of_nat i) - (b + of_nat j) = (of_nat i - of_nat j :: u32)" by simp
  have ij: "unat (of_nat i :: u32) = i" "unat (of_nat j :: u32) = j"
    using assms by (simp_all add: unsigned_of_nat take_bit_nat_eq_self)
  show ?thesis
    using assms ij by (auto simp: ver_newer_unat eq unat_sub_if_size word_size)
qed

theorem ver_newer_window_witness:
  "rk_ftl_ver_newer (0xFFFFFFF0 + of_nat 32) (0xFFFFFFF0 + of_nat 5)"
  using ver_newer_window [of 32 5 "0xFFFFFFF0"] by simp

text \<open>
  PPA decoding inverts the documented encoding (SLC flag in bit 31, 16-bit block number from
  bit 10, 10-bit page number).
\<close>

theorem ppa_roundtrip:
  assumes "unat blk < 2 ^ 16" and "unat page < 2 ^ 10"
  shows "RK_FTL_PPA_BLK (ppa_encode slc blk page) = blk
    \<and> RK_FTL_PPA_PAGE (ppa_encode slc blk page) = page
    \<and> RK_FTL_PPA_IS_SLC (ppa_encode slc blk page) = (if slc then 1 else 0)"
proof (intro conjI)
  have lt: "bit blk k \<Longrightarrow> k < 16" "bit page k \<Longrightarrow> k < 10" for k
    using word_bit_below assms by blast+
  show "RK_FTL_PPA_BLK (ppa_encode slc blk page) = blk"
    by (rule bit_word_eqI) (auto simp: ppa_blk_mask ppa_encode_def bit_simps dest: lt)
  show "RK_FTL_PPA_PAGE (ppa_encode slc blk page) = page"
    by (rule bit_word_eqI) (auto simp: ppa_page_mask ppa_encode_def bit_simps dest: lt)
  show "RK_FTL_PPA_IS_SLC (ppa_encode slc blk page) = (if slc then 1 else 0)"
    by (rule bit_word_eqI) (auto simp: RK_FTL_PPA_IS_SLC_def ppa_encode_def bit_simps dest: lt)
qed

theorem ppa_roundtrip_witness:
  "RK_FTL_PPA_BLK (ppa_encode True 225 87) = 225 \<and> RK_FTL_PPA_PAGE (ppa_encode True 225 87) = 87
    \<and> RK_FTL_PPA_IS_SLC (ppa_encode True 225 87) = 1"
  using ppa_roundtrip [of 225 87 True] by simp

text \<open>
  C33: reading the OOB of a page whose exposed sys words carry a metadata struct returns exactly
  that struct, also when the controller reports corrected (\<open>-EUCLEAN\<close>) or uncorrectable
  (\<open>-EBADMSG\<close>) bit errors; the scratch buffer then holds what the controller transferred.
\<close>

theorem read_oob_decodes:
  assumes "oob_buf ftl = Some b"
    and "k_mtd_read_oob K (phys * ucast (page_size ftl)) (mtd_oobsize (ftl_mtd ftl)) b
           = (ret, oob_expose (oob_sys_words oob) rest parity)"
    and "ret \<in> {0, - EUCLEAN, - EBADMSG}" and "length rest = 4"
  shows "rk_ftl_read_oob K ftl phys
    = Some (Inr oob, ftl\<lparr>oob_buf := Some (oob_expose (oob_sys_words oob) rest parity)\<rparr>)"
  using assms by (auto simp: rk_ftl_read_oob_def decode_oob_expose)

end
