(* ===== verification/Ftl_Map.thy ===== *)
theory Ftl_Map
  imports Ftl_Format
begin

text \<open>
  \<open>ftl/rk-ftl.c\<close>, boot map-load path: the page read helper, PPA to linear page, the five steps of
  \<open>rk_ftl_build_map\<close> (three of which are placeholders in the source) and the two-level map
  expansion. Results are \<open>option\<close> values: \<open>None\<close> is an access outside a buffer or through NULL.
\<close>

section \<open>Page reads\<close>

definition rk_ftl_read_page :: "mtd_kernel \<Rightarrow> rk_ftl \<Rightarrow> u64 \<Rightarrow> bytes \<Rightarrow> int \<times> bytes" where
  "rk_ftl_read_page K ftl phys_page buf =
     (let off = phys_page * ucast (page_size ftl);
          (ret, retlen, buf') = k_mtd_read K off (page_size ftl) buf;
          ret = (if ret = - EUCLEAN then 0 else ret)
      in if ret \<noteq> 0 then (ret, buf')
         else if retlen \<noteq> page_size ftl then (- EIO, buf')
         else (0, buf'))"

definition rk_ftl_ppa_to_linear :: "rk_ftl \<Rightarrow> u32 \<Rightarrow> u64" where
  "rk_ftl_ppa_to_linear ftl ppa =
     ucast (RK_FTL_PPA_BLK ppa) * ucast (pages_per_block ftl) + ucast (RK_FTL_PPA_PAGE ppa)"

section \<open>The steps of the map load\<close>

definition rk_ftl_scan_sysblk :: "rk_ftl \<Rightarrow> int \<times> rk_ftl" where
  "rk_ftl_scan_sysblk ftl = (0, ftl\<lparr>sysblk_num := 24\<rparr>)"

definition rk_ftl_load_sysinfo :: "rk_ftl \<Rightarrow> int \<times> rk_ftl" where
  "rk_ftl_load_sysinfo ftl =
     (let sys = (ftl_sys ftl)\<lparr>sys_capacity := ucast (total_pages ftl), sys_max_version := 0,
                              sys_num_open_sblk := 0\<rparr>
      in (0, ftl\<lparr>ftl_sys := sys, capacity := sys_capacity sys\<rparr>))"

text \<open>\<open>DIV_ROUND_UP(n, d)\<close> is \<open>(n + d - 1) / d\<close>, here in u32 arithmetic.\<close>

definition div_round_up :: "u32 \<Rightarrow> u32 \<Rightarrow> u32" where
  "div_round_up n d = (n + d - 1) div d"

fun region_fill :: "nat list \<Rightarrow> u32 list \<Rightarrow> u32 list option" where
  "region_fill [] tbl = Some tbl"
| "region_fill (i # is) tbl = do {
     tbl' \<leftarrow> mem_set tbl i RK_FTL_PPA_INVALID;
     region_fill is tbl' }"

definition rk_ftl_map_recovery ::
  "mtd_kernel \<Rightarrow> rk_ftl \<Rightarrow> alloc_site list \<Rightarrow> (int \<times> rk_ftl \<times> alloc_site list) option" where
  "rk_ftl_map_recovery K ftl heap =
     (let ftl = ftl\<lparr>num_regions := div_round_up (capacity ftl) (of_nat RK_FTL_ENTRIES_PER_REGION)\<rparr>
      in case k_alloc32 K A_region_to_ppa (unat (num_regions ftl)) of
           None \<Rightarrow> Some (- ENOMEM, ftl\<lparr>region_to_ppa := None\<rparr>, heap)
         | Some tbl \<Rightarrow> do {
             tbl' \<leftarrow> region_fill [0..<unat (num_regions ftl)] tbl;
             Some (0, ftl\<lparr>region_to_ppa := Some tbl'\<rparr>, A_region_to_ppa # heap) })"

fun copy_entries :: "bytes \<Rightarrow> nat \<Rightarrow> nat list \<Rightarrow> u32 list \<Rightarrow> u32 list option" where
  "copy_entries page base [] tbl = Some tbl"
| "copy_entries page base (i # is) tbl = do {
     entry \<leftarrow> le32_at page (i * 4);
     tbl' \<leftarrow> (if entry \<noteq> RK_FTL_PPA_INVALID then mem_set tbl (base + i) entry else Some tbl);
     copy_entries page base is tbl' }"

text \<open>One iteration of the region loop of \<open>rk_ftl_expand_l2p\<close>, and the loop.\<close>

definition expand_region :: "mtd_kernel \<Rightarrow> nat \<Rightarrow> rk_ftl \<Rightarrow> rk_ftl option" where
  "expand_region K region ftl = do {
     regions \<leftarrow> region_to_ppa ftl;
     ppa \<leftarrow> mem_get regions region;
     let base = region * RK_FTL_ENTRIES_PER_REGION;
     if ppa = RK_FTL_PPA_INVALID then Some ftl
     else do {
       buf \<leftarrow> page_buf ftl;
       let (ret, buf') = rk_ftl_read_page K ftl (rk_ftl_ppa_to_linear ftl ppa) buf;
       let ftl = ftl\<lparr>page_buf := Some buf'\<rparr>;
       if ret \<noteq> 0 then Some ftl
       else do {
         let n = min (of_nat RK_FTL_ENTRIES_PER_REGION) (capacity ftl - of_nat base);
         tbl \<leftarrow> l2p ftl;
         tbl' \<leftarrow> copy_entries buf' base [0..<unat n] tbl;
         Some (ftl\<lparr>l2p := Some tbl'\<rparr>) } } }"

fun expand_regions :: "mtd_kernel \<Rightarrow> nat list \<Rightarrow> rk_ftl \<Rightarrow> rk_ftl option" where
  "expand_regions K [] ftl = Some ftl"
| "expand_regions K (r # rs) ftl = do {
     ftl' \<leftarrow> expand_region K r ftl;
     expand_regions K rs ftl' }"

definition rk_ftl_expand_l2p ::
  "mtd_kernel \<Rightarrow> rk_ftl \<Rightarrow> alloc_site list \<Rightarrow> (int \<times> rk_ftl \<times> alloc_site list) option" where
  "rk_ftl_expand_l2p K ftl heap =
     (case k_alloc32 K A_l2p (unat (capacity ftl)) of
        None \<Rightarrow> Some (- ENOMEM, ftl\<lparr>l2p := None\<rparr>, heap)
      | Some tbl \<Rightarrow> do {
          tbl' \<leftarrow> mem_fill tbl 0xFFFFFFFF (unat (capacity ftl));
          ftl' \<leftarrow> expand_regions K [0..<unat (num_regions ftl)] (ftl\<lparr>l2p := Some tbl'\<rparr>);
          Some (0, ftl'\<lparr>page_buf_lpn := 0xFFFFFFFF\<rparr>, A_l2p # heap) })"

definition rk_ftl_overlay_open :: "rk_ftl \<Rightarrow> int \<times> rk_ftl" where
  "rk_ftl_overlay_open ftl = (0, ftl)"

definition rk_ftl_build_map ::
  "mtd_kernel \<Rightarrow> rk_ftl \<Rightarrow> alloc_site list \<Rightarrow> (int \<times> rk_ftl \<times> alloc_site list) option" where
  "rk_ftl_build_map K ftl heap =
     (let (ret, ftl) = rk_ftl_scan_sysblk ftl in
      if ret \<noteq> 0 then Some (ret, ftl, heap) else
      let (ret, ftl) = rk_ftl_load_sysinfo ftl in
      if ret \<noteq> 0 then Some (ret, ftl, heap) else do {
        (ret, ftl, heap) \<leftarrow> rk_ftl_map_recovery K ftl heap;
        if ret \<noteq> 0 then Some (ret, ftl, heap) else do {
          (ret, ftl, heap) \<leftarrow> rk_ftl_expand_l2p K ftl heap;
          if ret \<noteq> 0 then Some (ret, ftl, heap) else
          let (ret, ftl) = rk_ftl_overlay_open ftl in
          if ret \<noteq> 0 then Some (ret, ftl, heap) else Some (0, ftl, heap) } })"

section \<open>What the expansion is to compute\<close>

text \<open>
  Step 4 of route B in \<open>docs/rknand-re/ftl-l2p-algorithm.md\<close>: the entry of a logical page is the
  word at its offset of its region's map page, a hole when the region has no map page. \<open>map_page\<close>
  gives the contents of the map page at a PPA, \<open>None\<close> when it cannot be read.
\<close>

definition l2p_spec :: "(u32 \<Rightarrow> bytes option) \<Rightarrow> u32 list \<Rightarrow> nat \<Rightarrow> u32" where
  "l2p_spec map_page regions lpn =
     (let ppa = regions ! (lpn div RK_FTL_ENTRIES_PER_REGION);
          i = lpn mod RK_FTL_ENTRIES_PER_REGION
      in if ppa = RK_FTL_PPA_INVALID then RK_FTL_PPA_INVALID
         else case map_page ppa of
                None \<Rightarrow> RK_FTL_PPA_INVALID
              | Some page \<Rightarrow> (case le32_at page (i * 4) of None \<Rightarrow> RK_FTL_PPA_INVALID | Some e \<Rightarrow> e))"

text \<open>
  What the FTL relies on of \<open>mtd_read\<close>, for pages of \<open>n\<close> bytes: the transfer stays inside the
  buffer, and a successful read delivers the page of the medium whatever the buffer held before.
\<close>

definition mtd_read_contract :: "mtd_kernel \<Rightarrow> u32 \<Rightarrow> (u64 \<Rightarrow> int + bytes) \<Rightarrow> bool" where
  "mtd_read_contract K n media \<longleftrightarrow>
     (\<forall>off buf. length buf = unat n \<longrightarrow>
        (case k_mtd_read K off n buf of (ret, retlen, buf') \<Rightarrow>
           length buf' = length buf \<and>
           (case media off of
              Inr d \<Rightarrow> (ret = 0 \<or> ret = - EUCLEAN) \<and> retlen = n \<and> buf' = d
            | Inl e \<Rightarrow> ret = e \<and> e < 0 \<and> e \<noteq> - EUCLEAN)))"

definition media_page :: "rk_ftl \<Rightarrow> (u64 \<Rightarrow> int + bytes) \<Rightarrow> u32 \<Rightarrow> int + bytes" where
  "media_page ftl media ppa = media (rk_ftl_ppa_to_linear ftl ppa * ucast (page_size ftl))"

definition media_map_page :: "rk_ftl \<Rightarrow> (u64 \<Rightarrow> int + bytes) \<Rightarrow> u32 \<Rightarrow> bytes option" where
  "media_map_page ftl media ppa =
     (case media_page ftl media ppa of Inl _ \<Rightarrow> None | Inr d \<Rightarrow> Some d)"

section \<open>Lemmas\<close>

lemma read_page_ok:
  assumes "mtd_read_contract K (page_size ftl) media" and "length buf = unat (page_size ftl)"
    and "media (phys * ucast (page_size ftl)) = Inr d"
  shows "rk_ftl_read_page K ftl phys buf = (0, d) \<and> length d = unat (page_size ftl)"
proof -
  let ?off = "phys * ucast (page_size ftl) :: u64"
  obtain ret retlen buf' where r: "k_mtd_read K ?off (page_size ftl) buf = (ret, retlen, buf')"
    by (cases "k_mtd_read K ?off (page_size ftl) buf") auto
  with assms have "length buf' = length buf" "ret = 0 \<or> ret = - EUCLEAN"
    "retlen = page_size ftl" "buf' = d"
    unfolding mtd_read_contract_def by (force dest!: spec [of _ ?off] spec [of _ buf])+
  with r assms(2) show ?thesis by (auto simp: rk_ftl_read_page_def Let_def)
qed

lemma read_page_err:
  assumes "mtd_read_contract K (page_size ftl) media" and "length buf = unat (page_size ftl)"
    and "media (phys * ucast (page_size ftl)) = Inl e"
  shows "\<exists>buf'. rk_ftl_read_page K ftl phys buf = (e, buf') \<and> length buf' = length buf \<and> e < 0"
proof -
  let ?off = "phys * ucast (page_size ftl) :: u64"
  obtain ret retlen buf' where r: "k_mtd_read K ?off (page_size ftl) buf = (ret, retlen, buf')"
    by (cases "k_mtd_read K ?off (page_size ftl) buf") auto
  with assms have "length buf' = length buf" "ret = e" "e < 0" "e \<noteq> - EUCLEAN"
    unfolding mtd_read_contract_def by (force dest!: spec [of _ ?off] spec [of _ buf])+
  with r show ?thesis by (auto simp: rk_ftl_read_page_def Let_def)
qed

lemma region_fill_spec:
  "\<forall>i \<in> set is. i < length tbl \<Longrightarrow>
   \<exists>tbl'. region_fill is tbl = Some tbl' \<and> length tbl' = length tbl \<and>
     (\<forall>k < length tbl. tbl' ! k = (if k \<in> set is then RK_FTL_PPA_INVALID else tbl ! k))"
proof (induction "is" arbitrary: tbl)
  case Nil
  then show ?case by simp
next
  case (Cons i "is")
  have "\<forall>j \<in> set is. j < length (tbl[i := RK_FTL_PPA_INVALID])" using Cons.prems by simp
  from Cons.IH [OF this] obtain tbl' where
    "region_fill is (tbl[i := RK_FTL_PPA_INVALID]) = Some tbl'" "length tbl' = length tbl"
    "\<forall>k < length tbl. tbl' ! k =
       (if k \<in> set is then RK_FTL_PPA_INVALID else tbl[i := RK_FTL_PPA_INVALID] ! k)"
    by auto
  with Cons.prems show ?case by (auto simp: mem_simps nth_list_update)
qed

lemma region_fill_all:
  assumes "length tbl = n"
  shows "region_fill [0..<n] tbl = Some (replicate n RK_FTL_PPA_INVALID)"
proof -
  have "\<forall>i \<in> set [0..<n]. i < length tbl" using assms by simp
  from region_fill_spec [OF this] obtain tbl' where "region_fill [0..<n] tbl = Some tbl'"
    "length tbl' = n" "\<forall>k < n. tbl' ! k = RK_FTL_PPA_INVALID"
    using assms by auto
  then show ?thesis by (auto intro: nth_equalityI)
qed

lemma copy_entries_spec:
  "\<forall>i \<in> set is. i * 4 + 4 \<le> length page \<and> base + i < length tbl \<Longrightarrow>
   \<exists>tbl'. copy_entries page base is tbl = Some tbl' \<and> length tbl' = length tbl \<and>
     (\<forall>k < length tbl. tbl' ! k =
        (if base \<le> k \<and> k - base \<in> set is \<and> le32_at page ((k - base) * 4) \<noteq> Some RK_FTL_PPA_INVALID
         then the (le32_at page ((k - base) * 4)) else tbl ! k))"
proof (induction "is" arbitrary: tbl)
  case Nil
  then show ?case by simp
next
  case (Cons i "is")
  from Cons.prems obtain e where e: "le32_at page (i * 4) = Some e"
    using le32_at_some [of "i * 4" page] by auto
  let ?tbl = "if e \<noteq> RK_FTL_PPA_INVALID then tbl[base + i := e] else tbl"
  have len: "length ?tbl = length tbl" by simp
  have "\<forall>j \<in> set is. j * 4 + 4 \<le> length page \<and> base + j < length ?tbl"
    using Cons.prems by simp
  from Cons.IH [OF this] obtain tbl' where t: "copy_entries page base is ?tbl = Some tbl'"
    "length tbl' = length tbl"
    "\<forall>k < length tbl. tbl' ! k =
       (if base \<le> k \<and> k - base \<in> set is \<and> le32_at page ((k - base) * 4) \<noteq> Some RK_FTL_PPA_INVALID
        then the (le32_at page ((k - base) * 4)) else ?tbl ! k)"
    using len by auto
  have "copy_entries page base (i # is) tbl = Some tbl'"
    using t(1) Cons.prems e by (auto simp: mem_simps)
  moreover have "tbl' ! k =
       (if base \<le> k \<and> k - base \<in> set (i # is)
          \<and> le32_at page ((k - base) * 4) \<noteq> Some RK_FTL_PPA_INVALID
        then the (le32_at page ((k - base) * 4)) else tbl ! k)" if "k < length tbl" for k
    using t(3) that Cons.prems e by (cases "k = base + i") (auto simp: nth_list_update)
  ultimately show ?case using t(2) by blast
qed

lemma unat_entries_n:
  assumes "region * 2048 < unat (c :: u32)"
  shows "unat (min 2048 (c - of_nat region * 2048)) = min 2048 (unat c - region * 2048)"
proof -
  have "unat c < 2 ^ 32" using unsigned_less [of c] by simp
  with assms have u: "unat (of_nat (region * 2048) :: u32) = region * 2048"
    by (simp only: unsigned_of_nat take_bit_nat_eq_self) (simp add: take_bit_nat_eq_self)
  with assms have "unat (c - of_nat (region * 2048)) = unat c - region * 2048"
    by (simp only: unat_sub word_le_nat_alt)
  then show ?thesis by (simp add: min_def word_le_nat_alt)
qed

text \<open>One map page copied into the table gives the entries of its region and leaves the others.\<close>

lemma copy_region:
  assumes d: "length d = 8192" and mp: "mp (regions ! region) = Some d"
    and r: "region < length regions" and valid: "regions ! region \<noteq> RK_FTL_PPA_INVALID"
    and holes: "\<forall>k < length tbl. k div 2048 = region \<longrightarrow> tbl ! k = RK_FTL_PPA_INVALID"
  shows "\<exists>tbl'. copy_entries d (region * 2048) [0..<min 2048 (length tbl - region * 2048)] tbl = Some tbl'
    \<and> length tbl' = length tbl
    \<and> (\<forall>k < length tbl. tbl' ! k = (if k div 2048 = region then l2p_spec mp regions k else tbl ! k))"
proof -
  define n where "n = min 2048 (length tbl - region * 2048)"
  have "\<forall>i \<in> set [0..<n]. i * 4 + 4 \<le> length d \<and> region * 2048 + i < length tbl"
    using d by (auto simp: n_def)
  from copy_entries_spec [OF this] obtain tbl' where
    t: "copy_entries d (region * 2048) [0..<n] tbl = Some tbl'" "length tbl' = length tbl"
    "\<forall>k < length tbl. tbl' ! k = (if region * 2048 \<le> k \<and> k - region * 2048 \<in> set [0..<n]
        \<and> le32_at d ((k - region * 2048) * 4) \<noteq> Some RK_FTL_PPA_INVALID
      then the (le32_at d ((k - region * 2048) * 4)) else tbl ! k)"
    by blast
  have "tbl' ! k = (if k div 2048 = region then l2p_spec mp regions k else tbl ! k)"
    if k: "k < length tbl" for k
  proof (cases "k div 2048 = region")
    case True
    then have m: "k - region * 2048 = k mod 2048" "region * 2048 \<le> k"
      by (auto simp: minus_div_mult_eq_mod [symmetric] intro: div_times_less_eq_dividend)
    then have i: "k mod 2048 < n" using k by (auto simp: n_def)
    have "k mod 2048 < 2048" by (rule mod_less_divisor) simp
    then have "k mod 2048 * 4 + 4 \<le> length d" unfolding d by linarith
    then obtain e where "le32_at d (k mod 2048 * 4) = Some e"
      using le32_at_some by blast
    then show ?thesis
      using t(3) k True m i valid mp holes r by (auto simp: l2p_spec_def entries_2048)
  next
    case False
    have "\<not> (region * 2048 \<le> k \<and> k - region * 2048 \<in> set [0..<n])"
      using False by (auto simp: n_def)
    then show ?thesis using t(3) k False by auto
  qed
  with t(1,2) show ?thesis unfolding n_def by blast
qed

lemma expand_region_step:
  assumes K: "mtd_read_contract K (page_size ftl) media"
    and ps: "unat (page_size ftl) = 8192"
    and regs: "region_to_ppa ftl = Some regions" and r: "region < length regions"
    and tbl: "l2p ftl = Some tbl" "length tbl = unat (capacity ftl)"
    and buf: "page_buf ftl = Some b" "length b = 8192"
    and base: "region * 2048 < unat (capacity ftl)"
    and holes: "\<forall>k < length tbl. k div 2048 = region \<longrightarrow> tbl ! k = RK_FTL_PPA_INVALID"
  shows "\<exists>tbl' b'. expand_region K region ftl = Some (ftl\<lparr>page_buf := Some b', l2p := Some tbl'\<rparr>)
    \<and> length tbl' = length tbl \<and> length b' = 8192
    \<and> (\<forall>k < length tbl. tbl' ! k =
         (if k div 2048 = region then l2p_spec (media_map_page ftl media) regions k else tbl ! k))"
proof (cases "regions ! region = RK_FTL_PPA_INVALID")
  case True
  then have "expand_region K region ftl = Some (ftl\<lparr>page_buf := Some b, l2p := Some tbl\<rparr>)"
    using regs r tbl buf by (simp add: expand_region_def mem_simps)
  moreover have "\<forall>k < length tbl. tbl ! k =
      (if k div 2048 = region then l2p_spec (media_map_page ftl media) regions k else tbl ! k)"
    using holes True by (auto simp: l2p_spec_def entries_2048)
  ultimately show ?thesis using buf(2) by blast
next
  case valid: False
  let ?ppa = "regions ! region"
  let ?phys = "rk_ftl_ppa_to_linear ftl ?ppa"
  show ?thesis
  proof (cases "media (?phys * ucast (page_size ftl))")
    case (Inl e)
    then obtain b' where "rk_ftl_read_page K ftl ?phys b = (e, b')" "length b' = length b" "e < 0"
      using read_page_err [OF K, of b ?phys e] ps buf by auto
    moreover have "media_map_page ftl media ?ppa = None"
      using Inl by (simp add: media_map_page_def media_page_def)
    ultimately show ?thesis
      using regs r tbl buf valid holes
      by (intro exI [of _ tbl] exI [of _ b'])
         (auto simp: expand_region_def mem_simps l2p_spec_def entries_2048)
  next
    case (Inr d)
    then have rd: "rk_ftl_read_page K ftl ?phys b = (0, d)" and d: "length d = 8192"
      using read_page_ok [OF K, of b ?phys d] ps buf by auto
    moreover have "media_map_page ftl media ?ppa = Some d"
      using Inr by (simp add: media_map_page_def media_page_def)
    ultimately obtain tbl' where
      "copy_entries d (region * 2048) [0..<min 2048 (length tbl - region * 2048)] tbl = Some tbl'"
      "length tbl' = length tbl" "\<forall>k < length tbl. tbl' ! k =
         (if k div 2048 = region then l2p_spec (media_map_page ftl media) regions k else tbl ! k)"
      using copy_region [OF _ _ r valid holes] by metis
    then show ?thesis
      using rd d regs r tbl buf valid
      by (intro exI [of _ tbl'] exI [of _ d])
         (auto simp: expand_region_def mem_simps entries_2048 unat_entries_n [OF base])
  qed
qed

lemma expand_regions_append:
  "expand_regions K (xs @ ys) ftl = Option.bind (expand_regions K xs ftl) (expand_regions K ys)"
  by (induction xs arbitrary: ftl) (auto split: Option.bind_split)

lemma expand_regions_upto:
  assumes K: "mtd_read_contract K (page_size ftl) media"
    and ps: "unat (page_size ftl) = 8192"
    and regs: "region_to_ppa ftl = Some regions"
    and tbl: "l2p ftl = Some (replicate (unat (capacity ftl)) RK_FTL_PPA_INVALID)"
    and buf: "page_buf ftl = Some b" "length b = 8192"
    and base: "\<forall>r < length regions. r * 2048 < unat (capacity ftl)"
    and m: "m \<le> length regions"
  shows "\<exists>tbl' b'. expand_regions K [0..<m] ftl = Some (ftl\<lparr>page_buf := Some b', l2p := Some tbl'\<rparr>)
    \<and> length tbl' = unat (capacity ftl) \<and> length b' = 8192
    \<and> (\<forall>k < unat (capacity ftl). tbl' ! k =
         (if k div 2048 < m then l2p_spec (media_map_page ftl media) regions k
          else RK_FTL_PPA_INVALID))"
  using m
proof (induction m)
  case 0
  then show ?case
    using tbl buf
    by (intro exI [of _ "replicate (unat (capacity ftl)) RK_FTL_PPA_INVALID"] exI [of _ b]) simp
next
  case (Suc m)
  then obtain tbl' b' where
    IH: "expand_regions K [0..<m] ftl = Some (ftl\<lparr>page_buf := Some b', l2p := Some tbl'\<rparr>)"
    and l: "length tbl' = unat (capacity ftl)" "length b' = 8192"
    and c: "\<forall>k < unat (capacity ftl). tbl' ! k =
         (if k div 2048 < m then l2p_spec (media_map_page ftl media) regions k
          else RK_FTL_PPA_INVALID)"
    by auto
  let ?f = "ftl\<lparr>page_buf := Some b', l2p := Some tbl'\<rparr>"
  have mp: "media_map_page ?f media = media_map_page ftl media"
    by (rule ext) (simp add: media_map_page_def media_page_def rk_ftl_ppa_to_linear_def)
  have "\<exists>tbl'' b''. expand_region K m ?f = Some (?f\<lparr>page_buf := Some b'', l2p := Some tbl''\<rparr>)
    \<and> length tbl'' = length tbl' \<and> length b'' = 8192
    \<and> (\<forall>k < length tbl'. tbl'' ! k =
         (if k div 2048 = m then l2p_spec (media_map_page ?f media) regions k else tbl' ! k))"
    by (rule expand_region_step) (use K ps regs l base Suc.prems c in auto)
  then obtain tbl'' b'' where st: "expand_region K m ?f = Some (?f\<lparr>page_buf := Some b'', l2p := Some tbl''\<rparr>)"
    "length tbl'' = length tbl'" "length b'' = 8192"
    "\<forall>k < length tbl'. tbl'' ! k =
         (if k div 2048 = m then l2p_spec (media_map_page ftl media) regions k else tbl' ! k)"
    unfolding mp by blast
  have "expand_regions K [0..<Suc m] ftl = Some (ftl\<lparr>page_buf := Some b'', l2p := Some tbl''\<rparr>)"
    using IH st(1) by (simp add: expand_regions_append)
  moreover have "\<forall>k < unat (capacity ftl). tbl'' ! k =
         (if k div 2048 < Suc m then l2p_spec (media_map_page ftl media) regions k
          else RK_FTL_PPA_INVALID)"
    using st(4) c l by (auto simp: less_Suc_eq)
  moreover have "length tbl'' = unat (capacity ftl)" using st(2) l(1) by simp
  ultimately show ?case using st(3) by blast
qed

lemma num_regions_bound:
  assumes "unat c + 2047 < 2 ^ 32"
  shows "unat (div_round_up c 2048) = (unat c + 2047) div 2048"
proof -
  have "c + 2048 - 1 = c + 2047" by simp
  moreover have "unat (c + 2047) = unat c + 2047"
    using assms by (simp add: unat_word_ariths)
  ultimately show ?thesis by (simp only: div_round_up_def unat_div_word) simp
qed

section \<open>Properties\<close>

text \<open>
  C5: map expansion is correct and memory safe. For any level-1 table whose regions start inside
  the logical space, \<open>rk_ftl_expand_l2p\<close> never leaves a buffer, returns 0, and builds a table whose
  entry for every logical page is the one the two-level map of the vendor FTL defines; the scratch
  page cache is invalidated, and a region whose map page cannot be read stays a hole.
\<close>

theorem expand_l2p_correct:
  assumes "mtd_read_contract K (page_size ftl) media" and "unat (page_size ftl) = 8192"
    and "region_to_ppa ftl = Some regions" and "length regions = unat (num_regions ftl)"
    and "\<forall>r < length regions. r * 2048 < unat (capacity ftl)"
    and "unat (capacity ftl) \<le> length regions * 2048"
    and "page_buf ftl = Some b" and "length b = 8192"
    and "k_alloc32 K A_l2p (unat (capacity ftl)) = Some mem" and "length mem = unat (capacity ftl)"
  shows "\<exists>ftl' tbl. rk_ftl_expand_l2p K ftl heap = Some (0, ftl', A_l2p # heap)
    \<and> l2p ftl' = Some tbl \<and> length tbl = unat (capacity ftl')
    \<and> capacity ftl' = capacity ftl \<and> page_buf_lpn ftl' = 0xFFFFFFFF
    \<and> (\<forall>lpn < unat (capacity ftl). tbl ! lpn = l2p_spec (media_map_page ftl media) regions lpn)"
proof -
  let ?f = "ftl\<lparr>l2p := Some (replicate (unat (capacity ftl)) RK_FTL_PPA_INVALID)\<rparr>"
  have "\<exists>tbl' b'. expand_regions K [0..<length regions] ?f
        = Some (?f\<lparr>page_buf := Some b', l2p := Some tbl'\<rparr>)
    \<and> length tbl' = unat (capacity ?f) \<and> length b' = 8192
    \<and> (\<forall>k < unat (capacity ?f). tbl' ! k =
         (if k div 2048 < length regions then l2p_spec (media_map_page ?f media) regions k
          else RK_FTL_PPA_INVALID))"
    by (rule expand_regions_upto) (use assms in auto)
  moreover have "media_map_page ?f media = media_map_page ftl media"
    by (rule ext) (simp add: media_map_page_def media_page_def rk_ftl_ppa_to_linear_def)
  ultimately obtain tbl' b' where
    r: "expand_regions K [0..<length regions] ?f = Some (?f\<lparr>page_buf := Some b', l2p := Some tbl'\<rparr>)"
    "length tbl' = unat (capacity ftl)"
    "\<forall>k < unat (capacity ftl). tbl' ! k =
         (if k div 2048 < length regions then l2p_spec (media_map_page ftl media) regions k
          else RK_FTL_PPA_INVALID)"
    by auto
  moreover have "mem_fill mem 0xFFFFFFFF (unat (capacity ftl))
      = Some (replicate (unat (capacity ftl)) RK_FTL_PPA_INVALID)"
    using assms(10) by (simp add: mem_simps RK_FTL_PPA_INVALID_def)
  moreover have "k div 2048 < length regions" if "k < unat (capacity ftl)" for k
    using that assms(6) by (simp add: div_less_iff_less_mult)
  ultimately show ?thesis
    using assms(4,9) by (simp add: rk_ftl_expand_l2p_def)
qed

end
