(* ===== verification/Ftl_Read.thy ===== *)
theory Ftl_Read
  imports Ftl_Map
begin

text \<open>
  \<open>ftl/rk-ftl.c\<close>, block-device side: \<open>rk_ftl_readsect\<close> with its one-page cache, binding to an MTD
  (\<open>rk_ftl_add_mtd\<close>) and removal (\<open>rk_ftl_remove_dev\<close>) with the heap they allocate and free. The
  locale \<open>sector_device\<close> is the contract of a sector-addressed reader; the FTL is an instance of it
  as long as the mapped pages are readable.
\<close>

section \<open>Serving sectors\<close>

definition rk_ftl_readsect ::
  "mtd_kernel \<Rightarrow> rk_ftl \<Rightarrow> ulong \<Rightarrow> ((int + bytes) \<times> rk_ftl) option" where
  "rk_ftl_readsect K ftl block =
     (let lpn = block div of_nat RK_FTL_SPP; sec = block mod of_nat RK_FTL_SPP in
      if lpn \<ge> capacity ftl then Some (Inr (replicate RK_FTL_SECT_SIZE 0), ftl)
      else do {
        (err, ftl) \<leftarrow>
          (if page_buf_lpn ftl \<noteq> lpn then do {
             tbl \<leftarrow> l2p ftl;
             ppa \<leftarrow> mem_get tbl (unat lpn);
             buf \<leftarrow> page_buf ftl;
             if ppa = RK_FTL_PPA_INVALID then do {
               buf' \<leftarrow> mem_fill buf 0 (unat (page_size ftl));
               Some (0, ftl\<lparr>page_buf := Some buf', page_buf_lpn := lpn\<rparr>) }
             else (let (ret, buf') = rk_ftl_read_page K ftl (rk_ftl_ppa_to_linear ftl ppa) buf in
               if ret \<noteq> 0 then Some (ret, ftl\<lparr>page_buf := Some buf'\<rparr>)
               else Some (0, ftl\<lparr>page_buf := Some buf', page_buf_lpn := lpn\<rparr>)) }
           else Some (0, ftl));
        if err \<noteq> 0 then Some (Inl err, ftl)
        else do {
          buf \<leftarrow> page_buf ftl;
          data \<leftarrow> mem_slice buf (unat sec * RK_FTL_SECT_SIZE) RK_FTL_SECT_SIZE;
          Some (Inr data, ftl) } })"

definition rk_ftl_open :: "mtd_blktrans_dev \<Rightarrow> int" where
  "rk_ftl_open dev = 0"

definition rk_ftl_release :: "rk_ftl \<Rightarrow> rk_ftl" where
  "rk_ftl_release ftl = ftl"

section \<open>Binding to an MTD\<close>

text \<open>\<open>kzalloc(sizeof( *ftl))\<close> followed by \<open>ftl->mtd = mtd\<close>.\<close>

definition rk_ftl_zeroed :: "mtd_info \<Rightarrow> rk_ftl" where
  "rk_ftl_zeroed mtd =
     \<lparr>ftl_mbd = \<lparr>mbd_devnum = 0, mbd_readonly = False, mbd_size = 0\<rparr>, ftl_mtd = mtd, page_size = 0,
      pages_per_block = 0, total_blocks = 0, total_pages = 0, sysblk_num = 0,
      ftl_sys = \<lparr>sys_capacity = 0, sys_max_version = 0, sys_open_sblk = [0, 0],
                 sys_num_open_sblk = 0\<rparr>,
      capacity = 0, region_to_ppa = None, num_regions = 0, l2p = None, page_buf = None,
      page_buf_lpn = 0, oob_buf = None\<rparr>"

text \<open>Freeing NULL is a no-op; freeing what is not allocated is a fault.\<close>

definition kfree :: "alloc_site \<Rightarrow> 'a option \<Rightarrow> alloc_site list \<Rightarrow> alloc_site list option" where
  "kfree site p heap =
     (case p of None \<Rightarrow> Some heap
      | Some _ \<Rightarrow> if site \<in> set heap then Some (remove1 site heap) else None)"

definition ftl_err_free :: "rk_ftl \<Rightarrow> alloc_site list \<Rightarrow> alloc_site list option" where
  "ftl_err_free ftl heap = do {
     heap \<leftarrow> kfree A_l2p (l2p ftl) heap;
     heap \<leftarrow> kfree A_region_to_ppa (region_to_ppa ftl) heap;
     heap \<leftarrow> kfree A_page_buf (page_buf ftl) heap;
     heap \<leftarrow> kfree A_oob_buf (oob_buf ftl) heap;
     kfree A_ftl (Some ()) heap }"

definition note_alloc :: "alloc_site \<Rightarrow> 'a option \<Rightarrow> alloc_site list \<Rightarrow> alloc_site list" where
  "note_alloc site p heap = (case p of None \<Rightarrow> heap | Some _ \<Rightarrow> site # heap)"

definition rk_ftl_add_mtd ::
  "mtd_kernel \<Rightarrow> mtd_info \<Rightarrow> alloc_site list \<Rightarrow> (rk_ftl option \<times> alloc_site list) option" where
  "rk_ftl_add_mtd K mtd heap =
     (if mtd_type mtd \<noteq> MTD_NANDFLASH \<and> mtd_type mtd \<noteq> MTD_MLCNANDFLASH then Some (None, heap)
      else if unat (mtd_writesize mtd) \<noteq> RK_FTL_PAGE_SIZE then Some (None, heap)
      else case k_alloc K A_ftl 0 of
        None \<Rightarrow> Some (None, heap)
      | Some _ \<Rightarrow>
        (let ftl = (rk_ftl_zeroed mtd)
               \<lparr>page_size := mtd_writesize mtd,
                pages_per_block := mtd_erasesize mtd div mtd_writesize mtd,
                total_blocks := k_div_by_eb K (mtd_size mtd) mtd,
                total_pages := ucast (k_div_by_ws K (mtd_size mtd) mtd),
                page_buf_lpn := 0xFFFFFFFF,
                oob_buf := k_alloc K A_oob_buf (unat (mtd_oobsize mtd)),
                page_buf := k_alloc K A_page_buf (unat (mtd_writesize mtd))\<rparr>;
             heap = note_alloc A_page_buf (page_buf ftl)
                      (note_alloc A_oob_buf (oob_buf ftl) (A_ftl # heap))
         in if oob_buf ftl = None \<or> page_buf ftl = None then do {
              heap \<leftarrow> ftl_err_free ftl heap;
              Some (None, heap) }
            else do {
              (ret, ftl, heap) \<leftarrow> rk_ftl_build_map K ftl heap;
              if ret \<noteq> 0 then do {
                heap \<leftarrow> ftl_err_free ftl heap;
                Some (None, heap) }
              else
                let mbd = \<lparr>mbd_devnum = mtd_index mtd, mbd_readonly = True,
                           mbd_size = capacity ftl * of_nat RK_FTL_SPP\<rparr>;
                    ftl = ftl\<lparr>ftl_mbd := mbd\<rparr>
                in if k_add_blktrans K mbd \<noteq> 0 then do {
                     heap \<leftarrow> ftl_err_free ftl heap;
                     Some (None, heap) }
                   else Some (Some ftl, heap) }))"

definition rk_ftl_remove_dev :: "rk_ftl \<Rightarrow> alloc_site list \<Rightarrow> alloc_site list option" where
  "rk_ftl_remove_dev ftl heap = do {
     heap \<leftarrow> kfree A_l2p (l2p ftl) heap;
     heap \<leftarrow> kfree A_region_to_ppa (region_to_ppa ftl) heap;
     heap \<leftarrow> kfree A_page_buf (page_buf ftl) heap;
     heap \<leftarrow> kfree A_oob_buf (oob_buf ftl) heap;
     kfree A_ftl (Some ()) heap }"

section \<open>The contract of a sector reader\<close>

fun read_seq :: "('s \<Rightarrow> 'a \<Rightarrow> (('e + 'd) \<times> 's) option) \<Rightarrow> 's \<Rightarrow> 'a list \<Rightarrow> (('e + 'd) list \<times> 's) option" where
  "read_seq rd s [] = Some ([], s)"
| "read_seq rd s (a # as) = do {
     (r, s') \<leftarrow> rd s a;
     (rs, s'') \<leftarrow> read_seq rd s' as;
     Some (r # rs, s'') }"

locale sector_device =
  fixes rd :: "'s \<Rightarrow> 'a \<Rightarrow> (('e + 'd) \<times> 's) option"
    and inv :: "'s \<Rightarrow> bool"
    and content :: "'s \<Rightarrow> 'a \<Rightarrow> 'd"
  assumes rd_content: "inv s \<Longrightarrow> \<exists>s'. rd s a = Some (Inr (content s a), s') \<and> inv s' \<and> content s' = content s"
begin

lemma read_seq_content:
  "inv s \<Longrightarrow> \<exists>s'. read_seq rd s as = Some (map (\<lambda>a. Inr (content s a)) as, s') \<and> inv s'"
proof (induction as arbitrary: s)
  case Nil
  then show ?case by simp
next
  case (Cons a as)
  from rd_content [OF Cons.prems] obtain s' where
    s': "rd s a = Some (Inr (content s a), s')" "inv s'" "content s' = content s" by blast
  from Cons.IH [OF s'(2)] s' show ?case by auto
qed

end

section \<open>What a sector holds\<close>

definition logical_page :: "rk_ftl \<Rightarrow> (u64 \<Rightarrow> int + bytes) \<Rightarrow> nat \<Rightarrow> int + bytes" where
  "logical_page ftl media lpn =
     (if lpn \<ge> unat (capacity ftl) then Inr (replicate RK_FTL_PAGE_SIZE 0)
      else let ppa = the (l2p ftl) ! lpn
           in if ppa = RK_FTL_PPA_INVALID then Inr (replicate RK_FTL_PAGE_SIZE 0)
              else media_page ftl media ppa)"

definition page_sector :: "nat \<Rightarrow> bytes \<Rightarrow> bytes" where
  "page_sector sec page = take RK_FTL_SECT_SIZE (drop (sec * RK_FTL_SECT_SIZE) page)"

definition sector_content :: "(u64 \<Rightarrow> int + bytes) \<Rightarrow> rk_ftl \<Rightarrow> ulong \<Rightarrow> int + bytes" where
  "sector_content media ftl block =
     map_sum id (page_sector (unat block mod RK_FTL_SPP))
       (logical_page ftl media (unat block div RK_FTL_SPP))"

definition wf_ftl :: "rk_ftl \<Rightarrow> bool" where
  "wf_ftl ftl \<longleftrightarrow> unat (page_size ftl) = RK_FTL_PAGE_SIZE
     \<and> (case page_buf ftl of None \<Rightarrow> False | Some b \<Rightarrow> length b = RK_FTL_PAGE_SIZE)
     \<and> (case l2p ftl of None \<Rightarrow> False | Some t \<Rightarrow> length t = unat (capacity ftl))"

text \<open>The page cache holds the logical page it is labelled with, or is labelled as empty.\<close>

definition cache_ok :: "(u64 \<Rightarrow> int + bytes) \<Rightarrow> rk_ftl \<Rightarrow> bool" where
  "cache_ok media ftl \<longleftrightarrow> page_buf_lpn ftl = 0xFFFFFFFF
     \<or> logical_page ftl media (unat (page_buf_lpn ftl)) = Inr (the (page_buf ftl))"

definition all_readable :: "(u64 \<Rightarrow> int + bytes) \<Rightarrow> rk_ftl \<Rightarrow> bool" where
  "all_readable media ftl \<longleftrightarrow> (\<forall>lpn < unat (capacity ftl). \<exists>d. logical_page ftl media lpn = Inr d)"

definition ftl_serving :: "mtd_kernel \<Rightarrow> (u64 \<Rightarrow> int + bytes) \<Rightarrow> rk_ftl \<Rightarrow> bool" where
  "ftl_serving K media ftl \<longleftrightarrow> mtd_read_contract K (page_size ftl) media \<and> wf_ftl ftl
     \<and> cache_ok media ftl \<and> all_readable media ftl"

definition alloc_contract :: "mtd_kernel \<Rightarrow> bool" where
  "alloc_contract K \<longleftrightarrow>
     (\<forall>site n b. k_alloc K site n = Some b \<longrightarrow> length b = n)
   \<and> (\<forall>site n b. k_alloc32 K site n = Some b \<longrightarrow> length b = n)"

section \<open>Lemmas\<close>

lemma block_lpn: "unat (block div 16 :: ulong) = unat block div 16"
  "unat (block mod 16 :: ulong) = unat block mod 16"
  by (simp_all add: word_nat)

lemma lpn_not_sentinel: "(block div 16 :: ulong) \<noteq> 0xFFFFFFFF"
proof
  assume "block div 16 = 0xFFFFFFFF"
  then have "unat block div 16 = 0xFFFFFFFF" by (simp flip: block_lpn(1))
  moreover have "unat block < 2 ^ 32" using unsigned_less [of block] by simp
  ultimately show False by simp
qed

lemma slice_sector:
  assumes "length page = 8192" and "sec < 16"
  shows "mem_slice page (sec * 512) 512 = Some (page_sector sec page)"
  using assms by (simp add: mem_simps page_sector_def RK_FTL_SECT_SIZE_def)

lemma page_sector_zero: "sec < 16 \<Longrightarrow> page_sector sec (replicate 8192 0) = replicate 512 0"
  by (simp add: page_sector_def RK_FTL_SECT_SIZE_def)

text \<open>Rewriting the cache does not change what the device holds.\<close>

lemma logical_page_cache [simp]:
  "logical_page (ftl\<lparr>page_buf := b, page_buf_lpn := n\<rparr>) media = logical_page ftl media"
  "logical_page (ftl\<lparr>page_buf := b\<rparr>) media = logical_page ftl media"
  by (auto simp: logical_page_def media_page_def rk_ftl_ppa_to_linear_def fun_eq_iff Let_def)

lemma sector_content_cache [simp]:
  "sector_content media (ftl\<lparr>page_buf := b, page_buf_lpn := n\<rparr>) = sector_content media ftl"
  "sector_content media (ftl\<lparr>page_buf := b\<rparr>) = sector_content media ftl"
  by (auto simp: sector_content_def fun_eq_iff)

lemma all_readable_cache [simp]:
  "all_readable media (ftl\<lparr>page_buf := b, page_buf_lpn := n\<rparr>) = all_readable media ftl"
  by (simp add: all_readable_def)

lemmas readsect_consts = RK_FTL_SPP_def RK_FTL_SECT_SIZE_def page_size_8192

lemma wf_ftlE:
  assumes "wf_ftl ftl"
  obtains b t where "page_buf ftl = Some b" "length b = 8192" "l2p ftl = Some t"
    "length t = unat (capacity ftl)" "unat (page_size ftl) = 8192"
  using assms by (auto simp: wf_ftl_def page_size_8192 split: option.splits)

lemma sec_lt: "unat (block :: ulong) mod 16 < 16"
  by simp

lemma readsect_beyond:
  assumes "unat (capacity ftl) \<le> unat block div 16"
  shows "rk_ftl_readsect K ftl block = Some (Inr (replicate 512 0), ftl)
    \<and> sector_content media ftl block = Inr (replicate 512 0)"
  using assms sec_lt [of block]
  by (simp add: rk_ftl_readsect_def readsect_consts word_le_nat_alt block_lpn sector_content_def
      logical_page_def page_sector_zero)

lemma readsect_hit:
  assumes "wf_ftl ftl" and "cache_ok media ftl" and "unat block div 16 < unat (capacity ftl)"
    and "page_buf_lpn ftl = block div 16"
  shows "\<exists>d. rk_ftl_readsect K ftl block = Some (Inr d, ftl) \<and> sector_content media ftl block = Inr d"
proof -
  obtain b where b: "page_buf ftl = Some b" "length b = 8192" using assms(1) by (rule wf_ftlE)
  then have "logical_page ftl media (unat block div 16) = Inr b"
    using assms(2,4) lpn_not_sentinel by (simp add: cache_ok_def block_lpn)
  then show ?thesis
    using assms(3,4) b slice_sector [OF b(2) sec_lt]
    by (simp add: rk_ftl_readsect_def readsect_consts word_le_nat_alt block_lpn sector_content_def)
qed

text \<open>A miss loads the page of the medium (or zeros) and relabels the cache.\<close>

lemma readsect_miss_ok:
  assumes K: "mtd_read_contract K (page_size ftl) media" and wf: "wf_ftl ftl"
    and lt: "unat block div 16 < unat (capacity ftl)" and miss: "page_buf_lpn ftl \<noteq> block div 16"
    and ok: "logical_page ftl media (unat block div 16) = Inr p"
  shows "rk_ftl_readsect K ftl block = Some (Inr (page_sector (unat block mod 16) p),
           ftl\<lparr>page_buf := Some p, page_buf_lpn := block div 16\<rparr>) \<and> length p = 8192"
proof -
  obtain b t where w: "page_buf ftl = Some b" "length b = 8192" "l2p ftl = Some t"
    "length t = unat (capacity ftl)" "unat (page_size ftl) = 8192" using wf by (rule wf_ftlE)
  let ?ppa = "t ! (unat block div 16)"
  have get: "mem_get t (unat block div 16) = Some ?ppa" using lt w by (simp add: mem_simps)
  show ?thesis
  proof (cases "?ppa = RK_FTL_PPA_INVALID")
    case True
    then have p: "p = replicate 8192 0"
      using ok lt w by (simp add: logical_page_def page_size_8192)
    then show ?thesis
      using True get lt miss w slice_sector [of p, OF _ sec_lt]
      by (simp add: rk_ftl_readsect_def readsect_consts word_le_nat_alt block_lpn mem_simps)
  next
    case False
    then have "media (rk_ftl_ppa_to_linear ftl ?ppa * ucast (page_size ftl)) = Inr p"
      using ok lt w by (simp add: logical_page_def media_page_def)
    then have "rk_ftl_read_page K ftl (rk_ftl_ppa_to_linear ftl ?ppa) b = (0, p) \<and> length p = 8192"
      using read_page_ok [OF K, of b] w by simp
    then show ?thesis
      using False get lt miss w slice_sector [of p, OF _ sec_lt]
      by (simp add: rk_ftl_readsect_def readsect_consts word_le_nat_alt block_lpn)
  qed
qed

lemma readsect_miss_err:
  assumes K: "mtd_read_contract K (page_size ftl) media" and wf: "wf_ftl ftl"
    and lt: "unat block div 16 < unat (capacity ftl)" and miss: "page_buf_lpn ftl \<noteq> block div 16"
    and err: "logical_page ftl media (unat block div 16) = Inl e"
  shows "\<exists>b'. rk_ftl_readsect K ftl block = Some (Inl e, ftl\<lparr>page_buf := Some b'\<rparr>)
    \<and> length b' = 8192 \<and> e < 0"
proof -
  obtain b t where w: "page_buf ftl = Some b" "length b = 8192" "l2p ftl = Some t"
    "length t = unat (capacity ftl)" "unat (page_size ftl) = 8192" using wf by (rule wf_ftlE)
  let ?ppa = "t ! (unat block div 16)"
  have get: "mem_get t (unat block div 16) = Some ?ppa" using lt w by (simp add: mem_simps)
  have inv: "?ppa \<noteq> RK_FTL_PPA_INVALID" using err lt w by (auto simp: logical_page_def)
  then have "media (rk_ftl_ppa_to_linear ftl ?ppa * ucast (page_size ftl)) = Inl e"
    using err lt w by (simp add: logical_page_def media_page_def)
  then obtain b' where
    "rk_ftl_read_page K ftl (rk_ftl_ppa_to_linear ftl ?ppa) b = (e, b')" "length b' = 8192" "e < 0"
    using read_page_err [OF K, of b] w by auto
  then show ?thesis
    using inv get lt miss w
    by (intro exI [of _ b'])
       (simp add: rk_ftl_readsect_def readsect_consts word_le_nat_alt block_lpn)
qed

lemma wf_ftl_cache [simp]:
  "length p = 8192 \<Longrightarrow> wf_ftl (ftl\<lparr>page_buf := Some p, page_buf_lpn := n\<rparr>) \<longleftrightarrow>
     wf_ftl (ftl\<lparr>page_buf := Some p\<rparr>)"
  by (simp add: wf_ftl_def split: option.splits)

lemma wf_ftl_buf: "wf_ftl ftl \<Longrightarrow> length p = 8192 \<Longrightarrow> wf_ftl (ftl\<lparr>page_buf := Some p\<rparr>)"
  by (simp add: wf_ftl_def page_size_8192 split: option.splits)

lemma readsect_serving:
  assumes "ftl_serving K media ftl"
  shows "\<exists>d ftl'. sector_content media ftl block = Inr d
    \<and> rk_ftl_readsect K ftl block = Some (Inr d, ftl') \<and> ftl_serving K media ftl'
    \<and> sector_content media ftl' = sector_content media ftl"
proof -
  note inv = assms [unfolded ftl_serving_def]
  consider (beyond) "unat (capacity ftl) \<le> unat block div 16"
    | (hit) "unat block div 16 < unat (capacity ftl)" "page_buf_lpn ftl = block div 16"
    | (miss) "unat block div 16 < unat (capacity ftl)" "page_buf_lpn ftl \<noteq> block div 16"
    by linarith
  then show ?thesis
  proof cases
    case beyond
    then show ?thesis using readsect_beyond [of ftl block K media] assms by blast
  next
    case hit
    then show ?thesis using readsect_hit [of ftl media block K] inv assms by blast
  next
    case miss
    then obtain p where p: "logical_page ftl media (unat block div 16) = Inr p"
      using inv by (auto simp: all_readable_def)
    then have r: "rk_ftl_readsect K ftl block = Some (Inr (page_sector (unat block mod 16) p),
        ftl\<lparr>page_buf := Some p, page_buf_lpn := block div 16\<rparr>)" "length p = 8192"
      using readsect_miss_ok [of K ftl media block p] inv miss by auto
    have "ftl_serving K media (ftl\<lparr>page_buf := Some p, page_buf_lpn := block div 16\<rparr>)"
      using inv r p wf_ftl_buf by (simp add: ftl_serving_def cache_ok_def block_lpn)
    then show ?thesis
      using r p by (simp add: sector_content_def RK_FTL_SPP_def)
  qed
qed

interpretation rk_sectors: sector_device "rk_ftl_readsect K" "ftl_serving K media"
  "\<lambda>ftl block. projr (sector_content media ftl block)" for K media
proof
  fix ftl block
  assume "ftl_serving K media ftl"
  from readsect_serving [OF this, of block] show "\<exists>s'. rk_ftl_readsect K ftl block =
      Some (Inr (projr (sector_content media ftl block)), s') \<and> ftl_serving K media s' \<and>
      (\<lambda>block. projr (sector_content media s' block)) = (\<lambda>block. projr (sector_content media ftl block))"
    by auto
qed

lemma map_sum_Inr: "map_sum id f x = Inr y \<Longrightarrow> \<exists>z. x = Inr z \<and> y = f z"
  by (cases x) auto

lemma map_sum_Inl: "map_sum id f x = Inl e \<Longrightarrow> x = Inl e"
  by (cases x) auto

text \<open>The map the present source builds has no entries: every logical page is a hole.\<close>

lemma expand_regions_holes:
  assumes "region_to_ppa ftl = Some (replicate n RK_FTL_PPA_INVALID)" and "\<forall>r \<in> set rs. r < n"
  shows "expand_regions K rs ftl = Some ftl"
  using assms(2) by (induction rs) (auto simp: expand_region_def assms(1) mem_simps)

text \<open>The second half of the build, on a region table of holes only: it fails for want of memory or gives a table of holes.\<close>

lemma expand_l2p_holes:
  assumes A: "alloc_contract K" and "region_to_ppa ftl = Some (replicate (unat (num_regions ftl)) RK_FTL_PPA_INVALID)"
  shows "rk_ftl_expand_l2p K ftl heap
    = (if k_alloc32 K A_l2p (unat (capacity ftl)) = None then Some (- ENOMEM, ftl\<lparr>l2p := None\<rparr>, heap)
       else Some (0, ftl\<lparr>l2p := Some (replicate (unat (capacity ftl)) RK_FTL_PPA_INVALID), page_buf_lpn := 0xFFFFFFFF\<rparr>,
         A_l2p # heap))"
proof (cases "k_alloc32 K A_l2p (unat (capacity ftl))")
  case None
  then show ?thesis by (simp add: rk_ftl_expand_l2p_def)
next
  case (Some t)
  then have "mem_fill t 0xFFFFFFFF (unat (capacity ftl)) = Some (replicate (unat (capacity ftl)) RK_FTL_PPA_INVALID)"
    using A by (auto simp: alloc_contract_def mem_simps RK_FTL_PPA_INVALID_def)
  then show ?thesis
    using Some assms(2) expand_regions_holes [of "ftl\<lparr>l2p := _\<rparr>" "unat (num_regions ftl)" "[0..<unat (num_regions ftl)]" K]
    by (simp add: rk_ftl_expand_l2p_def)
qed

lemma build_map_holes:
  assumes A: "alloc_contract K"
  shows "\<exists>ret ftl' heap'. rk_ftl_build_map K ftl heap = Some (ret, ftl', heap')
    \<and> page_size ftl' = page_size ftl \<and> page_buf ftl' = page_buf ftl \<and> oob_buf ftl' = oob_buf ftl
    \<and> (ret = 0 \<longrightarrow> l2p ftl' = Some (replicate (unat (capacity ftl')) RK_FTL_PPA_INVALID)
         \<and> region_to_ppa ftl' \<noteq> None \<and> page_buf_lpn ftl' = 0xFFFFFFFF
         \<and> heap' = A_l2p # A_region_to_ppa # heap)
    \<and> (ret \<noteq> 0 \<longrightarrow> l2p ftl' = (if region_to_ppa ftl' = None then l2p ftl else None)
         \<and> heap' = note_alloc A_region_to_ppa (region_to_ppa ftl') heap)"
proof -
  define e where "e = ftl\<lparr>sysblk_num := 24\<rparr>"
  define f where "f = snd (rk_ftl_load_sysinfo e)"
  define g where "g = f\<lparr>num_regions := div_round_up (capacity f) (of_nat RK_FTL_ENTRIES_PER_REGION)\<rparr>"
  have g [simp]: "page_size g = page_size ftl" "page_buf g = page_buf ftl" "oob_buf g = oob_buf ftl" "l2p g = l2p ftl"
    by (simp_all add: g_def f_def e_def rk_ftl_load_sysinfo_def Let_def)
  have start: "rk_ftl_scan_sysblk ftl = (0, e)" "rk_ftl_load_sysinfo e = (0, f)"
    by (simp_all add: f_def e_def rk_ftl_load_sysinfo_def rk_ftl_scan_sysblk_def Let_def)
  show ?thesis
  proof (cases "k_alloc32 K A_region_to_ppa (unat (num_regions g))")
    case None
    then have "rk_ftl_map_recovery K f heap = Some (- ENOMEM, g\<lparr>region_to_ppa := None\<rparr>, heap)"
      unfolding rk_ftl_map_recovery_def Let_def g_def [symmetric] by simp
    then show ?thesis by (simp add: rk_ftl_build_map_def start note_alloc_def)
  next
    case (Some tbl)
    let ?h = "g\<lparr>region_to_ppa := Some (replicate (unat (num_regions g)) RK_FTL_PPA_INVALID)\<rparr>"
    have "length tbl = unat (num_regions g)" using A Some by (auto simp: alloc_contract_def)
    then have "rk_ftl_map_recovery K f heap = Some (0, ?h, A_region_to_ppa # heap)"
      unfolding rk_ftl_map_recovery_def Let_def g_def [symmetric]
      using Some by (simp add: region_fill_all)
    then show ?thesis
      by (simp add: rk_ftl_build_map_def start expand_l2p_holes [OF A] rk_ftl_overlay_open_def note_alloc_def)
  qed
qed

lemmas free_defs = ftl_err_free_def rk_ftl_remove_dev_def kfree_def note_alloc_def

lemma add_mtd_outcome:
  assumes "alloc_contract K"
  shows "\<exists>r heap'. rk_ftl_add_mtd K mtd heap = Some (r, heap')
    \<and> (case r of None \<Rightarrow> heap' = heap
       | Some ftl \<Rightarrow> wf_ftl ftl \<and> mbd_readonly (ftl_mbd ftl)
           \<and> l2p ftl = Some (replicate (unat (capacity ftl)) RK_FTL_PPA_INVALID)
           \<and> page_buf_lpn ftl = 0xFFFFFFFF
           \<and> mbd_size (ftl_mbd ftl) = capacity ftl * 16
           \<and> rk_ftl_remove_dev ftl heap' = Some heap)"
proof -
  let ?ps = "mtd_writesize mtd"
  define ftl where "ftl = (rk_ftl_zeroed mtd)
     \<lparr>page_size := ?ps, pages_per_block := mtd_erasesize mtd div ?ps,
      total_blocks := k_div_by_eb K (mtd_size mtd) mtd,
      total_pages := ucast (k_div_by_ws K (mtd_size mtd) mtd), page_buf_lpn := 0xFFFFFFFF,
      oob_buf := k_alloc K A_oob_buf (unat (mtd_oobsize mtd)),
      page_buf := k_alloc K A_page_buf (unat ?ps)\<rparr>"
  have f [simp]: "l2p ftl = None" "region_to_ppa ftl = None" "page_size ftl = ?ps"
    "oob_buf ftl = k_alloc K A_oob_buf (unat (mtd_oobsize mtd))"
    "page_buf ftl = k_alloc K A_page_buf (unat ?ps)"
    by (simp_all add: ftl_def rk_ftl_zeroed_def)
  note add = rk_ftl_add_mtd_def [of K mtd heap, unfolded Let_def ftl_def [symmetric]]
  show ?thesis
  proof (cases "(mtd_type mtd = MTD_NANDFLASH \<or> mtd_type mtd = MTD_MLCNANDFLASH)
      \<and> unat ?ps = RK_FTL_PAGE_SIZE \<and> k_alloc K A_ftl 0 \<noteq> None")
    case False
    then show ?thesis by (auto simp: rk_ftl_add_mtd_def)
  next
    case bound: True
    show ?thesis
    proof (cases "oob_buf ftl = None \<or> page_buf ftl = None")
      case True
      then show ?thesis using bound by (auto simp: add free_defs split: option.splits)
    next
      case False
      then obtain ob pb where bufs: "oob_buf ftl = Some ob" "page_buf ftl = Some pb" by auto
      then have pb: "length pb = RK_FTL_PAGE_SIZE"
        using assms bound by (auto simp: alloc_contract_def)
      let ?h = "A_page_buf # A_oob_buf # A_ftl # heap"
      obtain ret ftl' heap' where m: "rk_ftl_build_map K ftl ?h = Some (ret, ftl', heap')"
        "page_size ftl' = ?ps" "page_buf ftl' = Some pb" "oob_buf ftl' = Some ob"
        "ret = 0 \<longrightarrow> l2p ftl' = Some (replicate (unat (capacity ftl')) RK_FTL_PPA_INVALID)
           \<and> region_to_ppa ftl' \<noteq> None \<and> page_buf_lpn ftl' = 0xFFFFFFFF
           \<and> heap' = A_l2p # A_region_to_ppa # ?h"
        "ret \<noteq> 0 \<longrightarrow> l2p ftl' = None \<and> heap' = note_alloc A_region_to_ppa (region_to_ppa ftl') ?h"
        using build_map_holes [OF assms, of ftl ?h] bufs by (auto split: if_splits)
      have free: "ftl_err_free (ftl'\<lparr>ftl_mbd := mbd\<rparr>) heap' = Some heap"
        "rk_ftl_remove_dev (ftl'\<lparr>ftl_mbd := mbd\<rparr>) heap' = Some heap"
        "ftl_err_free ftl' heap' = Some heap" for mbd
        using m(3-6) by (cases "ret = 0"; auto simp: free_defs split: option.splits)+
      have "wf_ftl (ftl'\<lparr>ftl_mbd := mbd\<rparr>)" if "ret = 0" for mbd
        using m that pb bound by (simp add: wf_ftl_def)
      then show ?thesis
        using bound bufs m(1,5) free by (auto simp: add note_alloc_def RK_FTL_SPP_def)
    qed
  qed
qed

lemma readsect_hole:
  assumes "wf_ftl ftl" and "page_buf_lpn ftl = 0xFFFFFFFF"
    and "l2p ftl = Some (replicate (unat (capacity ftl)) RK_FTL_PPA_INVALID)"
  shows "\<exists>ftl'. rk_ftl_readsect K ftl block = Some (Inr (replicate 512 0), ftl')"
proof (cases "unat block div 16 < unat (capacity ftl)")
  case True
  obtain b where b: "page_buf ftl = Some b" "length b = 8192" "unat (page_size ftl) = 8192"
    using assms(1) by (rule wf_ftlE)
  show ?thesis
    using True b assms(2,3) lpn_not_sentinel [of block]
      slice_sector [of "replicate 8192 0", OF _ sec_lt] page_sector_zero [OF sec_lt]
    by (simp add: rk_ftl_readsect_def readsect_consts word_le_nat_alt block_lpn mem_simps eq_commute)
next
  case False
  then show ?thesis using readsect_beyond [of ftl block K] by auto
qed

section \<open>A small concrete device\<close>

text \<open>
  Two mapped logical pages: page 0 is readable, page 1 has an uncorrectable ECC error, for which the
  controller transfers the damaged bytes and reports \<open>-EBADMSG\<close>.
\<close>

definition demo_media :: "u64 \<Rightarrow> int + bytes" where
  "demo_media off = (if off = 0 then Inr (replicate 8192 0xAA)
     else if off = 8192 then Inl (- EBADMSG) else Inr (replicate 8192 0))"

definition demo_kernel :: mtd_kernel where
  "demo_kernel = \<lparr>
     k_mtd_read = (\<lambda>off n buf. case demo_media off of
        Inr d \<Rightarrow> (0, n, d) | Inl e \<Rightarrow> (e, 0, replicate (unat n) 0xBB)),
     k_mtd_read_oob = (\<lambda>off n buf. (0, replicate (unat n) 0xFF)),
     k_div_by_eb = (\<lambda>sz mtd. ucast (sz div ucast (mtd_erasesize mtd))),
     k_div_by_ws = (\<lambda>sz mtd. ucast (sz div ucast (mtd_writesize mtd))),
     k_alloc = (\<lambda>site n. Some (replicate n 0)),
     k_alloc32 = (\<lambda>site n. Some (replicate n 0)),
     k_add_blktrans = (\<lambda>mbd. 0)\<rparr>"

definition demo_mtd :: mtd_info where
  "demo_mtd = \<lparr>mtd_type = MTD_MLCNANDFLASH, mtd_writesize = 8192, mtd_erasesize = 2097152,
     mtd_size = 4194304, mtd_oobsize = 744, mtd_index = 0\<rparr>"

definition demo_ftl :: rk_ftl where
  "demo_ftl = (rk_ftl_zeroed demo_mtd)\<lparr>page_size := 8192, pages_per_block := 256, capacity := 2,
     l2p := Some [0, 1], page_buf := Some (replicate 8192 0), page_buf_lpn := 0xFFFFFFFF\<rparr>"

lemma demo_contract: "mtd_read_contract demo_kernel 8192 demo_media"
  by (auto simp: mtd_read_contract_def demo_kernel_def demo_media_def split: if_splits)

lemma demo_ftl_wf: "wf_ftl demo_ftl" "cache_ok media demo_ftl" "page_size demo_ftl = 8192"
  by (simp_all add: wf_ftl_def cache_ok_def demo_ftl_def page_size_8192)

lemma demo_linear: "rk_ftl_ppa_to_linear (demo_ftl\<lparr>capacity := c\<rparr>) 0 = 0"
  "rk_ftl_ppa_to_linear demo_ftl 0 = 0" "rk_ftl_ppa_to_linear demo_ftl 1 = 1"
  by (simp_all add: rk_ftl_ppa_to_linear_def demo_ftl_def RK_FTL_PPA_BLK_def RK_FTL_PPA_PAGE_def)

lemma demo_pages:
  "logical_page demo_ftl demo_media 0 = Inr (replicate 8192 0xAA)"
  "logical_page demo_ftl demo_media 1 = Inl (- EBADMSG)"
proof -
  have "media_page demo_ftl demo_media 0 = Inr (replicate 8192 0xAA)"
    "media_page demo_ftl demo_media 1 = Inl (- EBADMSG)"
    by (simp_all add: media_page_def demo_linear demo_ftl_wf demo_media_def)
  moreover have "capacity demo_ftl = 2" "l2p demo_ftl = Some [0, 1]"
    by (simp_all add: demo_ftl_def)
  ultimately show "logical_page demo_ftl demo_media 0 = Inr (replicate 8192 0xAA)"
    "logical_page demo_ftl demo_media 1 = Inl (- EBADMSG)"
    by (simp_all add: logical_page_def RK_FTL_PPA_INVALID_def)
qed

section \<open>Properties\<close>

text \<open>
  C1: \<open>rk_ftl_readsect\<close> is correct on every branch. On a well-formed device with a coherent cache it
  never leaves a buffer, returns exactly the 512 bytes of the requested sector of the logical space
  (zeros beyond the capacity and for unmapped pages) or the error of the page read, never changes
  what the device holds, and keeps the cache coherent whenever it succeeds.
\<close>

theorem readsect_functional:
  assumes "mtd_read_contract K (page_size ftl) media" and "wf_ftl ftl" and "cache_ok media ftl"
  shows "\<exists>ftl'. rk_ftl_readsect K ftl block = Some (sector_content media ftl block, ftl')
    \<and> wf_ftl ftl' \<and> sector_content media ftl' = sector_content media ftl
    \<and> ((\<exists>d. sector_content media ftl block = Inr d) \<longrightarrow> cache_ok media ftl')"
proof -
  consider (beyond) "unat (capacity ftl) \<le> unat block div 16"
    | (hit) "unat block div 16 < unat (capacity ftl)" "page_buf_lpn ftl = block div 16"
    | (miss) "unat block div 16 < unat (capacity ftl)" "page_buf_lpn ftl \<noteq> block div 16"
    by linarith
  then show ?thesis
  proof cases
    case beyond
    then show ?thesis using readsect_beyond [of ftl block K media] assms by auto
  next
    case hit
    then show ?thesis using readsect_hit [of ftl media block K] assms by fastforce
  next
    case miss
    show ?thesis
    proof (cases "logical_page ftl media (unat block div 16)")
      case (Inl e)
      then show ?thesis
        using readsect_miss_err [OF assms(1,2) miss Inl] assms(2) wf_ftl_buf
        by (auto simp: sector_content_def RK_FTL_SPP_def)
    next
      case (Inr p)
      then show ?thesis
        using readsect_miss_ok [OF assms(1,2) miss Inr] assms(2) wf_ftl_buf
        by (auto simp: sector_content_def RK_FTL_SPP_def cache_ok_def block_lpn)
    qed
  qed
qed

theorem readsect_functional_witness:
  "\<exists>ftl'. rk_ftl_readsect demo_kernel demo_ftl 3 = Some (Inr (replicate 512 0xAA), ftl')"
proof -
  have "sector_content demo_media demo_ftl 3 = Inr (replicate 512 0xAA)"
    by (simp add: sector_content_def RK_FTL_SPP_def demo_pages page_sector_def RK_FTL_SECT_SIZE_def)
  then show ?thesis
    using readsect_functional [of demo_kernel demo_ftl demo_media 3] demo_contract demo_ftl_wf
    by auto
qed

text \<open>
  C9: on a medium whose mapped pages are all readable, any sequence of sector reads, in any order,
  returns the contents of each requested sector: the one-page cache is transparent.
\<close>

theorem readsect_sequence:
  assumes "ftl_serving K media ftl"
  shows "\<exists>ftl'. read_seq (rk_ftl_readsect K) ftl blocks
      = Some (map (\<lambda>b. Inr (projr (sector_content media ftl b))) blocks, ftl')"
  using rk_sectors.read_seq_content [OF assms] by blast

theorem readsect_sequence_witness:
  "\<exists>ftl'. read_seq (rk_ftl_readsect demo_kernel) (demo_ftl\<lparr>capacity := 1, l2p := Some [0]\<rparr>) [3, 99]
     = Some ([Inr (replicate 512 0xAA), Inr (replicate 512 0)], ftl')"
proof -
  let ?f = "demo_ftl\<lparr>capacity := 1, l2p := Some [0]\<rparr>"
  have lin: "rk_ftl_ppa_to_linear ?f 0 = 0"
    by (simp add: rk_ftl_ppa_to_linear_def RK_FTL_PPA_BLK_def RK_FTL_PPA_PAGE_def)
  have p: "logical_page ?f demo_media 0 = Inr (replicate 8192 0xAA)"
    by (simp add: logical_page_def media_page_def lin RK_FTL_PPA_INVALID_def demo_media_def)
  have "ftl_serving demo_kernel demo_media ?f"
    using demo_contract p by (simp add: ftl_serving_def all_readable_def)
      (simp add: wf_ftl_def cache_ok_def demo_ftl_def page_size_8192)
  moreover have "sector_content demo_media ?f 3 = Inr (replicate 512 0xAA)"
    using p by (simp add: sector_content_def RK_FTL_SPP_def page_sector_def RK_FTL_SECT_SIZE_def)
  moreover have "sector_content demo_media ?f 99 = Inr (replicate 512 0)"
    by (simp add: sector_content_def RK_FTL_SPP_def page_sector_def RK_FTL_SECT_SIZE_def
        logical_page_def page_size_8192)
  ultimately show ?thesis
    using readsect_sequence [of demo_kernel demo_media ?f "[3, 99]"] by simp
qed




text \<open>
  As the source stands, with the map walk of \<open>rk_ftl_map_recovery\<close> and the overlay still to be
  written, every sector of every device the FTL registers reads as zeros: the registered block
  device never serves the vendor's logical space.
\<close>

theorem registered_device_reads_zero:
  assumes "alloc_contract K" and "rk_ftl_add_mtd K mtd heap = Some (Some ftl, heap')"
  shows "\<exists>ftl'. rk_ftl_readsect K ftl block = Some (Inr (replicate 512 0), ftl')"
proof (rule readsect_hole)
  note out = add_mtd_outcome [OF assms(1), of mtd heap] assms(2)
  then show "wf_ftl ftl" by auto
  from out show "page_buf_lpn ftl = 0xFFFFFFFF" by auto
  from out show "l2p ftl = Some (replicate (unat (capacity ftl)) RK_FTL_PPA_INVALID)" by auto
qed

lemma demo_binds: "\<exists>ftl heap'. rk_ftl_add_mtd demo_kernel demo_mtd [] = Some (Some ftl, heap')"
proof -
  have A: "alloc_contract demo_kernel" by (simp add: alloc_contract_def demo_kernel_def)
  let ?f = "(rk_ftl_zeroed demo_mtd)\<lparr>page_size := 8192, pages_per_block := 256,
      total_blocks := k_div_by_eb demo_kernel 4194304 demo_mtd,
      total_pages := ucast (k_div_by_ws demo_kernel 4194304 demo_mtd), page_buf_lpn := 0xFFFFFFFF,
      oob_buf := Some (replicate 744 0), page_buf := Some (replicate 8192 0)\<rparr>"
  have "fst (the (rk_ftl_build_map demo_kernel ?f heap)) = 0" for heap
    by (simp add: rk_ftl_build_map_def rk_ftl_scan_sysblk_def rk_ftl_load_sysinfo_def
        rk_ftl_map_recovery_def rk_ftl_overlay_open_def rk_ftl_expand_l2p_def Let_def
        region_fill_all mem_simps expand_regions_holes demo_kernel_def)
  moreover obtain ret g h where "rk_ftl_build_map demo_kernel ?f [A_page_buf, A_oob_buf, A_ftl] = Some (ret, g, h)"
    using build_map_holes [OF A] by blast
  ultimately have "rk_ftl_build_map demo_kernel ?f [A_page_buf, A_oob_buf, A_ftl] = Some (0, g, h)"
    by (metis fst_conv option.sel)
  then show ?thesis
    by (simp add: rk_ftl_add_mtd_def note_alloc_def page_size_8192 demo_kernel_def demo_mtd_def Let_def)
qed

theorem registered_device_reads_zero_witness:
  "\<exists>ftl heap' ftl'. rk_ftl_add_mtd demo_kernel demo_mtd [] = Some (Some ftl, heap')
     \<and> rk_ftl_readsect demo_kernel ftl 5 = Some (Inr (replicate 512 0), ftl')"
proof -
  have A: "alloc_contract demo_kernel" by (simp add: alloc_contract_def demo_kernel_def)
  obtain ftl heap' where b: "rk_ftl_add_mtd demo_kernel demo_mtd [] = Some (Some ftl, heap')"
    using demo_binds by blast
  from registered_device_reads_zero [OF A b, of 5] b show ?thesis by blast
qed

text \<open>Concrete instances of the format and map theorems on the same device.\<close>

theorem read_oob_decodes_witness:
  "let oob = \<lparr>oob_magic = 0xF095, oob_tag = 0x0373, oob_version = 0x036FEFFF, oob_lpn = 520006,
              oob_prev_ppa = 0x00038457\<rparr>;
       raw = oob_expose (oob_sys_words oob) [0, 0, 0, 0] (replicate 712 0);
       K = demo_kernel\<lparr>k_mtd_read_oob := (\<lambda>off n buf. (- EUCLEAN, raw))\<rparr>;
       ftl = demo_ftl\<lparr>oob_buf := Some (replicate 744 0)\<rparr>
   in rk_ftl_read_oob K ftl 8192 = Some (Inr oob, ftl\<lparr>oob_buf := Some raw\<rparr>)"
  unfolding Let_def by (rule read_oob_decodes [where ret = "- EUCLEAN" and b = "replicate 744 0"]) simp_all

theorem expand_l2p_correct_witness:
  "let ftl = demo_ftl\<lparr>capacity := 3, region_to_ppa := Some [0], num_regions := 1\<rparr>
   in \<exists>ftl' tbl. rk_ftl_expand_l2p demo_kernel ftl [] = Some (0, ftl', [A_l2p])
      \<and> l2p ftl' = Some tbl \<and> tbl ! 2 = 0xAAAAAAAA"
proof -
  let ?f = "demo_ftl\<lparr>capacity := 3, region_to_ppa := Some [0], num_regions := 1\<rparr>"
  have "rk_ftl_ppa_to_linear ?f 0 = 0"
    by (simp add: rk_ftl_ppa_to_linear_def RK_FTL_PPA_BLK_def RK_FTL_PPA_PAGE_def)
  then have "media_map_page ?f demo_media 0 = Some (replicate 8192 0xAA)"
    by (simp add: media_map_page_def media_page_def demo_media_def)
  then have "l2p_spec (media_map_page ?f demo_media) [0] 2 = 0xAAAAAAAA"
    by (simp add: l2p_spec_def entries_2048 RK_FTL_PPA_INVALID_def le32_at_def mem_get_def le32_def)
  moreover have "\<exists>ftl' tbl. rk_ftl_expand_l2p demo_kernel ?f [] = Some (0, ftl', A_l2p # [])
    \<and> l2p ftl' = Some tbl \<and> length tbl = unat (capacity ftl')
    \<and> capacity ftl' = capacity ?f \<and> page_buf_lpn ftl' = 0xFFFFFFFF
    \<and> (\<forall>lpn < unat (capacity ?f). tbl ! lpn = l2p_spec (media_map_page ?f demo_media) [0] lpn)"
    by (rule expand_l2p_correct [where b = "replicate 8192 0" and mem = "replicate 3 0"])
       (use demo_contract in \<open>simp_all add: demo_ftl_def demo_kernel_def\<close>)
  ultimately show ?thesis by (auto simp: Let_def)
qed

end
