(* ===== verification/Nand_Base.thy ===== *)
theory Nand_Base
  imports Rk_Prelude
begin

text \<open>
  \<open>rknand-port/rk_nand_base.c\<close>: the platform glue between the kernel and the closed FTL blob.
  Probing, completion interrupts and the waits on them, the WP\# guard in front of every program
  DMA, and the misc devices. Pointers are 32-bit words with 0 as NULL and the last 4095 values as
  error pointers. Kernel services are parameters; what they did is recorded in the state.
\<close>

type_synonym ptr = "32 word"

definition is_err :: "ptr \<Rightarrow> bool" where
  "is_err p \<longleftrightarrow> p \<ge> 0xFFFFF001"

definition ptr_err :: "ptr \<Rightarrow> int" where
  "ptr_err p = sint p"

section \<open>State\<close>

record rk_nandc_info =
  nandc_id :: int
  nandc_reg_base :: ptr
  nandc_irq :: int
  nandc_clk_rate :: int
  nandc_clk :: ptr
  nandc_hclk :: ptr
  nandc_gclk :: ptr

text \<open>
  What the kernel and the hardware did on behalf of the driver: interrupt handlers currently
  installed (line and cookie), clocks enabled, the run-time PM references and the calls into the blob.
\<close>

datatype base_event =
    Ev_xfer_completed ptr
  | Ev_flash_ready ptr
  | Ev_wake_up
  | Ev_clk_enable ptr
  | Ev_pm_get
  | Ev_pm_put
  | Ev_wp_warning u32

text \<open>The two misc devices, named \<open>rknand_sys_storage\<close> and \<open>vendor_storage\<close> in \<open>/dev\<close>.\<close>

datatype misc_dev = Misc_sys_storage | Misc_vendor_storage

record nand_base =
  g_nandc_info :: "rk_nandc_info list"
  nand_idb_data :: bytes
  rk_nand_wait_busy_schedule :: int
  rknand_boot_media :: int
  nandc0_xfer_completed_flag :: bool
  nandc0_ready_completed_flag :: bool
  nandc1_xfer_completed_flag :: bool
  nandc1_ready_completed_flag :: bool
  rknand_sys_storage_registered :: bool
  rknand_vender_storage_registered :: bool
  wp_logged :: bool
  mmio :: "ptr \<Rightarrow> u32"
  irq_actions :: "(int \<times> ptr) list"
  misc_devices :: "misc_dev list"
  base_events :: "base_event list"

definition nandc_zero :: rk_nandc_info where
  "nandc_zero = \<lparr>nandc_id = 0, nandc_reg_base = 0, nandc_irq = 0, nandc_clk_rate = 0,
     nandc_clk = 0, nandc_hclk = 0, nandc_gclk = 0\<rparr>"

text \<open>The static state of a freshly loaded module.\<close>

definition nand_base_init :: "(ptr \<Rightarrow> u32) \<Rightarrow> nand_base" where
  "nand_base_init regs =
     \<lparr>g_nandc_info = [nandc_zero, nandc_zero], nand_idb_data = replicate 2048 0,
      rk_nand_wait_busy_schedule = 0, rknand_boot_media = 2,
      nandc0_xfer_completed_flag = False, nandc0_ready_completed_flag = False,
      nandc1_xfer_completed_flag = False, nandc1_ready_completed_flag = False,
      rknand_sys_storage_registered = False, rknand_vender_storage_registered = False,
      wp_logged = False, mmio = regs, irq_actions = [], misc_devices = [], base_events = []\<rparr>"

definition reg_base0 :: "nand_base \<Rightarrow> ptr" where
  "reg_base0 s = nandc_reg_base (g_nandc_info s ! 0)"

definition reg_base1 :: "nand_base \<Rightarrow> ptr" where
  "reg_base1 s = nandc_reg_base (g_nandc_info s ! 1)"

definition log_base :: "base_event list \<Rightarrow> nand_base \<Rightarrow> nand_base" where
  "log_base es s = s\<lparr>base_events := base_events s @ es\<rparr>"

section \<open>Small services\<close>

definition rknand_get_clk_rate :: "nand_base \<Rightarrow> nat \<Rightarrow> int option" where
  "rknand_get_clk_rate s nid = map_option nandc_clk_rate (mem_get (g_nandc_info s) nid)"

definition rknand_flash_cs_init :: "int \<Rightarrow> int" where
  "rknand_flash_cs_init nid = 0"

definition rknand_get_reg_addr :: "nand_base \<Rightarrow> ptr \<times> ptr" where
  "rknand_get_reg_addr s = (reg_base0 s, reg_base1 s)"

definition rknand_get_boot_media :: "nand_base \<Rightarrow> int" where
  "rknand_get_boot_media s = rknand_boot_media s"

definition rk_nand_schedule_enable_config :: "int \<Rightarrow> nand_base \<Rightarrow> int \<times> nand_base" where
  "rk_nand_schedule_enable_config en s =
     (rk_nand_wait_busy_schedule s, s\<lparr>rk_nand_wait_busy_schedule := en\<rparr>)"

section \<open>Write protection and DMA mapping\<close>

definition RKNAND_V6_FMCTL :: ptr where "RKNAND_V6_FMCTL = 0"
definition RKNAND_V6_FMCTL_WP :: u32 where "RKNAND_V6_FMCTL_WP = push_bit 8 1"

definition rknand_force_wp_deasserted :: "nand_base \<Rightarrow> nand_base" where
  "rknand_force_wp_deasserted s =
     (let base = reg_base0 s in
      if base = 0 then s
      else let fmctl = mmio s (base + RKNAND_V6_FMCTL) in
        if fmctl AND RKNAND_V6_FMCTL_WP = 0 then
          let s = s\<lparr>mmio := (mmio s)(base + RKNAND_V6_FMCTL := fmctl OR RKNAND_V6_FMCTL_WP)\<rparr>
          in if \<not> wp_logged s then log_base [Ev_wp_warning fmctl] (s\<lparr>wp_logged := True\<rparr>) else s
        else s)"

datatype dma_dir = DMA_TO_DEVICE | DMA_FROM_DEVICE

text \<open>
  \<open>dma_map_single\<close> is a kernel service: \<open>dma_map ptr sz dir\<close> is the bus address it returns. The
  function returns that address also when the mapping failed; a failure is only printed.
\<close>

definition rknand_dma_map_single ::
  "(ptr \<Rightarrow> int \<Rightarrow> dma_dir \<Rightarrow> ptr) \<Rightarrow> ptr \<Rightarrow> int \<Rightarrow> int \<Rightarrow> nand_base \<Rightarrow> ptr \<times> nand_base" where
  "rknand_dma_map_single dma_map p sz dir s =
     (let s = (if dir \<noteq> 0 then rknand_force_wp_deasserted s else s)
      in (dma_map p sz (if dir \<noteq> 0 then DMA_TO_DEVICE else DMA_FROM_DEVICE), s))"

section \<open>Misc devices\<close>

text \<open>\<open>err\<close> is what \<open>misc_register\<close> returns; on success the device is on the kernel's list.\<close>

definition rknand_sys_storage_init :: "int \<Rightarrow> nand_base \<Rightarrow> int \<times> nand_base" where
  "rknand_sys_storage_init err s =
     (if err = 0
      then (0, s\<lparr>misc_devices := Misc_sys_storage # misc_devices s,
                 rknand_sys_storage_registered := True\<rparr>)
      else (err, s))"

definition rknand_vendor_storage_init :: "int \<Rightarrow> nand_base \<Rightarrow> int \<times> nand_base" where
  "rknand_vendor_storage_init err s =
     (if err = 0
      then (0, s\<lparr>misc_devices := Misc_vendor_storage # misc_devices s,
                 rknand_vender_storage_registered := True\<rparr>)
      else (err, s))"

definition rknand_misc_deinit :: "nand_base \<Rightarrow> nand_base" where
  "rknand_misc_deinit s =
     (let s = (if rknand_sys_storage_registered s
               then s\<lparr>misc_devices := removeAll Misc_sys_storage (misc_devices s),
                      rknand_sys_storage_registered := False\<rparr> else s)
      in if rknand_vender_storage_registered s
         then s\<lparr>misc_devices := removeAll Misc_vendor_storage (misc_devices s),
                rknand_vender_storage_registered := False\<rparr> else s)"

section \<open>Completion interrupts\<close>

definition set_xfer_flag :: "ptr \<Rightarrow> bool \<Rightarrow> nand_base \<Rightarrow> nand_base" where
  "set_xfer_flag reg v s =
     (if reg = reg_base0 s then s\<lparr>nandc0_xfer_completed_flag := v\<rparr>
      else s\<lparr>nandc1_xfer_completed_flag := v\<rparr>)"

definition set_ready_flag :: "ptr \<Rightarrow> bool \<Rightarrow> nand_base \<Rightarrow> nand_base" where
  "set_ready_flag reg v s =
     (if reg = reg_base0 s then s\<lparr>nandc0_ready_completed_flag := v\<rparr>
      else s\<lparr>nandc1_ready_completed_flag := v\<rparr>)"

text \<open>\<open>irq_status\<close> is what the blob's \<open>rk_nandc_get_irq_status\<close> reads for the controller.\<close>

definition rk_nandc_interrupt :: "u32 \<Rightarrow> ptr \<Rightarrow> nand_base \<Rightarrow> nand_base" where
  "rk_nandc_interrupt irq_status dev_id s =
     (let s = (if irq_status AND push_bit 0 1 \<noteq> 0
               then set_xfer_flag dev_id True (log_base [Ev_xfer_completed dev_id] s) else s);
          s = (if irq_status AND push_bit 1 1 \<noteq> 0
               then set_ready_flag dev_id True (log_base [Ev_flash_ready dev_id] s) else s)
      in log_base [Ev_wake_up] s)"

definition rk_nandc_xfer_irq_flag_init :: "ptr \<Rightarrow> nand_base \<Rightarrow> nand_base" where
  "rk_nandc_xfer_irq_flag_init reg s = set_xfer_flag reg False s"

definition rk_nandc_rb_irq_flag_init :: "ptr \<Rightarrow> nand_base \<Rightarrow> nand_base" where
  "rk_nandc_rb_irq_flag_init reg s = set_ready_flag reg False s"

text \<open>
  The wait loop \<open>while (!wait_event_timeout(...))\<close>: \<open>flag k\<close> is the value of the completion flag
  the \<open>k\<close>-th time the condition is evaluated (on a wake-up or after the one-jiffy timeout). The
  result counts the evaluations; \<open>None\<close> is a wait that never ends.
\<close>

partial_function (option) wait_completed :: "(nat \<Rightarrow> bool) \<Rightarrow> nat \<Rightarrow> nat option" where
  "wait_completed flag k = (if flag k then Some k else wait_completed flag (Suc k))"

definition wait_for_nandc_xfer_completed ::
  "(nat \<Rightarrow> bool) \<Rightarrow> ptr \<Rightarrow> nand_base \<Rightarrow> nand_base option" where
  "wait_for_nandc_xfer_completed flag reg s =
     (if rk_nand_wait_busy_schedule s \<noteq> 0
      then map_option (\<lambda>_. set_xfer_flag reg False s) (wait_completed flag 0)
      else Some (set_xfer_flag reg False s))"

definition wait_for_nand_flash_ready ::
  "(nat \<Rightarrow> bool) \<Rightarrow> ptr \<Rightarrow> nand_base \<Rightarrow> nand_base option" where
  "wait_for_nand_flash_ready flag reg s =
     (if rk_nand_wait_busy_schedule s \<noteq> 0
      then map_option (\<lambda>_. set_ready_flag reg False s) (wait_completed flag 0)
      else Some (set_ready_flag reg False s))"

section \<open>Interrupt lines\<close>

text \<open>
  \<open>request_irq(irq, h, 0, name, dev)\<close> returns \<open>req irq dev\<close> and, on 0, installs the handler with
  cookie \<open>dev\<close>; \<open>free_irq(irq, dev)\<close> removes the handler installed with that same cookie and warns,
  changing nothing, when there is none.
\<close>

definition rk_nandc_irq_config ::
  "(int \<Rightarrow> ptr \<Rightarrow> int) \<Rightarrow> nat \<Rightarrow> int \<Rightarrow> nand_base \<Rightarrow> int \<times> nand_base" where
  "rk_nandc_irq_config req nid mode s =
     (let irq = nandc_irq (g_nandc_info s ! nid); dev = nandc_reg_base (g_nandc_info s ! nid)
      in if mode \<noteq> 0
         then (let ret = req irq dev
               in (ret, if ret = 0 then s\<lparr>irq_actions := (irq, dev) # irq_actions s\<rparr> else s))
         else (0, s\<lparr>irq_actions := removeAll (irq, 0) (irq_actions s)\<rparr>))"

definition rk_nandc_irq_init :: "(int \<Rightarrow> ptr \<Rightarrow> int) \<Rightarrow> nand_base \<Rightarrow> int \<times> nand_base" where
  "rk_nandc_irq_init req s =
     (let s = s\<lparr>nandc0_ready_completed_flag := False, nandc0_xfer_completed_flag := False\<rparr>;
          (ret, s) = rk_nandc_irq_config req 0 1 s
      in if reg_base1 s = 0
         then (ret, snd (rk_nandc_irq_config req 1 1
                (s\<lparr>nandc1_ready_completed_flag := False, nandc1_xfer_completed_flag := False\<rparr>)))
         else (ret, s))"

definition rk_nandc_irq_deinit :: "(int \<Rightarrow> ptr \<Rightarrow> int) \<Rightarrow> nand_base \<Rightarrow> int \<times> nand_base" where
  "rk_nandc_irq_deinit req s =
     (let s = snd (rk_nandc_irq_config req 0 0 s)
      in if reg_base1 s = 0 then (0, snd (rk_nandc_irq_config req 1 0 s)) else (0, s))"

section \<open>Probe\<close>

text \<open>
  The answers of the platform: the pointer \<open>devm_ioremap_resource\<close> returns (an error pointer on
  failure, by its documentation), the optional device-tree \<open>nandc_id\<close>, the boot ROM's identity
  block in controller SRAM, the interrupt, the three clocks, the rate and \<open>dma_set_mask\<close>.
\<close>

record probe_env =
  pe_membase :: ptr
  pe_nandc_id :: "u32 option"
  pe_idb :: bytes
  pe_irq :: int
  pe_hclk :: ptr
  pe_clk :: ptr
  pe_gclk :: ptr
  pe_clk_rate :: int
  pe_dma_mask :: int

definition probe_boot_media :: "probe_env \<Rightarrow> nand_base \<Rightarrow> (int option \<times> nand_base) option" where
  "probe_boot_media E s = do {
     data \<leftarrow> (if is_err (pe_membase E) then None else mem_slice (pe_idb E) 0 0x800);
     let s = s\<lparr>nand_idb_data := data\<rparr>;
     tag \<leftarrow> le32_at data 0;
     media \<leftarrow> le32_at data 8;
     if tag = 0x44535953 then
       let s = s\<lparr>rknand_boot_media := sint media\<rparr>
       in Some (if rknand_boot_media s = 2 then Some (- 1) else None, s)
     else Some (None, s) }"

definition probe_controller :: "probe_env \<Rightarrow> nat \<Rightarrow> nand_base \<Rightarrow> (int \<times> nand_base) option" where
  "probe_controller E nid s = do {
     if pe_irq E < 0 then Some (pe_irq E, s)
     else do {
       info \<leftarrow> mem_get (g_nandc_info s) nid;
       let info = info\<lparr>nandc_id := int nid, nandc_irq := pe_irq E, nandc_reg_base := pe_membase E,
                       nandc_hclk := pe_hclk E, nandc_clk := pe_clk E, nandc_gclk := pe_gclk E\<rparr>;
       let s = s\<lparr>g_nandc_info := (g_nandc_info s)[nid := info]\<rparr>;
       if is_err (pe_hclk E) then Some (ptr_err (pe_hclk E), s)
       else do {
         let s = (if \<not> is_err (pe_clk E)
                  then log_base [Ev_clk_enable (pe_clk E)]
                         (s\<lparr>g_nandc_info := (g_nandc_info s)[nid := info\<lparr>nandc_clk_rate := pe_clk_rate E\<rparr>]\<rparr>)
                  else s);
         let s = log_base [Ev_clk_enable (pe_hclk E)] s;
         let s = (if \<not> is_err (pe_gclk E) then log_base [Ev_clk_enable (pe_gclk E)] s else s);
         let s = log_base [Ev_pm_get] s;
         Some (pe_dma_mask E, s) } } }"

definition rknand_probe :: "probe_env \<Rightarrow> nand_base \<Rightarrow> (int \<times> nand_base) option" where
  "rknand_probe E s =
     (if pe_membase E = 0 then Some (- 1, s)
      else let nid = (case pe_nandc_id E of None \<Rightarrow> 0 | Some i \<Rightarrow> unat i) in
        if nid = 0 then do {
          (stop, s) \<leftarrow> probe_boot_media E s;
          case stop of Some r \<Rightarrow> Some (r, s) | None \<Rightarrow> probe_controller E nid s }
        else probe_controller E nid s)"

section \<open>Invariant of the glue state\<close>

fun is_wp_warning :: "base_event \<Rightarrow> bool" where
  "is_wp_warning (Ev_wp_warning _) = True"
| "is_wp_warning _ = False"

definition wp_warnings :: "nand_base \<Rightarrow> nat" where
  "wp_warnings s = length (filter is_wp_warning (base_events s))"

text \<open>
  Two controllers; the registration flags of the misc devices mirror the kernel's list of
  registered devices; the write-protect warning was printed exactly when it is marked as printed.
\<close>

definition base_inv :: "nand_base \<Rightarrow> bool" where
  "base_inv s \<longleftrightarrow> length (g_nandc_info s) = 2
     \<and> (rknand_sys_storage_registered s \<longleftrightarrow> Misc_sys_storage \<in> set (misc_devices s))
     \<and> (rknand_vender_storage_registered s \<longleftrightarrow> Misc_vendor_storage \<in> set (misc_devices s))
     \<and> wp_warnings s = (if wp_logged s then 1 else 0)"

inductive base_step :: "nand_base \<Rightarrow> nand_base \<Rightarrow> bool" where
  step_irq: "base_step s (rk_nandc_interrupt status dev s)"
| step_xfer_init: "base_step s (rk_nandc_xfer_irq_flag_init reg s)"
| step_rb_init: "base_step s (rk_nandc_rb_irq_flag_init reg s)"
| step_wait_xfer: "wait_for_nandc_xfer_completed flag reg s = Some s' \<Longrightarrow> base_step s s'"
| step_wait_ready: "wait_for_nand_flash_ready flag reg s = Some s' \<Longrightarrow> base_step s s'"
| step_dma: "base_step s (snd (rknand_dma_map_single dma_map p sz dir s))"
| step_sched: "base_step s (snd (rk_nand_schedule_enable_config en s))"
| step_sys: "base_step s (snd (rknand_sys_storage_init err s))"
| step_vendor: "base_step s (snd (rknand_vendor_storage_init err s))"
| step_deinit: "base_step s (rknand_misc_deinit s)"
| step_irq_init: "base_step s (snd (rk_nandc_irq_init req s))"
| step_irq_deinit: "base_step s (snd (rk_nandc_irq_deinit req s))"
| step_probe: "rknand_probe E s = Some (ret, s') \<Longrightarrow> base_step s s'"

section \<open>Lemmas\<close>

lemma base_inv_init: "base_inv (nand_base_init regs)"
  by (simp add: base_inv_def nand_base_init_def wp_warnings_def)

lemma base_inv_flags [simp]:
  "base_inv (set_xfer_flag reg v s) = base_inv s" "base_inv (set_ready_flag reg v s) = base_inv s"
  by (simp_all add: set_xfer_flag_def set_ready_flag_def base_inv_def wp_warnings_def)

lemma base_inv_log [simp]:
  "base_inv (log_base [Ev_wake_up] s) = base_inv s"
  "base_inv (log_base [Ev_xfer_completed r] s) = base_inv s"
  "base_inv (log_base [Ev_flash_ready r] s) = base_inv s"
  "base_inv (log_base [Ev_clk_enable c] s) = base_inv s"
  "base_inv (log_base [Ev_pm_get] s) = base_inv s"
  by (simp_all add: log_base_def base_inv_def wp_warnings_def)

lemma base_inv_wp: "base_inv s \<Longrightarrow> base_inv (rknand_force_wp_deasserted s)"
  by (auto simp: rknand_force_wp_deasserted_def Let_def log_base_def base_inv_def wp_warnings_def
      split: if_splits)

lemma base_inv_misc:
  "base_inv s \<Longrightarrow> base_inv (snd (rknand_sys_storage_init err s))"
  "base_inv s \<Longrightarrow> base_inv (snd (rknand_vendor_storage_init err s))"
  "base_inv s \<Longrightarrow> base_inv (rknand_misc_deinit s)"
  by (auto simp: rknand_sys_storage_init_def rknand_vendor_storage_init_def rknand_misc_deinit_def
      Let_def base_inv_def wp_warnings_def)

lemma base_inv_frame:
  "base_inv (s\<lparr>irq_actions := a\<rparr>) = base_inv s"
  "base_inv (s\<lparr>nandc0_ready_completed_flag := b, nandc0_xfer_completed_flag := c\<rparr>) = base_inv s"
  "base_inv (s\<lparr>nandc1_ready_completed_flag := b, nandc1_xfer_completed_flag := c\<rparr>) = base_inv s"
  "base_inv (s\<lparr>rk_nand_wait_busy_schedule := n\<rparr>) = base_inv s"
  by (simp_all add: base_inv_def wp_warnings_def)

lemma base_inv_irq_config: "base_inv (snd (rk_nandc_irq_config req nid mode s)) = base_inv s"
  by (simp add: rk_nandc_irq_config_def Let_def base_inv_frame)

lemma base_inv_irq:
  "base_inv (snd (rk_nandc_irq_init req s)) = base_inv s"
  "base_inv (snd (rk_nandc_irq_deinit req s)) = base_inv s"
  by (simp_all add: rk_nandc_irq_init_def rk_nandc_irq_deinit_def Let_def split_beta
      base_inv_irq_config base_inv_frame)

lemma base_inv_probe:
  assumes "base_inv s" and "rknand_probe E s = Some (ret, s')"
  shows "base_inv s'"
proof -
  have upd: "base_inv (t\<lparr>g_nandc_info := (g_nandc_info t)[n := i]\<rparr>) = base_inv t"
    "base_inv (t\<lparr>g_nandc_info := (g_nandc_info t)[n := i, m := j]\<rparr>) = base_inv t" for t n i m j
    by (simp_all add: base_inv_def wp_warnings_def)
  have ctl: "base_inv t'" if "probe_controller E nid t = Some (r, t')" "base_inv t" for nid t r t'
    using that by (auto simp: probe_controller_def Let_def upd split: if_splits Option.bind_splits)
  have boot: "base_inv t'" if "probe_boot_media E t = Some (r, t')" "base_inv t" for t r t'
    using that by (auto simp: probe_boot_media_def Let_def base_inv_def wp_warnings_def
        split: if_splits Option.bind_splits)
  show ?thesis
    using assms ctl boot
    by (auto simp: rknand_probe_def Let_def split: if_splits Option.bind_splits option.splits)
qed

lemma base_step_inv: "base_inv s \<Longrightarrow> base_step s t \<Longrightarrow> base_inv t"
  by (erule base_step.cases)
     (auto simp: rk_nandc_interrupt_def rk_nandc_xfer_irq_flag_init_def rk_nandc_rb_irq_flag_init_def
       wait_for_nandc_xfer_completed_def wait_for_nand_flash_ready_def rknand_dma_map_single_def
       rk_nand_schedule_enable_config_def Let_def base_inv_frame base_inv_irq
       intro: base_inv_wp base_inv_misc base_inv_probe split: if_splits)

interpretation glue: invariant_system "\<lambda>s. \<exists>regs. s = nand_base_init regs" base_step base_inv
  by unfold_locales (auto simp: base_inv_init intro: base_step_inv)

lemma wait_completed_first:
  assumes "flag (k + n)"
  shows "\<exists>m \<le> n. wait_completed flag k = Some (k + m) \<and> flag (k + m) \<and> (\<forall>j < m. \<not> flag (k + j))"
  using assms
proof (induction n arbitrary: k)
  case 0
  then show ?case by (simp add: wait_completed.simps)
next
  case (Suc n)
  show ?case
  proof (cases "flag k")
    case True
    then show ?thesis by (intro exI [of _ 0]) (simp add: wait_completed.simps)
  next
    case False
    have "flag (Suc k + n)" using Suc.prems by simp
    from Suc.IH [OF this] obtain m where m: "m \<le> n" "wait_completed flag (Suc k) = Some (Suc k + m)"
      "flag (Suc k + m)" "\<forall>j < m. \<not> flag (Suc k + j)" by blast
    have "\<not> flag (k + j)" if "j < Suc m" for j
      using m(4) False that by (cases j) auto
    with m False show ?thesis
      by (intro exI [of _ "Suc m"]) (auto simp: wait_completed.simps [of flag k])
  qed
qed

lemma wait_completed_sound:
  assumes ret: "wait_completed flag k = Some r"
  shows "flag r"
proof (rule wait_completed.raw_induct [where P = "\<lambda>flag k r. flag r", OF _ ret])
  fix w flag k r
  assume IH: "\<And>flag k r. w flag k = Some r \<Longrightarrow> flag r"
    and eq: "(if flag k then Some k else w flag (Suc k)) = Some r"
  show "flag r"
  proof (cases "flag k")
    case True
    with eq show ?thesis by simp
  next
    case False
    with eq have "w flag (Suc k) = Some r" by simp
    then show ?thesis by (rule IH)
  qed
qed

lemma wait_completed_diverges: "(\<And>k. \<not> flag k) \<Longrightarrow> wait_completed flag k = None"
  using wait_completed_sound by (metis option.exhaust)

lemma bit_fmctl_wp: "bit RKNAND_V6_FMCTL_WP n \<longleftrightarrow> n = 8"
  unfolding RKNAND_V6_FMCTL_WP_def bit_push_bit_iff bit_1_iff by auto

lemma fmctl_wp_set: "x AND RKNAND_V6_FMCTL_WP \<noteq> 0 \<Longrightarrow> x OR RKNAND_V6_FMCTL_WP = x"
proof -
  assume "x AND RKNAND_V6_FMCTL_WP \<noteq> 0"
  then obtain n where "bit (x AND RKNAND_V6_FMCTL_WP) n"
    using bit_eq_iff [of "x AND RKNAND_V6_FMCTL_WP" 0] by auto
  then have "bit x 8" by (auto simp: bit_and_iff bit_fmctl_wp)
  then show ?thesis by (auto intro!: bit_word_eqI simp: bit_or_iff bit_fmctl_wp)
qed

section \<open>Properties\<close>

text \<open>
  C31: every program DMA leaves the flash writable. Mapping a buffer towards the device, with the
  controller mapped, ends with the WP\# bit of FMCTL set and every other bit of FMCTL and every
  other register unchanged.
\<close>

theorem dma_map_deasserts_wp:
  assumes "dir \<noteq> 0" and "reg_base0 s \<noteq> 0"
  shows "let s' = snd (rknand_dma_map_single dma_map p sz dir s); r = reg_base0 s
    in bit (mmio s' r) 8 \<and> (\<forall>n. n \<noteq> 8 \<longrightarrow> bit (mmio s' r) n = bit (mmio s r) n)
       \<and> (\<forall>q. q \<noteq> r \<longrightarrow> mmio s' q = mmio s q)"
proof -
  let ?r = "reg_base0 s"
  have "mmio (rknand_force_wp_deasserted s) = (mmio s)(?r := mmio s ?r OR RKNAND_V6_FMCTL_WP)"
    using assms(2) fmctl_wp_set [of "mmio s ?r"]
    by (auto simp: rknand_force_wp_deasserted_def Let_def log_base_def RKNAND_V6_FMCTL_def)
  then show ?thesis
    using assms(1) by (simp add: rknand_dma_map_single_def Let_def bit_or_iff bit_fmctl_wp)
qed

definition demo_base :: nand_base where
  "demo_base = (nand_base_init (\<lambda>_. 0))
     \<lparr>g_nandc_info := [nandc_zero\<lparr>nandc_reg_base := 0xF0030000, nandc_irq := 47\<rparr>, nandc_zero]\<rparr>"

lemma demo_base_regs: "reg_base0 demo_base = 0xF0030000" "reg_base1 demo_base = 0"
  by (simp_all add: demo_base_def reg_base0_def reg_base1_def nandc_zero_def)

theorem dma_map_deasserts_wp_witness:
  "bit (mmio (snd (rknand_dma_map_single (\<lambda>p n d. p) 64 512 1 demo_base)) 0xF0030000) 8"
  using dma_map_deasserts_wp [of 1 demo_base "\<lambda>p n d. p" 64 512] by (simp add: demo_base_regs Let_def)





text \<open>
  \<open>rk_nandc_irq_deinit\<close> does not remove the handler \<open>rk_nandc_irq_init\<close> installed for the
  mapped controller: the handler is installed with the register base as its cookie and freed with
  a NULL cookie.
\<close>

theorem irq_deinit_leaves_handler:
  assumes "req (nandc_irq (g_nandc_info s ! 0)) (reg_base0 s) = 0" and "reg_base0 s \<noteq> 0"
  shows "(nandc_irq (g_nandc_info s ! 0), reg_base0 s)
    \<in> set (irq_actions (snd (rk_nandc_irq_deinit req (snd (rk_nandc_irq_init req s)))))"
  using assms
  by (auto simp: rk_nandc_irq_deinit_def rk_nandc_irq_init_def rk_nandc_irq_config_def Let_def
      reg_base0_def reg_base1_def)

theorem irq_deinit_leaves_handler_witness:
  "(47, 0xF0030000) \<in> set (irq_actions (snd (rk_nandc_irq_deinit (\<lambda>i d. 0)
      (snd (rk_nandc_irq_init (\<lambda>i d. 0) demo_base)))))"
  using irq_deinit_leaves_handler [of "\<lambda>i d. 0" demo_base]
  by (simp add: demo_base_regs) (simp add: demo_base_def nandc_zero_def)

text \<open>
  What a probe of controller 0 publishes. It never publishes a register base when it stops
  early (no mapping, booted from eMMC, no interrupt), and when it gets its bus clock it publishes
  mapping, interrupt and clocks, enables the clocks and takes one run-time PM reference. But a
  failure to get the bus clock is reported after the mapping was already published: the probe
  returns the error while the register base stays set, although the driver core then unmaps it.
\<close>

theorem probe_publishes:
  assumes "base_inv s" and "pe_nandc_id E = None" and "rknand_probe E s = Some (ret, s')"
  shows "reg_base0 s' = (if pe_membase E = 0 \<or> pe_irq E < 0
             \<or> (le32_at (nand_idb_data s') 0 = Some 0x44535953 \<and> rknand_boot_media s' = 2)
           then reg_base0 s else pe_membase E)
    \<and> (reg_base0 s' \<noteq> reg_base0 s \<and> is_err (pe_hclk E) \<longrightarrow>
         ret = ptr_err (pe_hclk E) \<and> base_events s' = base_events s)
    \<and> (reg_base0 s' \<noteq> reg_base0 s \<and> \<not> is_err (pe_hclk E) \<longrightarrow>
         ret = pe_dma_mask E \<and> base_events s' = base_events s
           @ (if is_err (pe_clk E) then [] else [Ev_clk_enable (pe_clk E)])
           @ [Ev_clk_enable (pe_hclk E)]
           @ (if is_err (pe_gclk E) then [] else [Ev_clk_enable (pe_gclk E)]) @ [Ev_pm_get])"
proof (cases "pe_membase E = 0")
  case True
  then show ?thesis using assms by (auto simp: rknand_probe_def)
next
  case False
  have len: "length (g_nandc_info s) = 2" using assms(1) by (simp add: base_inv_def)
  show ?thesis
    using assms(2,3) False len
    by (auto simp: rknand_probe_def probe_boot_media_def probe_controller_def Let_def log_base_def
        reg_base0_def mem_get_def split: if_splits Option.bind_splits)
qed

definition demo_probe :: probe_env where
  "demo_probe = \<lparr>pe_membase = 0xF0030000, pe_nandc_id = None, pe_idb = replicate 2048 0, pe_irq = 47,
     pe_hclk = - 2, pe_clk = 0x1000, pe_gclk = 0x2000, pe_clk_rate = 150000000, pe_dma_mask = 0\<rparr>"

theorem probe_publishes_witness:
  "\<exists>s'. rknand_probe demo_probe (nand_base_init (\<lambda>_. 0)) = Some (- 2, s') \<and> reg_base0 s' = 0xF0030000"
proof -
  let ?s = "nand_base_init (\<lambda>_. 0)"
  obtain ret s' where p: "rknand_probe demo_probe ?s = Some (ret, s')"
    by (simp add: rknand_probe_def probe_boot_media_def probe_controller_def demo_probe_def is_err_def
        nand_base_init_def mem_simps le32_at_def mem_get_def le32_def word_le_nat_alt)
  have z: "reg_base0 ?s = 0" by (simp add: reg_base0_def nand_base_init_def nandc_zero_def)
  have "nand_idb_data s' = replicate 2048 0"
    using p by (auto simp: rknand_probe_def probe_boot_media_def probe_controller_def Let_def
        demo_probe_def log_base_def mem_slice_def split: if_splits Option.bind_splits)
  then have "le32_at (nand_idb_data s') 0 \<noteq> Some 0x44535953"
    by (simp add: le32_at_def mem_get_def le32_def)
  moreover have "is_err (pe_hclk demo_probe)" "ptr_err (pe_hclk demo_probe) = - 2"
    by (simp_all add: demo_probe_def is_err_def ptr_err_def word_le_nat_alt)
  ultimately show ?thesis
    using probe_publishes [OF base_inv_init _ p] z p by (auto simp: demo_probe_def)
qed

text \<open>
  A failed register mapping is not detected. \<open>devm_ioremap_resource\<close> reports failure with an
  error pointer, the probe only tests for NULL and goes on to copy the identity block through the
  error pointer.
\<close>

theorem probe_ioremap_error_faults:
  assumes "is_err (pe_membase E)" and "pe_nandc_id E = None"
  shows "rknand_probe E s = None"
  using assms by (auto simp: rknand_probe_def probe_boot_media_def is_err_def)

theorem probe_ioremap_error_faults_witness:
  "rknand_probe (demo_probe\<lparr>pe_membase := - 12\<rparr>) (nand_base_init (\<lambda>_. 0)) = None"
  by (rule probe_ioremap_error_faults) (simp_all add: is_err_def demo_probe_def word_le_nat_alt)

end
