(* ===== verification/Nand_Io.thy ===== *)
theory Nand_Io
  imports Rk_Prelude
begin

text \<open>
  \<open>rknand-port/rk_nand_blk.c\<close>, I/O path: access control and transfer, the choice between the
  zero-copy and the bounce-buffer path, request dispatch, the request loop, \<open>queue_rq\<close> and the
  ioctls. Memory is a map from locations to bytes, with directly mapped kernel memory and high-memory
  pages apart, so that aliasing between segments and the bounce buffer is visible. The closed FTL
  blob is the parameter \<open>ftl_blob\<close>.
\<close>

section \<open>Memory and requests\<close>

datatype loc = Low nat | High nat nat
type_synonym kmem = "loc \<Rightarrow> u8"

datatype page = LowPage nat | HighPage nat

record bio_vec =
  bv_page :: page
  bv_offset :: nat
  bv_len :: nat

datatype req_op = REQ_OP_READ | REQ_OP_WRITE | REQ_OP_DISCARD | REQ_OP_OTHER nat
datatype blk_status = BLK_STS_OK | BLK_STS_IOERR

record request =
  rq_tag :: nat
  rq_op :: req_op
  rq_pos :: u64
  rq_cur_bytes :: u32
  rq_data_len :: u32
  rq_segs :: "bio_vec list"

fun page_loc :: "page \<Rightarrow> nat \<Rightarrow> loc" where
  "page_loc (LowPage a) i = Low (a + i)"
| "page_loc (HighPage p) i = High p i"

definition seg_locs :: "bio_vec \<Rightarrow> loc list" where
  "seg_locs bv = map (\<lambda>i. page_loc (bv_page bv) (bv_offset bv + i)) [0..<bv_len bv]"

definition buf_locs :: "nat \<Rightarrow> nat \<Rightarrow> loc list" where
  "buf_locs a n = map (\<lambda>i. Low (a + i)) [0..<n]"

fun store :: "kmem \<Rightarrow> loc list \<Rightarrow> bytes \<Rightarrow> kmem" where
  "store m (l # ls) (b # bs) = store (m(l := b)) ls bs"
| "store m _ _ = m"

section \<open>The blob and the device\<close>

text \<open>
  \<open>FtlRead(lun, index, sectors, buf)\<close> delivers a code and the bytes it puts at \<open>buf\<close>;
  \<open>FtlWrite\<close> takes the bytes at \<open>buf\<close>. All three act on the blob's own state \<open>'f\<close>.
\<close>

record 'f ftl_blob =
  FtlRead :: "u8 \<Rightarrow> u32 \<Rightarrow> u32 \<Rightarrow> 'f \<Rightarrow> int \<times> bytes \<times> 'f"
  FtlWrite :: "u8 \<Rightarrow> u32 \<Rightarrow> u32 \<Rightarrow> bytes \<Rightarrow> 'f \<Rightarrow> int \<times> 'f"
  FtlDiscard :: "u32 \<Rightarrow> u32 \<Rightarrow> 'f \<Rightarrow> int \<times> 'f"

record nand_blk_dev =
  dev_devnum :: int
  dev_size :: ulong
  dev_off_size :: ulong
  dev_readonly :: bool
  dev_writeonly :: bool
  dev_disable_access :: bool
  dev_disk_capacity :: u64
  dev_disk_ro :: bool

record 'f nand_io =
  io_mem :: kmem
  io_ftl :: 'f
  mtd_read_temp_buffer :: nat
  totle_read_data :: ulong
  totle_write_data :: ulong
  totle_read_count :: ulong
  totle_write_count :: ulong
  rk_ftl_gc_do :: bool
  ops_mutex :: bool
  rq_list :: "request list"
  rq_completed :: "(nat \<times> blk_status) list"

definition MTD_RW_SECTORS :: nat where "MTD_RW_SECTORS = 512"

section \<open>Transfer\<close>

definition nand_dev_transfer ::
  "'f ftl_blob \<Rightarrow> nand_blk_dev \<Rightarrow> ulong \<Rightarrow> ulong \<Rightarrow> nat \<Rightarrow> req_op \<Rightarrow> 'f nand_io \<Rightarrow> blk_status \<times> 'f nand_io"
where
  "nand_dev_transfer F dev start nsector buf cmd s =
     (if dev_disable_access dev \<or> (cmd = REQ_OP_WRITE \<and> dev_readonly dev)
         \<or> (cmd = REQ_OP_READ \<and> dev_writeonly dev)
      then (BLK_STS_IOERR, s)
      else let start = start + dev_off_size dev in
        case cmd of
          REQ_OP_READ \<Rightarrow>
            (let s = s\<lparr>totle_read_data := totle_read_data s + nsector,
                       totle_read_count := totle_read_count s + 1\<rparr>;
                 (ret, data, f) = FtlRead F 0 start nsector (io_ftl s);
                 s = s\<lparr>io_mem := store (io_mem s) (buf_locs buf (length data)) data, io_ftl := f\<rparr>
             in (if ret \<noteq> 0 then BLK_STS_IOERR else BLK_STS_OK, s))
        | REQ_OP_WRITE \<Rightarrow>
            (let s = s\<lparr>totle_write_data := totle_write_data s + nsector,
                       totle_write_count := totle_write_count s + 1\<rparr>;
                 data = map (io_mem s) (buf_locs buf (unat nsector * 512));
                 (ret, f) = FtlWrite F 0 start nsector data (io_ftl s)
             in (if ret \<noteq> 0 then BLK_STS_IOERR else BLK_STS_OK, s\<lparr>io_ftl := f\<rparr>))
        | _ \<Rightarrow> (BLK_STS_IOERR, s))"

section \<open>Zero-copy or bounce buffer\<close>

text \<open>
  The segment loop of \<open>req_check_buffer_align\<close>: \<open>Some first\<close> when every segment is directly mapped
  and starts where the previous one ended, \<open>None\<close> when the loop returns 0.
\<close>

fun align_loop :: "bio_vec list \<Rightarrow> nat \<Rightarrow> nat \<Rightarrow> nat option" where
  "align_loop [] firstbuf nextbuffer = Some firstbuf"
| "align_loop (bv # bvs) firstbuf nextbuffer =
     (case bv_page bv of
        HighPage _ \<Rightarrow> None
      | LowPage a \<Rightarrow>
          (let buffer = a + bv_offset bv in
           if buffer = 0 then None
           else let firstbuf = (if firstbuf = 0 then buffer else firstbuf) in
             if nextbuffer \<noteq> 0 \<and> nextbuffer \<noteq> buffer then None
             else align_loop bvs firstbuf (buffer + bv_len bv)))"

definition req_check_buffer_align :: "bio_vec list \<Rightarrow> nat \<Rightarrow> int \<times> nat" where
  "req_check_buffer_align segs pbuf =
     (case align_loop segs 0 0 of None \<Rightarrow> (0, pbuf) | Some firstbuf \<Rightarrow> (1, firstbuf))"

fun copy_to_segs :: "nat \<Rightarrow> bio_vec list \<Rightarrow> kmem \<Rightarrow> kmem" where
  "copy_to_segs p [] m = m"
| "copy_to_segs p (bv # bvs) m =
     copy_to_segs (p + bv_len bv) bvs (store m (seg_locs bv) (map m (buf_locs p (bv_len bv))))"

fun copy_from_segs :: "nat \<Rightarrow> bio_vec list \<Rightarrow> kmem \<Rightarrow> kmem" where
  "copy_from_segs p [] m = m"
| "copy_from_segs p (bv # bvs) m =
     copy_from_segs (p + bv_len bv) bvs (store m (buf_locs p (bv_len bv)) (map m (seg_locs bv)))"

section \<open>Request dispatch\<close>

definition do_blktrans_all_request ::
  "'f ftl_blob \<Rightarrow> nand_blk_dev \<Rightarrow> request \<Rightarrow> 'f nand_io \<Rightarrow> blk_status \<times> 'f nand_io" where
  "do_blktrans_all_request F dev req s =
     (let block = ucast (rq_pos req) :: ulong;
          nsect = drop_bit 9 (rq_cur_bytes req);
          totle_nsect = drop_bit 9 (rq_data_len req)
      in if rq_pos req + ucast (drop_bit 9 (rq_cur_bytes req)) > dev_disk_capacity dev
         then (BLK_STS_IOERR, s)
         else case rq_op req of
           REQ_OP_DISCARD \<Rightarrow>
             (let (ret, f) = FtlDiscard F block nsect (io_ftl s)
              in (if ret \<noteq> 0 then BLK_STS_IOERR else BLK_STS_OK, s\<lparr>io_ftl := f\<rparr>))
         | REQ_OP_READ \<Rightarrow>
             (let buf = snd (req_check_buffer_align (rq_segs req) (mtd_read_temp_buffer s));
                  (ret, s) = nand_dev_transfer F dev block totle_nsect buf REQ_OP_READ s;
                  s = (if buf = mtd_read_temp_buffer s
                       then s\<lparr>io_mem := copy_to_segs buf (rq_segs req) (io_mem s)\<rparr> else s)
              in (if ret \<noteq> BLK_STS_OK then BLK_STS_IOERR else BLK_STS_OK, s))
         | REQ_OP_WRITE \<Rightarrow>
             (let buf = snd (req_check_buffer_align (rq_segs req) (mtd_read_temp_buffer s));
                  s = (if buf = mtd_read_temp_buffer s
                       then s\<lparr>io_mem := copy_from_segs buf (rq_segs req) (io_mem s)\<rparr> else s);
                  (ret, s) = nand_dev_transfer F dev block totle_nsect buf REQ_OP_WRITE s
              in (if ret \<noteq> BLK_STS_OK then BLK_STS_IOERR else BLK_STS_OK, s))
         | _ \<Rightarrow> (BLK_STS_IOERR, s))"

section \<open>The request queue\<close>

text \<open>\<open>mutex_lock\<close> on the operations mutex: \<open>None\<close> when another context holds it (the caller sleeps).\<close>

definition rknand_device_lock :: "'f nand_io \<Rightarrow> 'f nand_io option" where
  "rknand_device_lock s = (if ops_mutex s then None else Some (s\<lparr>ops_mutex := True\<rparr>))"

definition rknand_device_trylock :: "'f nand_io \<Rightarrow> bool \<times> 'f nand_io" where
  "rknand_device_trylock s = (if ops_mutex s then (False, s) else (True, s\<lparr>ops_mutex := True\<rparr>))"

definition rknand_device_unlock :: "'f nand_io \<Rightarrow> 'f nand_io" where
  "rknand_device_unlock s = s\<lparr>ops_mutex := False\<rparr>"

definition rk_nand_next_request :: "request list \<Rightarrow> (request \<times> request list) option" where
  "rk_nand_next_request q = (case q of [] \<Rightarrow> None | rq # rest \<Rightarrow> Some (rq, rest))"

text \<open>
  The request loop. The queue lock is dropped while a request is served; \<open>arr\<close> lists, iteration
  by iteration, what other contexts append to the queue meanwhile. \<open>pending req res\<close> is the answer of
  \<open>blk_update_request\<close>: true when the block layer still has data pending for the request.
\<close>

function rk_nand_blktrans_work ::
  "'f ftl_blob \<Rightarrow> (request \<Rightarrow> blk_status \<Rightarrow> bool) \<Rightarrow> nand_blk_dev \<Rightarrow> request list list \<Rightarrow> request list
   \<Rightarrow> 'f nand_io \<Rightarrow> 'f nand_io option" where
  "rk_nand_blktrans_work F pending dev arr q s =
     (case rk_nand_next_request q of
        None \<Rightarrow> Some s
      | Some (req, rest) \<Rightarrow>
         (case rknand_device_lock s of
            None \<Rightarrow> None
          | Some s \<Rightarrow>
            (let (res, s) = do_blktrans_all_request F dev req s;
                 s = rknand_device_unlock s;
                 s = (if \<not> pending req res
                      then s\<lparr>rq_completed := rq_completed s @ [(rq_tag req, res)]\<rparr> else s)
             in rk_nand_blktrans_work F pending dev (tl arr) (rest @ (if arr = [] then [] else hd arr)) s)))"
  by pat_completeness auto
termination
  by (relation "measure (\<lambda>(F, pending, dev, arr, q, s). length q + sum_list (map length arr))")
     (auto simp: rk_nand_next_request_def neq_Nil_conv split: list.splits)

declare rk_nand_blktrans_work.simps [simp del]

definition rk_nand_queue_rq ::
  "'f ftl_blob \<Rightarrow> (request \<Rightarrow> blk_status \<Rightarrow> bool) \<Rightarrow> nand_blk_dev option \<Rightarrow> request list list \<Rightarrow> request
   \<Rightarrow> 'f nand_io \<Rightarrow> (blk_status \<times> 'f nand_io) option" where
  "rk_nand_queue_rq F pending devp arr rq s =
     (case devp of
        None \<Rightarrow> Some (BLK_STS_IOERR, s)
      | Some dev \<Rightarrow> do {
          let s = s\<lparr>rk_ftl_gc_do := False\<rparr>;
          s' \<leftarrow> rk_nand_blktrans_work F pending dev arr (rq_list s @ [rq]) (s\<lparr>rq_list := []\<rparr>);
          Some (BLK_STS_OK, s'\<lparr>rk_ftl_gc_do := True\<rparr>) })"

section \<open>Ioctls\<close>

datatype rknand_cmd = DISABLE_WRITE | ENABLE_WRITE | DISABLE_READ | ENABLE_READ | OTHER_CMD nat

fun rknand_ioctl :: "rknand_cmd \<Rightarrow> nand_blk_dev \<Rightarrow> int \<times> nand_blk_dev" where
  "rknand_ioctl ENABLE_WRITE dev =
     (0, dev\<lparr>dev_disable_access := False, dev_readonly := False, dev_disk_ro := False\<rparr>)"
| "rknand_ioctl DISABLE_WRITE dev = (0, dev\<lparr>dev_readonly := True, dev_disk_ro := True\<rparr>)"
| "rknand_ioctl ENABLE_READ dev = (0, dev\<lparr>dev_disable_access := False, dev_writeonly := False\<rparr>)"
| "rknand_ioctl DISABLE_READ dev = (0, dev\<lparr>dev_writeonly := True\<rparr>)"
| "rknand_ioctl (OTHER_CMD _) dev = (- ENOTTY, dev)"

definition rknand_open :: int where "rknand_open = 0"
definition rknand_release :: "nand_blk_dev \<Rightarrow> nand_blk_dev" where "rknand_release dev = dev"

section \<open>Lemmas\<close>

lemma length_seg_locs [simp]: "length (seg_locs bv) = bv_len bv"
  by (simp add: seg_locs_def)

lemma length_buf_locs [simp]: "length (buf_locs a n) = n"
  by (simp add: buf_locs_def)

lemma buf_locs_0 [simp]: "buf_locs a 0 = []"
  by (simp add: buf_locs_def)

lemma distinct_buf_locs [simp]: "distinct (buf_locs a n)"
  by (auto simp: buf_locs_def distinct_map inj_on_def)

lemma buf_locs_append: "buf_locs a (m + n) = buf_locs a m @ buf_locs (a + m) n"
proof -
  have "map (\<lambda>i. Low (a + i)) [m..<m + n] = map (\<lambda>i. Low (a + m + i)) [0..<n]"
    by (rule nth_equalityI) (auto simp: add.assoc)
  then show ?thesis using upt_add_eq_append [of 0 m n] by (simp add: buf_locs_def)
qed

lemma seg_locs_low: "bv_page bv = LowPage a \<Longrightarrow> seg_locs bv = buf_locs (a + bv_offset bv) (bv_len bv)"
  by (simp add: seg_locs_def buf_locs_def add.assoc)

lemma store_other: "l \<notin> set ls \<Longrightarrow> store m ls bs l = m l"
  by (induction m ls bs rule: store.induct) auto

lemma map_store_other: "set xs \<inter> set ls = {} \<Longrightarrow> map (store m ls bs) xs = map m xs"
  by (auto simp: store_other disjoint_iff)

lemma map_store: "distinct ls \<Longrightarrow> length bs = length ls \<Longrightarrow> map (store m ls bs) ls = bs"
  by (induction m ls bs rule: store.induct) (auto simp: store_other)

definition segs_locs :: "bio_vec list \<Rightarrow> loc list" where
  "segs_locs segs = concat (map seg_locs segs)"

definition segs_len :: "bio_vec list \<Rightarrow> nat" where
  "segs_len segs = sum_list (map bv_len segs)"

lemma segs_locs_simps [simp]: "segs_locs [] = []" "segs_locs (bv # bvs) = seg_locs bv @ segs_locs bvs"
  "segs_len [] = 0" "segs_len (bv # bvs) = bv_len bv + segs_len bvs"
  by (simp_all add: segs_locs_def segs_len_def)

text \<open>The scatter loop delivers the buffer to the segments, the gather loop the segments to the buffer.\<close>

lemma copy_to_segs_read:
  assumes "distinct (segs_locs segs)" and "set (segs_locs segs) \<inter> set (buf_locs p (segs_len segs)) = {}"
  shows "map (copy_to_segs p segs m) (segs_locs segs) = map m (buf_locs p (segs_len segs))
    \<and> (\<forall>l. l \<notin> set (segs_locs segs) \<longrightarrow> copy_to_segs p segs m l = m l)"
  using assms
proof (induction segs arbitrary: p m)
  case Nil
  then show ?case by (simp add: buf_locs_def)
next
  case (Cons bv bvs)
  let ?m = "store m (seg_locs bv) (map m (buf_locs p (bv_len bv)))"
  let ?p = "p + bv_len bv"
  have d: "distinct (segs_locs bvs)" "set (segs_locs bvs) \<inter> set (buf_locs ?p (segs_len bvs)) = {}"
    and dj: "set (seg_locs bv) \<inter> set (segs_locs bvs) = {}" "distinct (seg_locs bv)"
    and db: "set (seg_locs bv) \<inter> set (buf_locs ?p (segs_len bvs)) = {}"
    using Cons.prems by (auto simp: buf_locs_append)
  from Cons.IH [OF d, of ?m]
  have IH: "map (copy_to_segs ?p bvs ?m) (segs_locs bvs) = map ?m (buf_locs ?p (segs_len bvs))"
    "\<And>l. l \<notin> set (segs_locs bvs) \<Longrightarrow> copy_to_segs ?p bvs ?m l = ?m l" by auto
  have "map (copy_to_segs ?p bvs ?m) (seg_locs bv) = map ?m (seg_locs bv)"
    using IH(2) dj(1) by (auto simp: disjoint_iff)
  also have "\<dots> = map m (buf_locs p (bv_len bv))" by (rule map_store) (simp_all add: dj)
  finally have hd: "map (copy_to_segs ?p bvs ?m) (seg_locs bv) = map m (buf_locs p (bv_len bv))" .
  have tl: "map ?m (buf_locs ?p (segs_len bvs)) = map m (buf_locs ?p (segs_len bvs))"
    using db by (intro map_store_other) auto
  show ?case
    using hd IH tl by (auto simp: buf_locs_append store_other)
qed

lemma copy_from_segs_read:
  assumes "set (segs_locs segs) \<inter> set (buf_locs p (segs_len segs)) = {}"
  shows "map (copy_from_segs p segs m) (buf_locs p (segs_len segs)) = map m (segs_locs segs)
    \<and> (\<forall>l. l \<notin> set (buf_locs p (segs_len segs)) \<longrightarrow> copy_from_segs p segs m l = m l)"
  using assms
proof (induction segs arbitrary: p m)
  case Nil
  then show ?case by (simp add: buf_locs_def)
next
  case (Cons bv bvs)
  let ?m = "store m (buf_locs p (bv_len bv)) (map m (seg_locs bv))"
  let ?p = "p + bv_len bv"
  have d: "set (segs_locs bvs) \<inter> set (buf_locs ?p (segs_len bvs)) = {}"
    and db: "set (segs_locs bvs) \<inter> set (buf_locs p (bv_len bv)) = {}"
    using Cons.prems by (auto simp: buf_locs_append)
  have dj: "set (buf_locs p (bv_len bv)) \<inter> set (buf_locs ?p (segs_len bvs)) = {}"
    using distinct_buf_locs [of p "bv_len bv + segs_len bvs"] unfolding buf_locs_append by simp
  from Cons.IH [OF d, of ?m]
  have IH: "map (copy_from_segs ?p bvs ?m) (buf_locs ?p (segs_len bvs)) = map ?m (segs_locs bvs)"
    "\<And>l. l \<notin> set (buf_locs ?p (segs_len bvs)) \<Longrightarrow> copy_from_segs ?p bvs ?m l = ?m l" by auto
  have "map (copy_from_segs ?p bvs ?m) (buf_locs p (bv_len bv)) = map ?m (buf_locs p (bv_len bv))"
    using IH(2) dj by (auto simp: disjoint_iff)
  also have "\<dots> = map m (seg_locs bv)" by (rule map_store) simp_all
  finally have hd: "map (copy_from_segs ?p bvs ?m) (buf_locs p (bv_len bv)) = map m (seg_locs bv)" .
  have tl: "map ?m (segs_locs bvs) = map m (segs_locs bvs)"
    using db by (intro map_store_other) auto
  show ?case
    using hd IH tl by (auto simp: buf_locs_append store_other)
qed

lemma align_loop_next:
  "align_loop segs first next = Some a \<Longrightarrow> next \<noteq> 0 \<Longrightarrow> first \<noteq> 0 \<Longrightarrow>
     segs_locs segs = buf_locs next (segs_len segs) \<and> a = first"
  by (induction segs first "next" rule: align_loop.induct)
     (auto simp: Let_def seg_locs_low buf_locs_append split: page.splits if_splits)

lemma align_loop_start:
  assumes "align_loop segs 0 0 = Some a"
  shows "segs_locs segs = buf_locs a (segs_len segs) \<and> (segs \<noteq> [] \<longrightarrow> a \<noteq> 0)"
proof (cases segs)
  case Nil
  then show ?thesis using assms by (simp add: buf_locs_def)
next
  case (Cons bv bvs)
  then obtain b where "bv_page bv = LowPage b" "b + bv_offset bv \<noteq> 0"
    "align_loop bvs (b + bv_offset bv) (b + bv_offset bv + bv_len bv) = Some a"
    using assms by (auto simp: Let_def split: page.splits if_splits)
  moreover from this have "segs_locs bvs = buf_locs (b + bv_offset bv + bv_len bv) (segs_len bvs)
      \<and> a = b + bv_offset bv"
    by (intro align_loop_next) auto
  ultimately show ?thesis using Cons by (simp add: seg_locs_low buf_locs_append)
qed

section \<open>Well-formed requests\<close>

text \<open>
  What the block layer guarantees of a request: its segments do not overlap each other or the
  bounce buffer (both live in memory of their own), their lengths add up to the request's, a
  multiple of the sector size and at most the \<open>max_hw_sectors\<close> the driver announced.
\<close>

definition rq_wf :: "'f nand_io \<Rightarrow> request \<Rightarrow> bool" where
  "rq_wf s req \<longleftrightarrow> distinct (segs_locs (rq_segs req))
     \<and> set (segs_locs (rq_segs req))
         \<inter> set (buf_locs (mtd_read_temp_buffer s) (MTD_RW_SECTORS * 512)) = {}
     \<and> unat (rq_data_len req) = segs_len (rq_segs req)
     \<and> 512 dvd segs_len (rq_segs req) \<and> segs_len (rq_segs req) \<le> MTD_RW_SECTORS * 512"

definition rq_in_range :: "nand_blk_dev \<Rightarrow> request \<Rightarrow> bool" where
  "rq_in_range dev req \<longleftrightarrow> rq_pos req + ucast (drop_bit 9 (rq_cur_bytes req)) \<le> dev_disk_capacity dev"

definition rq_nsect :: "request \<Rightarrow> ulong" where
  "rq_nsect req = drop_bit 9 (rq_data_len req)"

lemma buf_locs_mono: "m \<le> n \<Longrightarrow> set (buf_locs a m) \<subseteq> set (buf_locs a n)"
  by (auto simp: buf_locs_def)

lemma length_segs_locs: "length (segs_locs segs) = segs_len segs"
  by (induction segs) auto

lemma rq_wf_len: "rq_wf s req \<Longrightarrow> unat (rq_nsect req) * 512 = segs_len (rq_segs req)"
  by (auto simp: rq_wf_def rq_nsect_def drop_bit_eq_div word_nat)

text \<open>
  Where the transfer buffer of a request is: either the segments themselves, as one contiguous
  directly mapped range, or the bounce buffer, apart from them.
\<close>

lemma transfer_buffer:
  assumes "rq_wf s req"
  defines "buf \<equiv> snd (req_check_buffer_align (rq_segs req) (mtd_read_temp_buffer s))"
  shows "buf \<noteq> mtd_read_temp_buffer s \<and> segs_locs (rq_segs req) = buf_locs buf (segs_len (rq_segs req))
    \<or> buf = mtd_read_temp_buffer s
      \<and> set (segs_locs (rq_segs req)) \<inter> set (buf_locs buf (segs_len (rq_segs req))) = {}"
proof (cases "align_loop (rq_segs req) 0 0")
  case None
  then show ?thesis
    using assms buf_locs_mono [of "segs_len (rq_segs req)" "MTD_RW_SECTORS * 512"]
    by (fastforce simp: req_check_buffer_align_def rq_wf_def)
next
  case (Some a)
  then have b: "buf = a" by (simp add: buf_def req_check_buffer_align_def)
  have l: "segs_locs (rq_segs req) = buf_locs a (segs_len (rq_segs req))"
    using align_loop_start [OF Some] by simp
  show ?thesis
  proof (cases "a = mtd_read_temp_buffer s")
    case True
    have "set (buf_locs a (segs_len (rq_segs req))) \<subseteq> set (buf_locs a (MTD_RW_SECTORS * 512))"
      using assms(1) by (intro buf_locs_mono) (simp add: rq_wf_def)
    moreover have "set (buf_locs a (segs_len (rq_segs req))) \<inter> set (buf_locs a (MTD_RW_SECTORS * 512)) = {}"
      using assms(1) l True by (simp add: rq_wf_def)
    ultimately have "set (buf_locs a (segs_len (rq_segs req))) = {}" by (simp only: inf.absorb1)
    then show ?thesis using b l True by simp
  next
    case False
    then show ?thesis using b l by simp
  qed
qed

lemma transfer_frame:
  "nand_dev_transfer F dev start n buf cmd s = (r, s') \<Longrightarrow>
     ops_mutex s' = ops_mutex s \<and> rq_completed s' = rq_completed s \<and> rq_list s' = rq_list s
     \<and> mtd_read_temp_buffer s' = mtd_read_temp_buffer s"
  by (auto simp: nand_dev_transfer_def Let_def split: if_splits req_op.splits prod.splits)

lemma blktrans_frame:
  assumes "do_blktrans_all_request F dev req s = (r, s')"
  shows "ops_mutex s' = ops_mutex s \<and> rq_completed s' = rq_completed s \<and> rq_list s' = rq_list s
     \<and> mtd_read_temp_buffer s' = mtd_read_temp_buffer s"
  using assms
  by (auto simp: do_blktrans_all_request_def Let_def split: if_splits req_op.splits prod.splits
      dest!: transfer_frame)

text \<open>One round of the loop serves the head of the queue and takes in what arrived meanwhile.\<close>

lemma work_step:
  assumes "\<not> ops_mutex s"
  obtains s' where "\<not> ops_mutex s'" "rq_list s' = rq_list s"
    "map fst (rq_completed s') = map fst (rq_completed s) @ [rq_tag req]"
    "rk_nand_blktrans_work F (\<lambda>_ _. False) dev arr (req # rest) s
       = rk_nand_blktrans_work F (\<lambda>_ _. False) dev (tl arr) (rest @ (if arr = [] then [] else hd arr)) s'"
proof -
  let ?s1 = "s\<lparr>ops_mutex := True\<rparr>"
  obtain res s2 where d: "do_blktrans_all_request F dev req ?s1 = (res, s2)" by fastforce
  let ?s3 = "rknand_device_unlock s2\<lparr>rq_completed := rq_completed (rknand_device_unlock s2) @ [(rq_tag req, res)]\<rparr>"
  have "rknand_device_lock s = Some ?s1" using assms(1) by (simp add: rknand_device_lock_def)
  then have "rk_nand_blktrans_work F (\<lambda>_ _. False) dev arr (req # rest) s
      = rk_nand_blktrans_work F (\<lambda>_ _. False) dev (tl arr) (rest @ (if arr = [] then [] else hd arr)) ?s3"
    using d by (subst rk_nand_blktrans_work.simps) (simp add: rk_nand_next_request_def Let_def)
  then show ?thesis
    using blktrans_frame [OF d] by (intro that [of ?s3]) (auto simp: rknand_device_unlock_def)
qed

text \<open>The loop serves everything that is or comes onto the queue before it is found empty, in order.\<close>

lemma work_fifo:
  assumes "\<not> ops_mutex s" and "\<And>r st. \<not> pending r st"
  shows "\<exists>n s'. rk_nand_blktrans_work F pending dev arr q s = Some s'
    \<and> length (q @ concat (take n arr)) = n \<and> (\<forall>k<n. k < length (q @ concat (take k arr)))
    \<and> \<not> ops_mutex s' \<and> rq_list s' = rq_list s
    \<and> map fst (rq_completed s') = map fst (rq_completed s) @ map rq_tag (q @ concat (take n arr))"
proof -
  have np: "pending = (\<lambda>_ _. False)" using assms(2) by (intro ext) simp
  show ?thesis
    unfolding np using assms(1)
  proof (induction "length q + length (concat arr)" arbitrary: arr q s rule: less_induct)
    case less
    show ?case
    proof (cases q)
      case Nil
      then show ?thesis using less.prems
        by (intro exI [of _ 0]) (simp add: rk_nand_blktrans_work.simps rk_nand_next_request_def)
    next
      case (Cons req rest)
      let ?q = "rest @ (if arr = [] then [] else hd arr)"
      from work_step [OF less.prems, of req F dev arr rest] obtain s1 where s1: "\<not> ops_mutex s1" "rq_list s1 = rq_list s"
        "map fst (rq_completed s1) = map fst (rq_completed s) @ [rq_tag req]"
        "rk_nand_blktrans_work F (\<lambda>_ _. False) dev arr q s = rk_nand_blktrans_work F (\<lambda>_ _. False) dev (tl arr) ?q s1"
        using Cons by metis
      have "length ?q + length (concat (tl arr)) < length q + length (concat arr)" using Cons by (cases arr) auto
      from less.hyps [OF this s1(1)] obtain n s' where w:
        "rk_nand_blktrans_work F (\<lambda>_ _. False) dev (tl arr) ?q s1 = Some s'"
        "length (?q @ concat (take n (tl arr))) = n" "\<forall>k<n. k < length (?q @ concat (take k (tl arr)))"
        "\<not> ops_mutex s'" "rq_list s' = rq_list s1"
        "map fst (rq_completed s') = map fst (rq_completed s1) @ map rq_tag (?q @ concat (take n (tl arr)))" by blast
      have arrived: "q @ concat (take (Suc k) arr) = req # ?q @ concat (take k (tl arr))" for k
        using Cons by (cases arr) auto
      have "k < length (q @ concat (take k arr))" if "k < Suc n" for k
        using that w(3) Cons arrived by (cases k) auto
      then show ?thesis
        using w s1 arrived [of n] by (intro exI [of _ "Suc n"] exI [of _ s']) auto
    qed
  qed
qed

text \<open>On the zero-copy and on the bounce-buffer path alike, a read fills the segments with the blob's data ...\<close>

lemma read_request_exec:
  assumes wf: "rq_wf s req" and "rq_in_range dev req" and "rq_op req = REQ_OP_READ"
    and "\<not> dev_disable_access dev" and "\<not> dev_writeonly dev"
    and rd: "FtlRead F 0 (ucast (rq_pos req) + dev_off_size dev) (rq_nsect req) (io_ftl s) = (0, data, f)"
    and len: "length data = unat (rq_nsect req) * 512"
  shows "\<exists>s'. do_blktrans_all_request F dev req s = (BLK_STS_OK, s')
    \<and> map (io_mem s') (segs_locs (rq_segs req)) = data \<and> io_ftl s' = f
    \<and> (\<forall>l. l \<notin> set (segs_locs (rq_segs req))
          \<union> set (buf_locs (mtd_read_temp_buffer s) (MTD_RW_SECTORS * 512)) \<longrightarrow> io_mem s' l = io_mem s l)"
proof -
  let ?segs = "rq_segs req" and ?T = "mtd_read_temp_buffer s"
  let ?buf = "snd (req_check_buffer_align ?segs ?T)"
  let ?m = "store (io_mem s) (buf_locs ?buf (segs_len ?segs)) data"
  have n: "length data = segs_len ?segs" using len rq_wf_len [OF wf] by simp
  let ?t = "s\<lparr>totle_read_data := totle_read_data s + rq_nsect req,
      totle_read_count := totle_read_count s + 1, io_mem := ?m, io_ftl := f\<rparr>"
  have tr: "nand_dev_transfer F dev (ucast (rq_pos req)) (rq_nsect req) ?buf REQ_OP_READ s
      = (BLK_STS_OK, ?t)"
    using assms n by (simp add: nand_dev_transfer_def Let_def)
  have disp: "do_blktrans_all_request F dev req s = (BLK_STS_OK,
      if ?buf = ?T then ?t\<lparr>io_mem := copy_to_segs ?buf ?segs ?m\<rparr> else ?t)"
    using assms(2,3) tr
    by (simp add: do_blktrans_all_request_def Let_def rq_in_range_def rq_nsect_def not_less)
  have sub: "set (buf_locs ?T (segs_len ?segs)) \<subseteq> set (buf_locs ?T (MTD_RW_SECTORS * 512))"
    using wf buf_locs_mono by (auto simp: rq_wf_def)
  from transfer_buffer [OF wf] show ?thesis
  proof
    assume d: "?buf \<noteq> ?T \<and> segs_locs ?segs = buf_locs ?buf (segs_len ?segs)"
    have "map ?m (segs_locs ?segs) = data" using d n by (simp add: map_store)
    then show ?thesis using disp d by (auto simp: store_other)
  next
    assume b: "?buf = ?T \<and> set (segs_locs ?segs) \<inter> set (buf_locs ?buf (segs_len ?segs)) = {}"
    have "map (copy_to_segs ?buf ?segs ?m) (segs_locs ?segs) = map ?m (buf_locs ?buf (segs_len ?segs))"
      "\<forall>l. l \<notin> set (segs_locs ?segs) \<longrightarrow> copy_to_segs ?buf ?segs ?m l = ?m l"
      using copy_to_segs_read [of ?segs ?buf ?m] wf b by (auto simp: rq_wf_def)
    moreover have "map ?m (buf_locs ?buf (segs_len ?segs)) = data" using n by (simp add: map_store)
    moreover have "?m l = io_mem s l" if "l \<notin> set (buf_locs ?T (MTD_RW_SECTORS * 512))" for l
      using that sub b by (intro store_other) auto
    ultimately show ?thesis using disp b by simp
  qed
qed

text \<open>... and a write hands the bytes of the segments to the blob.\<close>

lemma write_request_exec:
  assumes wf: "rq_wf s req" and "rq_in_range dev req" and "rq_op req = REQ_OP_WRITE"
    and "\<not> dev_disable_access dev" and "\<not> dev_readonly dev"
    and wr: "FtlWrite F 0 (ucast (rq_pos req) + dev_off_size dev) (rq_nsect req)
               (map (io_mem s) (segs_locs (rq_segs req))) (io_ftl s) = (ret, f)"
  shows "\<exists>s'. do_blktrans_all_request F dev req s = (if ret = 0 then BLK_STS_OK else BLK_STS_IOERR, s')
    \<and> io_ftl s' = f \<and> mtd_read_temp_buffer s' = mtd_read_temp_buffer s
    \<and> map (io_mem s') (segs_locs (rq_segs req)) = map (io_mem s) (segs_locs (rq_segs req))"
proof -
  let ?segs = "rq_segs req" and ?T = "mtd_read_temp_buffer s"
  let ?buf = "snd (req_check_buffer_align ?segs ?T)"
  define m where "m = (if ?buf = ?T then copy_from_segs ?buf ?segs (io_mem s) else io_mem s)"
  have n: "unat (rq_nsect req) * 512 = segs_len ?segs" using rq_wf_len [OF wf] .
  have m: "map m (buf_locs ?buf (segs_len ?segs)) = map (io_mem s) (segs_locs ?segs)
      \<and> map m (segs_locs ?segs) = map (io_mem s) (segs_locs ?segs)"
    using transfer_buffer [OF wf]
  proof
    assume "?buf \<noteq> ?T \<and> segs_locs ?segs = buf_locs ?buf (segs_len ?segs)"
    then show ?thesis by (simp add: m_def)
  next
    assume b: "?buf = ?T \<and> set (segs_locs ?segs) \<inter> set (buf_locs ?buf (segs_len ?segs)) = {}"
    then show ?thesis
      using copy_from_segs_read [of ?segs ?buf "io_mem s"] by (auto simp: m_def disjoint_iff)
  qed
  let ?t = "s\<lparr>io_mem := m\<rparr>"
  let ?u = "?t\<lparr>totle_write_data := totle_write_data s + rq_nsect req,
      totle_write_count := totle_write_count s + 1, io_ftl := f\<rparr>"
  have tr: "nand_dev_transfer F dev (ucast (rq_pos req)) (rq_nsect req) ?buf REQ_OP_WRITE ?t
      = (if ret = 0 then BLK_STS_OK else BLK_STS_IOERR, ?u)"
    using assms(4,5) wr n m by (simp add: nand_dev_transfer_def Let_def)
  have pre: "(if ?buf = ?T then s\<lparr>io_mem := copy_from_segs ?buf ?segs (io_mem s)\<rparr> else s) = ?t"
    by (simp add: m_def)
  have "do_blktrans_all_request F dev req s = (if ret = 0 then BLK_STS_OK else BLK_STS_IOERR, ?u)"
    using assms(2,3) tr pre
    by (simp add: do_blktrans_all_request_def Let_def rq_in_range_def rq_nsect_def not_less)
  then show ?thesis using m by simp
qed

text \<open>A request that finds the queue empty and the mutex free is the only one its caller serves.\<close>

lemma queue_rq_single:
  assumes "\<not> ops_mutex s" "rq_list s = []" "\<not> pending rq st"
    and "do_blktrans_all_request F dev rq (s\<lparr>rk_ftl_gc_do := False, ops_mutex := True\<rparr>) = (st, t)"
  shows "rk_nand_queue_rq F pending (Some dev) [] rq s
    = Some (BLK_STS_OK, t\<lparr>ops_mutex := False, rq_completed := rq_completed s @ [(rq_tag rq, st)],
        rk_ftl_gc_do := True\<rparr>)"
proof -
  have s: "s\<lparr>rk_ftl_gc_do := False, rq_list := [], ops_mutex := True\<rparr>
      = s\<lparr>rk_ftl_gc_do := False, ops_mutex := True\<rparr>" using assms(2) by simp
  have "do_blktrans_all_request F dev rq (s\<lparr>rk_ftl_gc_do := False, rq_list := [], ops_mutex := True\<rparr>) = (st, t)"
    using assms(4) unfolding s .
  moreover have "rq_completed t = rq_completed s" using blktrans_frame [OF assms(4)] by simp
  ultimately show ?thesis
    using assms(1-3)
    by (simp add: rk_nand_queue_rq_def rk_nand_blktrans_work.simps rk_nand_next_request_def
        rknand_device_lock_def rknand_device_unlock_def Let_def)
qed

section \<open>Properties\<close>

text \<open>
  C2: a read request delivers the data of the FTL to its segments. A well-formed read request
  inside the disk that enters \<open>rk_nand_queue_rq\<close> on an idle queue is completed with success, on the
  zero-copy and on the bounce-buffer path alike: the blob is asked once for the request's sectors at
  its position plus the partition offset, the segments then hold exactly the bytes it returned, in
  order, and no memory other than the segments and the bounce buffer changes.
\<close>

theorem read_request_delivers:
  assumes "\<not> ops_mutex s" "rq_list s = []" "\<not> pending rq BLK_STS_OK"
    and "rq_wf s rq" "rq_in_range dev rq" "rq_op rq = REQ_OP_READ"
    and "\<not> dev_disable_access dev" "\<not> dev_writeonly dev"
    and "FtlRead F 0 (ucast (rq_pos rq) + dev_off_size dev) (rq_nsect rq) (io_ftl s) = (0, data, f)"
    and "length data = unat (rq_nsect rq) * 512"
  shows "\<exists>s'. rk_nand_queue_rq F pending (Some dev) [] rq s = Some (BLK_STS_OK, s')
    \<and> rq_completed s' = rq_completed s @ [(rq_tag rq, BLK_STS_OK)]
    \<and> map (io_mem s') (segs_locs (rq_segs rq)) = data \<and> io_ftl s' = f
    \<and> (\<forall>l. l \<notin> set (segs_locs (rq_segs rq))
          \<union> set (buf_locs (mtd_read_temp_buffer s) (MTD_RW_SECTORS * 512)) \<longrightarrow> io_mem s' l = io_mem s l)"
proof -
  let ?s = "s\<lparr>rk_ftl_gc_do := False, ops_mutex := True\<rparr>"
  have "rq_wf ?s rq" using assms(4) by (simp add: rq_wf_def)
  from read_request_exec [OF this assms(5-8), of F data f] assms(9,10)
  obtain t where t: "do_blktrans_all_request F dev rq ?s = (BLK_STS_OK, t)"
    "map (io_mem t) (segs_locs (rq_segs rq)) = data" "io_ftl t = f"
    "\<forall>l. l \<notin> set (segs_locs (rq_segs rq))
        \<union> set (buf_locs (mtd_read_temp_buffer s) (MTD_RW_SECTORS * 512)) \<longrightarrow> io_mem t l = io_mem s l"
    by auto
  show ?thesis
    using queue_rq_single [of s pending rq BLK_STS_OK F dev t] assms(1-3) t by simp
qed

text \<open>
  A write request that enters \<open>rk_nand_queue_rq\<close> on an idle queue hands exactly the bytes of
  its segments, in order, to the FTL, once, at its position plus the partition offset. It is
  completed with an I/O error exactly when the FTL reports one, and its segments are not modified.
\<close>

theorem write_request_passes:
  assumes "\<not> ops_mutex s" "rq_list s = []" "\<And>st. \<not> pending rq st"
    and "rq_wf s rq" "rq_in_range dev rq" "rq_op rq = REQ_OP_WRITE"
    and "\<not> dev_disable_access dev" "\<not> dev_readonly dev"
    and "FtlWrite F 0 (ucast (rq_pos rq) + dev_off_size dev) (rq_nsect rq)
           (map (io_mem s) (segs_locs (rq_segs rq))) (io_ftl s) = (ret, f)"
  shows "\<exists>s'. rk_nand_queue_rq F pending (Some dev) [] rq s = Some (BLK_STS_OK, s')
    \<and> rq_completed s' = rq_completed s @ [(rq_tag rq, if ret = 0 then BLK_STS_OK else BLK_STS_IOERR)]
    \<and> io_ftl s' = f \<and> map (io_mem s') (segs_locs (rq_segs rq)) = map (io_mem s) (segs_locs (rq_segs rq))"
proof -
  let ?s = "s\<lparr>rk_ftl_gc_do := False, ops_mutex := True\<rparr>"
  have "rq_wf ?s rq" using assms(4) by (simp add: rq_wf_def)
  from write_request_exec [OF this assms(5-8), of F ret f] assms(9)
  obtain t where t: "do_blktrans_all_request F dev rq ?s = (if ret = 0 then BLK_STS_OK else BLK_STS_IOERR, t)"
    "io_ftl t = f" "map (io_mem t) (segs_locs (rq_segs rq)) = map (io_mem s) (segs_locs (rq_segs rq))"
    by auto
  show ?thesis
    using queue_rq_single [of s pending rq "if ret = 0 then BLK_STS_OK else BLK_STS_IOERR" F dev t]
      assms(1-3) t by simp
qed

text \<open>The blob returns from a sector range what was last written to it.\<close>

definition ftl_persists :: "'f ftl_blob \<Rightarrow> bool" where
  "ftl_persists F \<longleftrightarrow> (\<forall>lun i n d f f'. FtlWrite F lun i n d f = (0, f') \<and> length d = unat n * 512 \<longrightarrow>
     (\<exists>f''. FtlRead F lun i n f' = (0, d, f'')))"

text \<open>
  C6: what a write request stored, a later read request of the same sectors returns, whatever the
  segment layouts and buffer paths of the two, provided the blob itself returns from a sector range
  what was last written there.
\<close>

theorem write_read_roundtrip:
  assumes F: "ftl_persists F" and w: "rq_wf s w" "rq_in_range dev w" "rq_op w = REQ_OP_WRITE"
    and r: "rq_wf s r" "rq_in_range dev r" "rq_op r = REQ_OP_READ"
    and same: "rq_pos r = rq_pos w" "rq_data_len r = rq_data_len w"
    and acc: "\<not> dev_disable_access dev" "\<not> dev_readonly dev" "\<not> dev_writeonly dev"
    and ok: "do_blktrans_all_request F dev w s = (BLK_STS_OK, s1)"
  shows "\<exists>s2. do_blktrans_all_request F dev r s1 = (BLK_STS_OK, s2)
    \<and> map (io_mem s2) (segs_locs (rq_segs r)) = map (io_mem s) (segs_locs (rq_segs w))"
proof -
  let ?start = "ucast (rq_pos w) + dev_off_size dev" and ?data = "map (io_mem s) (segs_locs (rq_segs w))"
  obtain ret f where wr: "FtlWrite F 0 ?start (rq_nsect w) ?data (io_ftl s) = (ret, f)" by fastforce
  from write_request_exec [OF w acc(1,2) wr] ok
  have ret: "ret = 0" and s1: "io_ftl s1 = f" "mtd_read_temp_buffer s1 = mtd_read_temp_buffer s"
    by (auto split: if_splits)
  have len: "length ?data = unat (rq_nsect w) * 512"
    using rq_wf_len [OF w(1)] by (simp add: length_segs_locs)
  with F wr ret obtain f2 where rd: "FtlRead F 0 ?start (rq_nsect w) f = (0, ?data, f2)"
    unfolding ftl_persists_def by blast
  have "rq_wf s1 r" using r(1) s1(2) by (simp add: rq_wf_def)
  moreover have "rq_nsect r = rq_nsect w" using same by (simp add: rq_nsect_def)
  ultimately show ?thesis
    using read_request_exec [of s1 r dev F ?data f2] r acc rd s1 same len by auto
qed


text \<open>
  C34: after the \<open>DISABLE_WRITE\<close> ioctl no write reaches the FTL: every write request is refused
  with an I/O error and leaves the blob and the statistics as they were. Discards, however, are
  still handed to the blob, also on a device whose access is disabled altogether.
\<close>

theorem disable_write_blocks:
  assumes "rknand_ioctl DISABLE_WRITE dev = (r, dev')"
  shows "r = 0 \<and> (rq_op req = REQ_OP_WRITE \<longrightarrow>
      (case do_blktrans_all_request F dev' req s of (st, s') \<Rightarrow> st = BLK_STS_IOERR
         \<and> io_ftl s' = io_ftl s \<and> totle_write_count s' = totle_write_count s))
    \<and> (rq_op req = REQ_OP_DISCARD \<and> rq_in_range dev req \<longrightarrow>
        do_blktrans_all_request F (dev'\<lparr>dev_disable_access := True\<rparr>) req s
          = (case FtlDiscard F (ucast (rq_pos req)) (drop_bit 9 (rq_cur_bytes req)) (io_ftl s) of
               (ret, f) \<Rightarrow> (if ret = 0 then BLK_STS_OK else BLK_STS_IOERR, s\<lparr>io_ftl := f\<rparr>)))"
  using assms
  by (auto simp: do_blktrans_all_request_def nand_dev_transfer_def rq_in_range_def Let_def not_less
      split: prod.splits)

text \<open>
  A blob that records the sector ranges it is asked to read.
\<close>

definition log_blob :: "(u32 \<times> u32) list ftl_blob" where
  "log_blob = \<lparr>FtlRead = (\<lambda>lun i n f. (0, replicate (unat n * 512) 0, f @ [(i, n)])),
     FtlWrite = (\<lambda>lun i n d f. (0, f)), FtlDiscard = (\<lambda>i n f. (0, f))\<rparr>"

lemma log_read:
  "nand_dev_transfer log_blob dev start n buf REQ_OP_READ s = (r, s') \<Longrightarrow> \<not> dev_disable_access dev \<Longrightarrow>
     \<not> dev_writeonly dev \<Longrightarrow> r = BLK_STS_OK \<and> io_ftl s' = io_ftl s @ [(start + dev_off_size dev, n)]"
  by (auto simp: nand_dev_transfer_def log_blob_def Let_def)

text \<open>
  C36: the range check of \<open>do_blktrans_all_request\<close> looks at the first segment only. A request of one
  segment that ends beyond the disk is refused and changes nothing; but a request of two segments of
  one sector each that starts at the last sector of the disk passes the check, and the blob is asked
  for both sectors, the second of them beyond the end.
\<close>

theorem capacity_check_first_segment:
  "(rq_cur_bytes req = rq_data_len req
      \<and> dev_disk_capacity dev < rq_pos req + ucast (rq_nsect req)
      \<longrightarrow> do_blktrans_all_request F dev req s = (BLK_STS_IOERR, s))
   \<and> (\<not> dev_disable_access dev \<and> \<not> dev_writeonly dev \<and> dev_disk_capacity dev \<noteq> 0 \<longrightarrow>
      (\<exists>r. length (rq_segs r) = 2 \<and> rq_data_len r = 1024
        \<and> rq_pos r + ucast (rq_nsect r) = dev_disk_capacity dev + 1
        \<and> (\<exists>s'. do_blktrans_all_request log_blob dev r t = (BLK_STS_OK, s')
             \<and> io_ftl s' = io_ftl t @ [(ucast (rq_pos r) + dev_off_size dev, 2)])))"
proof (intro conjI impI)
  assume "rq_cur_bytes req = rq_data_len req \<and> dev_disk_capacity dev < rq_pos req + ucast (rq_nsect req)"
  then show "do_blktrans_all_request F dev req s = (BLK_STS_IOERR, s)"
    by (simp add: do_blktrans_all_request_def rq_nsect_def Let_def)
next
  assume acc: "\<not> dev_disable_access dev \<and> \<not> dev_writeonly dev \<and> dev_disk_capacity dev \<noteq> 0"
  let ?seg = "\<lambda>a. \<lparr>bv_page = HighPage a, bv_offset = 0, bv_len = 512\<rparr>"
  let ?r = "\<lparr>rq_tag = 0, rq_op = REQ_OP_READ, rq_pos = dev_disk_capacity dev - 1, rq_cur_bytes = 512,
    rq_data_len = 1024, rq_segs = [?seg 1, ?seg 2]\<rparr>"
  let ?T = "mtd_read_temp_buffer t"
  obtain u where u: "nand_dev_transfer log_blob dev (ucast (dev_disk_capacity dev - 1)) 2 ?T REQ_OP_READ t
      = (BLK_STS_OK, u)" "io_ftl u = io_ftl t @ [(ucast (dev_disk_capacity dev - 1) + dev_off_size dev, 2)]"
    using log_read acc by (metis prod.exhaust)
  have "do_blktrans_all_request log_blob dev ?r t
      = (BLK_STS_OK, u\<lparr>io_mem := copy_to_segs ?T [?seg 1, ?seg 2] (io_mem u)\<rparr>)"
    using u transfer_frame [OF u(1)]
    by (simp add: do_blktrans_all_request_def req_check_buffer_align_def Let_def drop_bit_eq_div)
  then show "\<exists>r. length (rq_segs r) = 2 \<and> rq_data_len r = 1024
        \<and> rq_pos r + ucast (rq_nsect r) = dev_disk_capacity dev + 1
        \<and> (\<exists>s'. do_blktrans_all_request log_blob dev r t = (BLK_STS_OK, s')
             \<and> io_ftl s' = io_ftl t @ [(ucast (rq_pos r) + dev_off_size dev, 2)])"
    using u(2) by (intro exI [of _ ?r]) (simp add: rq_nsect_def drop_bit_eq_div)
qed

section \<open>Witnesses\<close>

text \<open>
  A blob that keeps whole transfers in a map from (first sector, count) to the bytes last written,
  and a disk of 64 sectors at partition offset 8 in front of it.
\<close>

definition ram_blob :: "(u32 \<times> u32 \<Rightarrow> bytes) ftl_blob" where
  "ram_blob = \<lparr>FtlRead = (\<lambda>lun i n f. (0, f (i, n), f)),
     FtlWrite = (\<lambda>lun i n d f. (0, f((i, n) := d))),
     FtlDiscard = (\<lambda>i n f. (0, f((i, n) := [])))\<rparr>"

definition ram_dev :: nand_blk_dev where
  "ram_dev = \<lparr>dev_devnum = 0, dev_size = 64, dev_off_size = 8, dev_readonly = False,
     dev_writeonly = False, dev_disable_access = False, dev_disk_capacity = 64, dev_disk_ro = False\<rparr>"

definition ram_io :: "(u32 \<times> u32 \<Rightarrow> bytes) nand_io" where
  "ram_io = \<lparr>io_mem = (\<lambda>_. 7), io_ftl = (\<lambda>_. replicate 512 9), mtd_read_temp_buffer = 4096,
     totle_read_data = 0, totle_write_data = 0, totle_read_count = 0, totle_write_count = 0,
     rk_ftl_gc_do = True, ops_mutex = False, rq_list = [], rq_completed = []\<rparr>"

definition ram_rq :: "nat \<Rightarrow> req_op \<Rightarrow> bio_vec list \<Rightarrow> request" where
  "ram_rq t op segs = \<lparr>rq_tag = t, rq_op = op, rq_pos = 16, rq_cur_bytes = 512, rq_data_len = 512,
     rq_segs = segs\<rparr>"

definition high_segs :: "bio_vec list" where
  "high_segs = [\<lparr>bv_page = HighPage 1, bv_offset = 0, bv_len = 256\<rparr>,
     \<lparr>bv_page = HighPage 2, bv_offset = 64, bv_len = 256\<rparr>]"

definition low_segs :: "bio_vec list" where
  "low_segs = [\<lparr>bv_page = LowPage 1024, bv_offset = 0, bv_len = 512\<rparr>]"

lemmas ram_simps = ram_blob_def ram_dev_def ram_io_def ram_rq_def

lemma high_segs_locs:
  "segs_locs high_segs = map (\<lambda>i. High 1 i) [0..<256] @ map (\<lambda>i. High 2 (64 + i)) [0..<256]"
  by (simp add: high_segs_def seg_locs_def)

lemma low_segs_locs: "segs_locs low_segs = buf_locs 1024 512"
  by (simp add: low_segs_def seg_locs_low)

lemma ram_rq_wf:
  "rq_wf (ram_io\<lparr>io_mem := m, io_ftl := f\<rparr>) (ram_rq t op high_segs)"
  "rq_wf (ram_io\<lparr>io_mem := m, io_ftl := f\<rparr>) (ram_rq t op low_segs)"
proof -
  have "segs_len high_segs = 512" "segs_len low_segs = 512"
    by (simp_all add: high_segs_def low_segs_def)
  moreover have "distinct (segs_locs high_segs)"
    by (auto simp: high_segs_locs distinct_map inj_on_def)
  ultimately show "rq_wf (ram_io\<lparr>io_mem := m, io_ftl := f\<rparr>) (ram_rq t op high_segs)"
    "rq_wf (ram_io\<lparr>io_mem := m, io_ftl := f\<rparr>) (ram_rq t op low_segs)"
    unfolding rq_wf_def
    by (auto simp: ram_io_def ram_rq_def MTD_RW_SECTORS_def high_segs_locs low_segs_locs buf_locs_def
        distinct_map inj_on_def)
qed

lemma ram_rq_shape: "rq_in_range ram_dev (ram_rq t op segs)" "rq_nsect (ram_rq t op segs) = 1"
  "rq_op (ram_rq t op segs) = op" "rq_segs (ram_rq t op segs) = segs" "rq_pos (ram_rq t op segs) = 16"
  "rq_data_len (ram_rq t op segs) = 512" "rq_tag (ram_rq t op segs) = t"
  by (simp_all add: rq_in_range_def rq_nsect_def ram_dev_def ram_rq_def drop_bit_eq_div)

lemma ram_persists: "ftl_persists ram_blob"
  by (auto simp: ftl_persists_def ram_blob_def)

theorem read_request_delivers_witness:
  "\<exists>s'. rk_nand_queue_rq ram_blob (\<lambda>_ _. False) (Some ram_dev) [] (ram_rq 3 REQ_OP_READ high_segs) ram_io
       = Some (BLK_STS_OK, s')
    \<and> rq_completed s' = [(3, BLK_STS_OK)] \<and> map (io_mem s') (segs_locs high_segs) = replicate 512 9"
  using read_request_delivers [of ram_io "\<lambda>_ _. False" "ram_rq 3 REQ_OP_READ high_segs" ram_dev ram_blob
      "replicate 512 9" "\<lambda>_. replicate 512 9"] ram_rq_wf(1) [where m = "\<lambda>_. 7" and f = "\<lambda>_. replicate 512 9"]
  by (simp add: ram_rq_shape) (auto simp: ram_simps)

lemma const_segs: "map (\<lambda>_. c) (segs_locs segs) = replicate (segs_len segs) c"
  by (simp add: map_replicate_const length_segs_locs)

lemma ram_fields [simp]: "io_mem ram_io = (\<lambda>_. 7)" "io_ftl ram_io = (\<lambda>_. replicate 512 9)"
  "\<not> ops_mutex ram_io" "rq_list ram_io = []" "rq_completed ram_io = []"
  "dev_off_size ram_dev = 8" "\<not> dev_disable_access ram_dev" "\<not> dev_readonly ram_dev"
  "\<not> dev_writeonly ram_dev" "segs_len high_segs = 512" "segs_len low_segs = 512"
  "rq_wf ram_io (ram_rq t op high_segs)" "rq_wf ram_io (ram_rq t op low_segs)"
  using ram_rq_wf [where m = "\<lambda>_. 7" and f = "\<lambda>_. replicate 512 9" and t = t and op = op]
  by (simp_all add: ram_io_def ram_dev_def high_segs_def low_segs_def)

theorem write_request_passes_witness:
  "\<exists>s'. rk_nand_queue_rq ram_blob (\<lambda>_ _. False) (Some ram_dev) [] (ram_rq 4 REQ_OP_WRITE high_segs) ram_io
       = Some (BLK_STS_OK, s')
    \<and> rq_completed s' = [(4, BLK_STS_OK)] \<and> io_ftl s' (24, 1) = replicate 512 7"
proof -
  have "FtlWrite ram_blob 0 24 1 (replicate 512 7) (\<lambda>_. replicate 512 9)
      = (0, (\<lambda>_. replicate 512 9)((24, 1) := replicate 512 7))" by (simp add: ram_blob_def)
  then show ?thesis
    using write_request_passes [of ram_io "\<lambda>_ _. False" "ram_rq 4 REQ_OP_WRITE high_segs" ram_dev ram_blob 0
        "(\<lambda>_. replicate 512 9)((24, 1) := replicate 512 7)"]
    by (fastforce simp add: ram_rq_shape const_segs)
qed

theorem write_read_roundtrip_witness:
  "\<exists>s1 s2. do_blktrans_all_request ram_blob ram_dev (ram_rq 1 REQ_OP_WRITE high_segs) ram_io = (BLK_STS_OK, s1)
    \<and> do_blktrans_all_request ram_blob ram_dev (ram_rq 2 REQ_OP_READ low_segs) s1 = (BLK_STS_OK, s2)
    \<and> map (io_mem s2) (segs_locs low_segs) = replicate 512 7"
proof -
  obtain s1 where s1: "do_blktrans_all_request ram_blob ram_dev (ram_rq 1 REQ_OP_WRITE high_segs) ram_io
      = (BLK_STS_OK, s1)"
    using write_request_exec [of ram_io "ram_rq 1 REQ_OP_WRITE high_segs" ram_dev ram_blob 0]
    by (force simp: ram_rq_shape const_segs ram_blob_def)
  show ?thesis
    using write_read_roundtrip [of ram_blob ram_io "ram_rq 1 REQ_OP_WRITE high_segs" ram_dev
        "ram_rq 2 REQ_OP_READ low_segs" s1] s1 ram_persists
    by (fastforce simp: ram_rq_shape const_segs)
qed


theorem disable_write_blocks_witness:
  "\<exists>dev'. rknand_ioctl DISABLE_WRITE ram_dev = (0, dev')
    \<and> fst (do_blktrans_all_request ram_blob dev' (ram_rq 1 REQ_OP_WRITE low_segs) ram_io) = BLK_STS_IOERR
    \<and> io_ftl (snd (do_blktrans_all_request ram_blob (dev'\<lparr>dev_disable_access := True\<rparr>)
         (ram_rq 2 REQ_OP_DISCARD []) ram_io)) (16, 1) = []"
  using disable_write_blocks [where dev = ram_dev and r = 0
      and dev' = "ram_dev\<lparr>dev_readonly := True, dev_disk_ro := True\<rparr>"
      and req = "ram_rq 1 REQ_OP_WRITE low_segs" and F = ram_blob and s = ram_io]
    disable_write_blocks [where dev = ram_dev and r = 0
      and dev' = "ram_dev\<lparr>dev_readonly := True, dev_disk_ro := True\<rparr>"
      and req = "ram_rq 2 REQ_OP_DISCARD []" and F = ram_blob and s = ram_io]
  by (auto simp: ram_rq_shape) (auto simp: ram_blob_def ram_rq_def drop_bit_eq_div)

theorem capacity_check_first_segment_witness:
  "\<exists>r s'. rq_pos r + ucast (rq_nsect r) = 65 \<and> length (rq_segs r) = 2
    \<and> do_blktrans_all_request log_blob ram_dev r
        \<lparr>io_mem = (\<lambda>_. 7), io_ftl = [], mtd_read_temp_buffer = 4096,
         totle_read_data = 0, totle_write_data = 0, totle_read_count = 0, totle_write_count = 0,
         rk_ftl_gc_do = True, ops_mutex = False, rq_list = [], rq_completed = []\<rparr> = (BLK_STS_OK, s')
    \<and> io_ftl s' = [(ucast (rq_pos r) + 8, 2)]"
  using capacity_check_first_segment [where dev = ram_dev and req = "ram_rq 0 REQ_OP_READ []"
      and F = ram_blob and s = ram_io
      and t = "\<lparr>io_mem = (\<lambda>_. 7), io_ftl = [], mtd_read_temp_buffer = 4096,
         totle_read_data = 0, totle_write_data = 0, totle_read_count = 0, totle_write_count = 0,
         rk_ftl_gc_do = True, ops_mutex = False, rq_list = [], rq_completed = []\<rparr>"]
  by (auto simp: ram_dev_def)

end
