(* ===== verification/Nand_Gc.thy ===== *)
theory Nand_Gc
  imports Nand_Io
begin

text \<open>
  \<open>rknand-port/rk_nand_blk.c\<close>, \<open>nand_gc_thread\<close>: the background thread that collects garbage
  and writes the FTL cache back while the disk is idle. The thread runs concurrently with the request
  path; a turn of its loop says what the other contexts do to the shared state around it. The
  counters are C ints, kept at their width.
\<close>

section \<open>Model\<close>

record 'f gc_blob =
  rk_ftl_garbage_collect :: "int \<Rightarrow> int \<Rightarrow> 'f \<Rightarrow> int \<times> 'f"
  rk_ftl_cache_write_back :: "'f \<Rightarrow> 'f"

datatype gc_event = Gc_collect int | Gc_write_back | Gc_wait ulong

record gc_vars =
  ftl_gc_status :: int
  req_empty_times :: "32 word"
  gc_done_times :: "32 word"
  rk_ftl_gc_jiffies :: ulong
  gc_log :: "gc_event list"

definition gc_emit :: "gc_event \<Rightarrow> gc_vars \<Rightarrow> gc_vars" where
  "gc_emit e v = v\<lparr>gc_log := gc_log v @ [e]\<rparr>"

text \<open>The branch under \<open>rknand_device_trylock()\<close>.\<close>

definition gc_collect :: "'f gc_blob \<Rightarrow> gc_vars \<Rightarrow> 'f nand_io \<Rightarrow> gc_vars \<times> 'f nand_io" where
  "gc_collect G v s =
     (let (got, s) = rknand_device_trylock s in
      if got then
        let (st, f) = rk_ftl_garbage_collect G 1 0 (io_ftl s);
            s = rknand_device_unlock (s\<lparr>io_ftl := f\<rparr>);
            v = gc_emit (Gc_collect st) (v\<lparr>ftl_gc_status := st, rk_ftl_gc_jiffies := HZ div 50\<rparr>)
        in if st = 0 then
             let v = v\<lparr>gc_done_times := gc_done_times v + 1\<rparr>
             in (v\<lparr>rk_ftl_gc_jiffies := if sint (gc_done_times v) > 10 then 10 * HZ else 1 * HZ\<rparr>, s)
           else (v\<lparr>gc_done_times := 0\<rparr>, s)
      else (v\<lparr>rk_ftl_gc_jiffies := 1 * HZ\<rparr>, s))"

text \<open>
  One turn of the loop. \<open>meanwhile\<close> is what the other contexts do between the collection and the
  moment this thread obtains the mutex for the write-back.
\<close>

definition gc_iteration ::
  "'f gc_blob \<Rightarrow> ('f nand_io \<Rightarrow> 'f nand_io) \<Rightarrow> gc_vars \<Rightarrow> 'f nand_io \<Rightarrow> (gc_vars \<times> 'f nand_io) option" where
  "gc_iteration G meanwhile v s =
     (if rk_ftl_gc_do s then
        let (v, s) = gc_collect G v s;
            v = v\<lparr>req_empty_times := req_empty_times v + 1\<rparr>;
            v = (if sint (req_empty_times v) < 10 then v\<lparr>rk_ftl_gc_jiffies := HZ div 50\<rparr> else v)
        in if sint (req_empty_times v) \<ge> 5 \<and> sint (req_empty_times v) < 7 then do {
             s \<leftarrow> rknand_device_lock (meanwhile s);
             let s = rknand_device_unlock (s\<lparr>io_ftl := rk_ftl_cache_write_back G (io_ftl s)\<rparr>);
             Some (gc_emit (Gc_wait (rk_ftl_gc_jiffies v)) (gc_emit Gc_write_back v), s) }
           else Some (gc_emit (Gc_wait (rk_ftl_gc_jiffies v)) v, s)
      else
        let v = v\<lparr>req_empty_times := 0, rk_ftl_gc_jiffies := 1 * HZ\<rparr>
        in Some (gc_emit (Gc_wait (rk_ftl_gc_jiffies v)) v, s))"

text \<open>
  The turns other contexts grant: what they do before the turn, whether \<open>nand_ops->quit\<close> is set when
  the loop condition is evaluated, and what they do before the write-back. The first component of
  the result says whether the thread has left the loop and completed \<open>thread_exit\<close>.
\<close>

record 'f gc_turn =
  turn_before :: "'f nand_io \<Rightarrow> 'f nand_io"
  turn_quit :: bool
  turn_meanwhile :: "'f nand_io \<Rightarrow> 'f nand_io"

fun nand_gc_loop ::
  "'f gc_blob \<Rightarrow> 'f gc_turn list \<Rightarrow> gc_vars \<Rightarrow> 'f nand_io \<Rightarrow> (bool \<times> gc_vars \<times> 'f nand_io) option" where
  "nand_gc_loop G [] v s = Some (False, v, s)"
| "nand_gc_loop G (t # ts) v s =
     (let s = turn_before t s in
      if turn_quit t then Some (True, v, s)
      else case gc_iteration G (turn_meanwhile t) v s of
             None \<Rightarrow> None
           | Some (v, s) \<Rightarrow> nand_gc_loop G ts v s)"

definition gc_start :: gc_vars where
  "gc_start = \<lparr>ftl_gc_status = 0, req_empty_times = 0, gc_done_times = 0,
     rk_ftl_gc_jiffies = HZ div 10, gc_log = []\<rparr>"

definition nand_gc_thread ::
  "'f gc_blob \<Rightarrow> 'f gc_turn list \<Rightarrow> 'f nand_io \<Rightarrow> (bool \<times> gc_vars \<times> 'f nand_io) option" where
  "nand_gc_thread G ts s = nand_gc_loop G ts gc_start (s\<lparr>rk_ftl_gc_do := True\<rparr>)"

section \<open>Specification\<close>

text \<open>The jiffies that have passed since the start of a log at each write-back in it.\<close>

fun write_back_times :: "nat \<Rightarrow> gc_event list \<Rightarrow> nat list" where
  "write_back_times t [] = []"
| "write_back_times t (Gc_wait j # es) = write_back_times (t + unat j) es"
| "write_back_times t (Gc_write_back # es) = t # write_back_times t es"
| "write_back_times t (Gc_collect st # es) = write_back_times t es"

fun waits :: "gc_event list \<Rightarrow> ulong list" where
  "waits [] = []"
| "waits (Gc_wait j # es) = j # waits es"
| "waits (e # es) = waits es"

text \<open>
  An idle turn: no request arrives and the thread is not told to quit; other contexts release the
  mutex before the write-back.
\<close>

definition idle_turn :: "'f gc_turn \<Rightarrow> bool" where
  "idle_turn t \<longleftrightarrow> \<not> turn_quit t
     \<and> (\<forall>s. rk_ftl_gc_do s \<longrightarrow> rk_ftl_gc_do (turn_before t s) \<and> rk_ftl_gc_do (turn_meanwhile t s))
     \<and> (\<forall>s. \<not> ops_mutex (turn_meanwhile t s))"

definition lock_obtained :: "'f gc_turn \<Rightarrow> bool" where
  "lock_obtained t \<longleftrightarrow> (\<forall>s. \<not> ops_mutex (turn_meanwhile t s))"

section \<open>Lemmas\<close>

lemma sint_small: "n < 2 ^ 31 \<Longrightarrow> sint (of_nat n :: 32 word) = int n"
  by (simp add: signed_of_nat signed_take_bit_int_eq_self)

lemma collect_frame:
  assumes "gc_collect G v s = (v', s')"
  shows "req_empty_times v' = req_empty_times v" "rk_ftl_gc_do s' = rk_ftl_gc_do s"
    "ops_mutex s' = ops_mutex s"
    "\<exists>es. gc_log v' = gc_log v @ es \<and> set es \<subseteq> range Gc_collect"
    "rk_ftl_gc_jiffies v' \<in> {HZ div 50, HZ, 10 * HZ}"
  using assms
  by (auto simp: gc_collect_def gc_emit_def rknand_device_trylock_def rknand_device_unlock_def Let_def
      split: if_splits prod.splits)

lemma wb_times_collect: "set es \<subseteq> range Gc_collect \<Longrightarrow> write_back_times t (es @ fs) = write_back_times t fs"
  by (induction es) auto

lemma waits_append: "waits (es @ fs) = waits es @ waits fs"
  by (induction es rule: waits.induct) auto

lemma waits_collect: "set es \<subseteq> range Gc_collect \<Longrightarrow> waits es = []"
  by (induction es) auto

text \<open>The events of one turn with \<open>rk_ftl_gc_do\<close> set, when the turn ends the \<open>k\<close>-th in a row.\<close>

lemma idle_iteration:
  assumes do: "rk_ftl_gc_do s" and k: "req_empty_times v + 1 = of_nat k" "k < 2 ^ 31"
    and m: "\<And>s. \<not> ops_mutex (meanwhile s)"
  shows "\<exists>v' s' es j. gc_iteration G meanwhile v s = Some (v', s') \<and> req_empty_times v' = of_nat k
    \<and> gc_log v' = gc_log v @ es @ (if k = 5 \<or> k = 6 then [Gc_write_back] else []) @ [Gc_wait j]
    \<and> set es \<subseteq> range Gc_collect \<and> (k < 10 \<longrightarrow> j = 5) \<and> j \<in> {5, 250, 2500}
    \<and> ((\<forall>s. rk_ftl_gc_do s \<longrightarrow> rk_ftl_gc_do (meanwhile s)) \<longrightarrow> rk_ftl_gc_do s')"
proof -
  obtain v1 s1 where c: "gc_collect G v s = (v1, s1)" by fastforce
  note f = collect_frame [OF c]
  obtain es where es: "gc_log v1 = gc_log v @ es" "set es \<subseteq> range Gc_collect" using f(4) by blast
  have r: "req_empty_times v1 + 1 = of_nat k" using f(1) k(1) by simp
  let ?j = "if k < 10 then 5 else rk_ftl_gc_jiffies v1"
  let ?v2 = "v1\<lparr>req_empty_times := of_nat k, rk_ftl_gc_jiffies := ?j\<rparr>"
  have v2: "(if sint (of_nat k :: 32 word) < 10
      then v1\<lparr>req_empty_times := of_nat k, rk_ftl_gc_jiffies := HZ div 50\<rparr>
      else v1\<lparr>req_empty_times := of_nat k\<rparr>) = ?v2"
    using k(2) by (simp add: sint_small HZ_def)
  have j: "?j \<in> {5, 250, 2500}" using f(5) by (auto simp: HZ_def)
  show ?thesis
  proof (cases "k = 5 \<or> k = 6")
    case True
    let ?s2 = "(meanwhile s1)\<lparr>ops_mutex := True\<rparr>"
    let ?s3 = "?s2\<lparr>io_ftl := rk_ftl_cache_write_back G (io_ftl ?s2), ops_mutex := False\<rparr>"
    have "gc_iteration G meanwhile v s
        = Some (gc_emit (Gc_wait 5) (gc_emit Gc_write_back ?v2), ?s3)"
      using do c r v2 k(2) True m [of s1]
      by (auto simp: gc_iteration_def Let_def sint_small rknand_device_lock_def rknand_device_unlock_def
          HZ_def)
    then show ?thesis
      using es True do f(2)
      by (intro exI [of _ "gc_emit (Gc_wait 5) (gc_emit Gc_write_back ?v2)"] exI [of _ ?s3]
          exI [of _ es] exI [of _ 5]) (auto simp: gc_emit_def)
  next
    case False
    then have "gc_iteration G meanwhile v s = Some (gc_emit (Gc_wait ?j) ?v2, s1)"
      using do c r v2 k(2)
      by (auto simp: gc_iteration_def Let_def sint_small HZ_def)
    then show ?thesis
      using es False do f(2) j
      by (intro exI [of _ "gc_emit (Gc_wait ?j) ?v2"] exI [of _ s1] exI [of _ es] exI [of _ ?j])
         (auto simp: gc_emit_def)
  qed
qed

text \<open>The write-backs of turns \<open>k + 1, ..., k + n\<close> of an idle run, if turn \<open>k + 1\<close> starts at time \<open>T\<close>.\<close>

fun idle_write_backs :: "nat \<Rightarrow> nat \<Rightarrow> nat \<Rightarrow> nat list" where
  "idle_write_backs T k 0 = []"
| "idle_write_backs T k (Suc n) =
     (if Suc k = 5 \<or> Suc k = 6 then [T] else []) @ idle_write_backs (T + 5) (Suc k) n"

lemma idle_write_backs_late: "6 \<le> k \<Longrightarrow> idle_write_backs T k n = []"
  by (induction n arbitrary: T k) auto

lemma idle_write_backs_Suc:
  assumes "Suc k < 10 \<longrightarrow> j = 5"
  shows "idle_write_backs T k (Suc n)
    = (if Suc k = 5 \<or> Suc k = 6 then [T] else []) @ idle_write_backs (T + j) (Suc k) n"
  using assms idle_write_backs_late [of "Suc k"] by (cases "Suc k < 10") auto

lemma idle_write_backs_0: "idle_write_backs 0 0 n = take (n - 4) [20, 25]"
proof (cases "n < 6")
  case True
  then have "n \<in> {0, 1, 2, 3, 4, 5}" by auto
  then show ?thesis by (auto simp: eval_nat_numeral)
next
  case False
  then have "\<exists>m. n = 6 + m" by presburger
  then obtain m where "n = Suc (Suc (Suc (Suc (Suc (Suc m)))))"
    by (auto simp: eval_nat_numeral)
  then show ?thesis by (simp add: idle_write_backs_late)
qed

lemma idle_loop:
  assumes "\<forall>t \<in> set ts. idle_turn t" "rk_ftl_gc_do s" "req_empty_times v = of_nat k" "k + length ts < 2 ^ 31"
  shows "\<exists>v' s' es. nand_gc_loop G ts v s = Some (False, v', s') \<and> gc_log v' = gc_log v @ es
    \<and> rk_ftl_gc_do s' \<and> write_back_times T es = idle_write_backs T k (length ts)
    \<and> length (waits es) = length ts \<and> set (waits es) \<subseteq> {5, 250, 2500}"
  using assms
proof (induction ts arbitrary: v s k T)
  case Nil
  then show ?case by simp
next
  case (Cons t ts)
  then have t: "\<not> turn_quit t" "rk_ftl_gc_do (turn_before t s)" "\<And>s. \<not> ops_mutex (turn_meanwhile t s)"
    "\<forall>s. rk_ftl_gc_do s \<longrightarrow> rk_ftl_gc_do (turn_meanwhile t s)"
    by (auto simp: idle_turn_def)
  have k: "req_empty_times v + 1 = of_nat (Suc k)" "Suc k < 2 ^ 31" using Cons.prems by auto
  from idle_iteration [where meanwhile = "turn_meanwhile t" and G = G, OF t(2) k t(3)]
  obtain v1 s1 es j where it: "gc_iteration G (turn_meanwhile t) v (turn_before t s) = Some (v1, s1)"
    "req_empty_times v1 = of_nat (Suc k)"
    "gc_log v1 = gc_log v @ es @ (if Suc k = 5 \<or> Suc k = 6 then [Gc_write_back] else []) @ [Gc_wait j]"
    "set es \<subseteq> range Gc_collect" "Suc k < 10 \<longrightarrow> j = 5" "j \<in> {5, 250, 2500}" "rk_ftl_gc_do s1"
    using t(4) by blast
  have "\<forall>t \<in> set ts. idle_turn t" "Suc k + length ts < 2 ^ 31" using Cons.prems by auto
  from Cons.IH [OF this(1) it(7) it(2) this(2), of "T + unat j"]
  obtain v' s' fs where IH: "nand_gc_loop G ts v1 s1 = Some (False, v', s')" "gc_log v' = gc_log v1 @ fs"
    "rk_ftl_gc_do s'" "write_back_times (T + unat j) fs = idle_write_backs (T + unat j) (Suc k) (length ts)"
    "length (waits fs) = length ts" "set (waits fs) \<subseteq> {5, 250, 2500}" by blast
  have u: "Suc k < 10 \<longrightarrow> unat j = 5" using it(5) by auto
  show ?case
    using t(1) it IH idle_write_backs_Suc [OF u, of T "length ts"]
    by (intro exI [of _ v'] exI [of _ s']
        exI [of _ "es @ (if Suc k = 5 \<or> Suc k = 6 then [Gc_write_back] else []) @ [Gc_wait j] @ fs"])
       (auto simp: wb_times_collect waits_append waits_collect)
qed

lemma iteration_mutex:
  assumes "gc_iteration G meanwhile v s = Some (v', s')" "\<not> ops_mutex s"
  shows "\<not> ops_mutex s'"
  using assms collect_frame(3) [of G v s]
  by (auto simp: gc_iteration_def rknand_device_lock_def rknand_device_unlock_def Let_def
      split: if_splits prod.splits)

lemma iteration_total:
  "(\<And>s. \<not> ops_mutex (meanwhile s)) \<Longrightarrow> \<exists>v' s'. gc_iteration G meanwhile v s = Some (v', s')"
  by (auto simp: gc_iteration_def rknand_device_lock_def Let_def split: prod.splits)

lemma iteration_log:
  assumes "gc_iteration G meanwhile v s = Some (v', s')"
  shows "\<exists>es. gc_log v' = gc_log v @ es \<and> (\<exists>j \<in> {5, 250, 2500}. waits es = [j])"
proof (cases "rk_ftl_gc_do s")
  case False
  then show ?thesis using assms by (auto simp: gc_iteration_def gc_emit_def HZ_def)
next
  case True
  obtain v1 s1 where c: "gc_collect G v s = (v1, s1)" by fastforce
  note f = collect_frame [OF c]
  obtain es where es: "gc_log v1 = gc_log v @ es" "waits es = []" using f(4) waits_collect by blast
  let ?v2 = "v1\<lparr>req_empty_times := req_empty_times v1 + 1\<rparr>"
  let ?v3 = "if sint (req_empty_times ?v2) < 10 then ?v2\<lparr>rk_ftl_gc_jiffies := HZ div 50\<rparr> else ?v2"
  have j: "rk_ftl_gc_jiffies ?v3 \<in> {5, 250, 2500}" using f(5) by (auto simp: HZ_def)
  have l: "gc_log ?v3 = gc_log v @ es" using es by simp
  have "v' = gc_emit (Gc_wait (rk_ftl_gc_jiffies ?v3)) (gc_emit Gc_write_back ?v3)
      \<or> v' = gc_emit (Gc_wait (rk_ftl_gc_jiffies ?v3)) ?v3"
    using assms True unfolding gc_iteration_def c
    by (simp add: Let_def split: if_split_asm bind_split_asm)
  then show ?thesis
  proof
    assume "v' = gc_emit (Gc_wait (rk_ftl_gc_jiffies ?v3)) (gc_emit Gc_write_back ?v3)"
    then have "gc_log v' = gc_log v @ es @ [Gc_write_back, Gc_wait (rk_ftl_gc_jiffies ?v3)]"
      using l by (simp add: gc_emit_def)
    then show ?thesis using j es(2) by (intro exI conjI) (assumption, simp add: waits_append)
  next
    assume "v' = gc_emit (Gc_wait (rk_ftl_gc_jiffies ?v3)) ?v3"
    then have "gc_log v' = gc_log v @ es @ [Gc_wait (rk_ftl_gc_jiffies ?v3)]"
      using l by (simp add: gc_emit_def)
    then show ?thesis using j es(2) by (intro exI conjI) (assumption, simp add: waits_append)
  qed
qed

lemma loop_exits:
  assumes "\<forall>t \<in> set ts. lock_obtained t" "\<exists>t \<in> set ts. turn_quit t"
  shows "\<exists>v' s' es. nand_gc_loop G ts v s = Some (True, v', s') \<and> gc_log v' = gc_log v @ es
    \<and> set (waits es) \<subseteq> {5, 250, 2500} \<and> length (waits es) = length (takeWhile (\<lambda>t. \<not> turn_quit t) ts)"
  using assms
proof (induction ts arbitrary: v s)
  case Nil
  then show ?case by simp
next
  case (Cons t ts)
  show ?case
  proof (cases "turn_quit t")
    case True
    then show ?thesis by (auto simp: Let_def)
  next
    case False
    then have q: "\<forall>t \<in> set ts. lock_obtained t" "\<exists>t \<in> set ts. turn_quit t" using Cons.prems by auto
    obtain v1 s1 where it: "gc_iteration G (turn_meanwhile t) v (turn_before t s) = Some (v1, s1)"
      using iteration_total [of "turn_meanwhile t" G v "turn_before t s"] Cons.prems(1)
      by (auto simp: lock_obtained_def)
    obtain es j where es: "gc_log v1 = gc_log v @ es" "j \<in> {5, 250, 2500}" "waits es = [j]"
      using iteration_log [OF it] by blast
    obtain v' s' fs where fs: "nand_gc_loop G ts v1 s1 = Some (True, v', s')" "gc_log v' = gc_log v1 @ fs"
      "set (waits fs) \<subseteq> {5, 250, 2500}" "length (waits fs) = length (takeWhile (\<lambda>t. \<not> turn_quit t) ts)"
      using Cons.IH [OF q] by blast
    have "gc_log v' = gc_log v @ es @ fs" "waits (es @ fs) = j # waits fs"
      using es fs(2) by (simp_all add: waits_append)
    then show ?thesis
      using False it fs(1,3,4) es(2) by (intro exI [of _ v'] exI [of _ s'] exI [of _ "es @ fs"]) simp
  qed
qed

section \<open>Properties\<close>


text \<open>
  The GC thread gives way to requests. A turn that finds \<open>rk_ftl_gc_do\<close> cleared touches neither
  the FTL nor the mutex, resets the idle counter and sleeps one second; a turn that finds the mutex
  held skips the collection, and only the two write-back turns wait for the mutex. Every turn leaves a
  free mutex free.
\<close>

theorem gc_yields_to_requests:
  "(\<not> rk_ftl_gc_do s \<longrightarrow> gc_iteration G m v s
      = Some (v\<lparr>req_empty_times := 0, rk_ftl_gc_jiffies := 250, gc_log := gc_log v @ [Gc_wait 250]\<rparr>, s))
   \<and> (rk_ftl_gc_do s \<and> ops_mutex s \<and> sint (req_empty_times v + 1) \<notin> {5, 6} \<longrightarrow>
      (\<exists>v' j. gc_iteration G m v s = Some (v', s) \<and> gc_log v' = gc_log v @ [Gc_wait j]
         \<and> req_empty_times v' = req_empty_times v + 1))
   \<and> (\<not> ops_mutex s \<and> gc_iteration G m v s = Some (v2, s2) \<longrightarrow> \<not> ops_mutex s2)"
proof (intro conjI impI)
  assume "\<not> rk_ftl_gc_do s"
  then show "gc_iteration G m v s
      = Some (v\<lparr>req_empty_times := 0, rk_ftl_gc_jiffies := 250, gc_log := gc_log v @ [Gc_wait 250]\<rparr>, s)"
    by (simp add: gc_iteration_def gc_emit_def HZ_def)
next
  assume a: "rk_ftl_gc_do s \<and> ops_mutex s \<and> sint (req_empty_times v + 1) \<notin> {5, 6}"
  then have "gc_collect G v s = (v\<lparr>rk_ftl_gc_jiffies := HZ\<rparr>, s)"
    by (simp add: gc_collect_def rknand_device_trylock_def)
  then show "\<exists>v' j. gc_iteration G m v s = Some (v', s) \<and> gc_log v' = gc_log v @ [Gc_wait j]
         \<and> req_empty_times v' = req_empty_times v + 1"
    using a by (auto simp: gc_iteration_def gc_emit_def Let_def)
next
  assume "\<not> ops_mutex s \<and> gc_iteration G m v s = Some (v2, s2)"
  then show "\<not> ops_mutex s2" using iteration_mutex by blast
qed

text \<open>
  C29: the GC thread can always be joined. If it obtains the mutex whenever it waits for it and
  \<open>quit\<close> is set at some turn, it leaves the loop at the first such turn and completes \<open>thread_exit\<close>;
  until then it sleeps once per turn, for 20 ms, 1 s or 10 s, never without a timeout.
\<close>

theorem gc_thread_exits:
  assumes "\<forall>t \<in> set ts. lock_obtained t" "\<exists>t \<in> set ts. turn_quit t"
  shows "\<exists>v' s'. nand_gc_thread G ts s = Some (True, v', s') \<and> set (waits (gc_log v')) \<subseteq> {5, 250, 2500}
    \<and> length (waits (gc_log v')) = length (takeWhile (\<lambda>t. \<not> turn_quit t) ts)"
  using loop_exits [OF assms, of G gc_start "s\<lparr>rk_ftl_gc_do := True\<rparr>"]
  by (auto simp: nand_gc_thread_def gc_start_def)

section \<open>Witnesses\<close>

definition demo_turn :: "nat gc_turn" where
  "demo_turn = \<lparr>turn_before = (\<lambda>s. s), turn_quit = False, turn_meanwhile = (\<lambda>s. s\<lparr>ops_mutex := False\<rparr>)\<rparr>"

definition demo_gc :: "nat gc_blob" where
  "demo_gc = \<lparr>rk_ftl_garbage_collect = (\<lambda>_ _ n. (0, n)), rk_ftl_cache_write_back = Suc\<rparr>"

definition demo_io :: "nat nand_io" where
  "demo_io = \<lparr>io_mem = (\<lambda>_. 0), io_ftl = 0, mtd_read_temp_buffer = 4096,
     totle_read_data = 0, totle_write_data = 0, totle_read_count = 0, totle_write_count = 0,
     rk_ftl_gc_do = True, ops_mutex = False, rq_list = [], rq_completed = []\<rparr>"


theorem gc_yields_to_requests_witness:
  "gc_iteration demo_gc (\<lambda>s. s) gc_start (demo_io\<lparr>rk_ftl_gc_do := False\<rparr>)
    = Some (gc_start\<lparr>req_empty_times := 0, rk_ftl_gc_jiffies := 250, gc_log := [Gc_wait 250]\<rparr>,
        demo_io\<lparr>rk_ftl_gc_do := False\<rparr>)"
  using gc_yields_to_requests [of "demo_io\<lparr>rk_ftl_gc_do := False\<rparr>" demo_gc "\<lambda>s. s" gc_start]
  by (simp add: gc_start_def)

theorem gc_thread_exits_witness:
  "\<exists>v' s'. nand_gc_thread demo_gc [demo_turn, demo_turn, demo_turn\<lparr>turn_quit := True\<rparr>] demo_io
    = Some (True, v', s') \<and> length (waits (gc_log v')) = 2"
  using gc_thread_exits [of "[demo_turn, demo_turn, demo_turn\<lparr>turn_quit := True\<rparr>]" demo_gc demo_io]
  by (auto simp: lock_obtained_def demo_turn_def)

end
