(* ===== verification/Nand_Provision.thy ===== *)
theory Nand_Provision
  imports Nand_Base Nand_Gc
begin

text \<open>
  \<open>rknand-port/rk_nand_blk.c\<close>, disks and provisioning: the driver's whole state, adding and removing
  a disk, and the kthread that formats a blank NAND, creates the disk and only then brings up the
  other users of the (non-reentrant) FTL blob. What the kernel answers and what the blob does are
  parameters; a log records the calls in their order.
\<close>

section \<open>State\<close>

datatype heap_obj = Heap_temp_buffer | Heap_tag_set | Heap_dev int

datatype drv_event =
    E_capacity "32 word"
  | E_reinit int
  | E_load_bbt int
  | E_make_bbt int
  | E_low_format int
  | E_msleep nat
  | E_add_disk int
  | E_del_disk int
  | E_procfs
  | E_storage_sys
  | E_vendor_init int
  | E_gc_start
  | E_gc_join
  | E_ftl_init int
  | E_ftl_de_init
  | E_write_back
  | E_nand_suspend
  | E_nand_resume

text \<open>The fields of the \<open>gendisk\<close> and its queue that the driver sets.\<close>

record gendisk =
  gd_private :: nand_blk_dev
  gd_major :: int
  gd_first_minor :: int
  gd_minors :: int
  gd_name :: string
  gd_max_hw_sectors :: nat
  gd_max_segments :: nat
  gd_max_discard_sectors :: u32
  gd_discard_granularity :: u32

text \<open>
  The statics of the two files: \<open>mytr\<close> (\<open>op_\<close>), the flags, and, with prefix \<open>k_\<close>, what the kernel
  holds for the driver. \<open>k_fault\<close> marks a free of memory that is not allocated.
\<close>

record 'f nand_drv =
  drv_base :: nand_base
  drv_io :: "'f nand_io"
  op_major :: int
  op_last_dev_index :: int
  op_quit :: bool
  op_nand_th_quited :: bool
  op_gc_task :: bool
  op_tag_set :: bool
  op_devs :: "nand_blk_dev list"
  rk_nand_dev_initialised :: bool
  rknand_provision_task :: bool
  rknand_provision_done :: bool
  rknand_gc_started :: bool
  rknand_procfs_created :: bool
  rk_nand_suspend_state :: bool
  rk_nand_shutdown_state :: bool
  k_blkdev :: bool
  k_heap :: "heap_obj list"
  k_tags :: bool
  k_disks :: "gendisk list"
  k_proc :: bool
  k_gc_running :: bool
  k_driver :: bool
  k_pm_usage :: int
  k_fault :: bool
  drv_polls :: nat
  drv_log :: "drv_event list"

definition emit :: "drv_event \<Rightarrow> 'f nand_drv \<Rightarrow> 'f nand_drv" where
  "emit e s = s\<lparr>drv_log := drv_log s @ [e]\<rparr>"

definition drv_kfree :: "heap_obj \<Rightarrow> 'f nand_drv \<Rightarrow> 'f nand_drv" where
  "drv_kfree p s = (if p \<in> set (k_heap s) then s\<lparr>k_heap := remove1 p (k_heap s)\<rparr> else s\<lparr>k_fault := True\<rparr>)"

text \<open>The entry points of the blob this part of the driver calls.\<close>

record 'f life_blob =
  rk_ftl_init :: "'f \<Rightarrow> int \<times> 'f"
  rk_ftl_de_init :: "'f \<Rightarrow> 'f"
  rk_ftl_get_capacity :: "'f \<Rightarrow> 32 word \<times> 'f"
  FtlReInitForSDUpdata :: "'f \<Rightarrow> int \<times> 'f"
  FlashLoadFactorBbt :: "'f \<Rightarrow> int \<times> 'f"
  FlashMakeFactorBbt :: "'f \<Rightarrow> int \<times> 'f"
  FtlLowFormat :: "'f \<Rightarrow> int \<times> 'f"
  rk_ftl_storage_sys_init :: "nand_base \<times> 'f \<Rightarrow> nand_base \<times> 'f"
  rk_ftl_vendor_storage_init :: "'f \<Rightarrow> int \<times> 'f"
  rk_nand_suspend :: "'f \<Rightarrow> 'f"
  rk_nand_resume :: "'f \<Rightarrow> 'f"
  cache_write_back :: "'f \<Rightarrow> 'f"

text \<open>The answers of the kernel; codes are 0 or a negative error, \<open>ke_temp_buffer\<close> is 0 for NULL.\<close>

record life_env =
  ke_dev_alloc :: bool
  ke_alloc_disk :: int
  ke_add_disk :: int
  ke_proc :: bool
  ke_misc_vendor :: int
  ke_gc_run :: int
  ke_register_blkdev :: int
  ke_temp_buffer :: nat
  ke_tag_set :: bool
  ke_alloc_tags :: int
  ke_provision_run :: int
  ke_driver_register :: int

definition set_ftl :: "'f \<Rightarrow> 'f nand_drv \<Rightarrow> 'f nand_drv" where
  "set_ftl f s = s\<lparr>drv_io := (drv_io s)\<lparr>io_ftl := f\<rparr>\<rparr>"

definition blob_call :: "('f \<Rightarrow> 'r \<times> 'f) \<Rightarrow> ('r \<Rightarrow> drv_event) \<Rightarrow> 'f nand_drv \<Rightarrow> 'r \<times> 'f nand_drv" where
  "blob_call g ev s = (let (r, f) = g (io_ftl (drv_io s)) in (r, emit (ev r) (set_ftl f s)))"

definition blob_void :: "('f \<Rightarrow> 'f) \<Rightarrow> drv_event \<Rightarrow> 'f nand_drv \<Rightarrow> 'f nand_drv" where
  "blob_void g ev s = emit ev (set_ftl (g (io_ftl (drv_io s))) s)"

text \<open>
  \<open>kthread_should_stop()\<close>: \<open>stop k\<close> is the answer to the \<open>k\<close>-th poll.
\<close>

definition kthread_should_stop :: "(nat \<Rightarrow> bool) \<Rightarrow> 'f nand_drv \<Rightarrow> bool \<times> 'f nand_drv" where
  "kthread_should_stop stop s = (stop (drv_polls s), s\<lparr>drv_polls := Suc (drv_polls s)\<rparr>)"

section \<open>Disks\<close>

definition PART_READONLY :: u8 where "PART_READONLY = 0x85"
definition PART_WRITEONLY :: u8 where "PART_WRITEONLY = 0x86"
definition PART_NO_ACCESS :: u8 where "PART_NO_ACCESS = 0x87"

record nand_part =
  part_name :: bytes
  part_offset :: ulong
  part_size :: ulong
  part_type :: u8

definition part_dev :: "int \<Rightarrow> nand_part \<Rightarrow> nand_blk_dev" where
  "part_dev idx part = \<lparr>dev_devnum = idx, dev_size = part_size part, dev_off_size = part_offset part,
     dev_readonly = (part_type part = PART_READONLY), dev_writeonly = (part_type part = PART_WRITEONLY),
     dev_disable_access = (part_type part = PART_NO_ACCESS),
     dev_disk_capacity = ucast (part_size part), dev_disk_ro = (part_type part = PART_READONLY)\<rparr>"

definition dev_disk :: "int \<Rightarrow> nand_blk_dev \<Rightarrow> gendisk" where
  "dev_disk major dev = \<lparr>gd_private = dev, gd_major = major, gd_first_minor = dev_devnum dev, gd_minors = 255,
     gd_name = ''rknand'' @ dec_string (dev_devnum dev), gd_max_hw_sectors = MTD_RW_SECTORS,
     gd_max_segments = MTD_RW_SECTORS, gd_max_discard_sectors = drop_bit 9 (- 1),
     gd_discard_granularity = push_bit 9 64\<rparr>"

definition nand_add_dev :: "life_env \<Rightarrow> nand_part \<Rightarrow> 'f nand_drv \<Rightarrow> int \<times> 'f nand_drv" where
  "nand_add_dev K part s =
     (if part_size part = 0 then (- 1, s)
      else if \<not> ke_dev_alloc K then (- ENOMEM, s)
      else
        let idx = op_last_dev_index s;
            s = s\<lparr>k_heap := Heap_dev idx # k_heap s\<rparr>
        in if ke_alloc_disk K \<noteq> 0 then (ke_alloc_disk K, drv_kfree (Heap_dev idx) s)
           else
             let dev = part_dev idx part;
                 s = s\<lparr>op_devs := op_devs s @ [dev], op_last_dev_index := op_last_dev_index s + 1\<rparr>;
                 s = emit (E_add_disk (ke_add_disk K)) s
             in if ke_add_disk K \<noteq> 0
                then (ke_add_disk K, drv_kfree (Heap_dev idx) (s\<lparr>op_devs := remove1 dev (op_devs s)\<rparr>))
                else (0, s\<lparr>k_disks := k_disks s @ [dev_disk (op_major s) dev]\<rparr>))"

definition nand_remove_dev :: "nand_blk_dev \<Rightarrow> 'f nand_drv \<Rightarrow> 'f nand_drv" where
  "nand_remove_dev dev s =
     (let s = s\<lparr>op_devs := remove1 dev (op_devs s)\<rparr>;
          s = emit (E_del_disk (dev_devnum dev)) (s\<lparr>k_disks := filter (\<lambda>gd. gd_private gd \<noteq> dev) (k_disks s)\<rparr>)
      in drv_kfree (Heap_dev (dev_devnum dev)) s)"

definition rknand_create_procfs :: "life_env \<Rightarrow> 'f nand_drv \<Rightarrow> int \<times> 'f nand_drv" where
  "rknand_create_procfs K s = (if \<not> ke_proc K then (- 1, s) else (0, emit E_procfs (s\<lparr>k_proc := True\<rparr>)))"

text \<open>
  The counters of \<open>/proc/rknand\<close>: sectors shown as KB, the two counts as they are, after the text
  the blob writes.
\<close>

definition rknand_proc_show :: "'f nand_io \<Rightarrow> (string \<times> ulong) list" where
  "rknand_proc_show s =
     [(''Totle Read'', drop_bit 1 (totle_read_data s)), (''Totle Write'', drop_bit 1 (totle_write_data s)),
      (''totle_write_count'', totle_write_count s), (''totle_read_count'', totle_read_count s)]"

section \<open>The provision thread\<close>

definition get_capacity :: "'f life_blob \<Rightarrow> 'f nand_drv \<Rightarrow> 32 word \<times> 'f nand_drv" where
  "get_capacity B = blob_call (rk_ftl_get_capacity B) E_capacity"

definition provision_lowformat ::
  "'f life_blob \<Rightarrow> (nat \<Rightarrow> bool) \<Rightarrow> 'f nand_drv \<Rightarrow> 32 word \<times> 'f nand_drv" where
  "provision_lowformat B stop s =
     (let (lb, s) = blob_call (FlashLoadFactorBbt B) E_load_bbt s;
          (st, s) = (if lb \<noteq> 0 then kthread_should_stop stop s else (True, s));
          (lb, s) = (if lb \<noteq> 0 \<and> \<not> st then blob_call (FlashMakeFactorBbt B) E_make_bbt s else (lb, s));
          (st, s) = kthread_should_stop stop s
      in if \<not> st then
           let (lf, s) = blob_call (FtlLowFormat B) E_low_format s in get_capacity B s
         else (0, s))"

definition provision_blank ::
  "'f life_blob \<Rightarrow> (nat \<Rightarrow> bool) \<Rightarrow> 'f nand_drv \<Rightarrow> 32 word \<times> 'f nand_drv" where
  "provision_blank B stop s =
     (let (fmt, s) = blob_call (FtlReInitForSDUpdata B) E_reinit s;
          (cap2, s) = get_capacity B s
      in if cap2 = 0 then
           let (st, s) = kthread_should_stop stop s
           in if \<not> st then provision_lowformat B stop s else (cap2, s)
         else (cap2, s))"

text \<open>\<open>n\<close> is the number of attempts left (the loop runs \<open>attempt\<close> from 1 to 10).\<close>

fun capacity_retry ::
  "'f life_blob \<Rightarrow> (nat \<Rightarrow> bool) \<Rightarrow> nat \<Rightarrow> 32 word \<Rightarrow> 'f nand_drv \<Rightarrow> 32 word \<times> 'f nand_drv" where
  "capacity_retry B stop 0 cap s = (cap, s)"
| "capacity_retry B stop (Suc n) cap s =
     (if cap = 0 then
        let (st, s) = kthread_should_stop stop s
        in if \<not> st then
             let (cap, s) = get_capacity B (emit (E_msleep 100) s) in capacity_retry B stop n cap s
           else (cap, s)
      else (cap, s))"

definition provision_capacity ::
  "'f life_blob \<Rightarrow> (nat \<Rightarrow> bool) \<Rightarrow> 'f nand_drv \<Rightarrow> 32 word \<times> 'f nand_drv" where
  "provision_capacity B stop s =
     (let (cap, s) = get_capacity B s;
          (cap, s) = (if cap = 0 then
                        let (st, s) = kthread_should_stop stop s
                        in if \<not> st then provision_blank B stop s else (cap, s)
                      else (cap, s))
      in capacity_retry B stop 10 cap s)"

text \<open>From \<open>rknand_create_procfs\<close> to the start of the GC thread.\<close>

definition provision_services :: "life_env \<Rightarrow> 'f life_blob \<Rightarrow> 'f nand_drv \<Rightarrow> 'f nand_drv" where
  "provision_services K B s =
     (let (r, s) = rknand_create_procfs K s;
          s = (if r = 0 then s\<lparr>rknand_procfs_created := True\<rparr> else s);
          (b, f) = rk_ftl_storage_sys_init B (drv_base s, io_ftl (drv_io s));
          s = emit E_storage_sys (set_ftl f (s\<lparr>drv_base := b\<rparr>));
          (ret, s) = blob_call (rk_ftl_vendor_storage_init B) E_vendor_init s;
          s = (if ret = 0
               then s\<lparr>drv_base := snd (rknand_vendor_storage_init (ke_misc_vendor K) (drv_base s))\<rparr> else s);
          s = s\<lparr>op_quit := False, op_nand_th_quited := False\<rparr>
      in if ke_gc_run K \<noteq> 0 then s\<lparr>op_gc_task := False\<rparr>
         else emit E_gc_start (s\<lparr>op_gc_task := True, k_gc_running := True, rknand_gc_started := True\<rparr>))"

definition provision_work ::
  "life_env \<Rightarrow> 'f life_blob \<Rightarrow> (nat \<Rightarrow> bool) \<Rightarrow> 'f nand_drv \<Rightarrow> 'f nand_drv" where
  "provision_work K B stop s =
     (let (cap, s) = provision_capacity B stop s;
          part = \<lparr>part_name = replicate 32 0, part_offset = 0, part_size = cap, part_type = 0\<rparr>
      in if cap = 0 then s
         else let (st, s) = kthread_should_stop stop s
           in if st then s
              else let (ret, s) = nand_add_dev K part s
                in if ret \<noteq> 0 then s else provision_services K B s)"

text \<open>The final loop; \<open>None\<close> is a thread that is never told to stop.\<close>

partial_function (option) provision_idle :: "(nat \<Rightarrow> bool) \<Rightarrow> 'f nand_drv \<Rightarrow> 'f nand_drv option" where
  "provision_idle stop s =
     (let (st, s) = kthread_should_stop stop s
      in if st then Some s else provision_idle stop (emit (E_msleep 200) s))"

definition rknand_provision_thread ::
  "life_env \<Rightarrow> 'f life_blob \<Rightarrow> (nat \<Rightarrow> bool) \<Rightarrow> 'f nand_drv \<Rightarrow> 'f nand_drv option" where
  "rknand_provision_thread K B stop s =
     provision_idle stop ((provision_work K B stop s)\<lparr>rknand_provision_done := True\<rparr>)"

section \<open>Specification\<close>

fun is_format :: "drv_event \<Rightarrow> bool" where
  "is_format (E_capacity _) = True"
| "is_format (E_reinit _) = True"
| "is_format (E_load_bbt _) = True"
| "is_format (E_make_bbt _) = True"
| "is_format (E_low_format _) = True"
| "is_format (E_msleep _) = True"
| "is_format _ = False"

fun is_service :: "drv_event \<Rightarrow> bool" where
  "is_service E_procfs = True"
| "is_service E_storage_sys = True"
| "is_service (E_vendor_init _) = True"
| "is_service E_gc_start = True"
| "is_service _ = False"

text \<open>
  A stretch of the thread that only works on the blob, polls and sleeps, and the calls it makes.
\<close>

definition ftl_phase :: "drv_event list \<Rightarrow> 'f nand_drv \<Rightarrow> 'f nand_drv \<Rightarrow> bool" where
  "ftl_phase es s s' \<longleftrightarrow> (\<exists>f p. s' = s\<lparr>drv_io := (drv_io s)\<lparr>io_ftl := f\<rparr>, drv_polls := p,
     drv_log := drv_log s @ es\<rparr>)"

text \<open>A stop request is not withdrawn.\<close>

definition stop_persists :: "(nat \<Rightarrow> bool) \<Rightarrow> bool" where
  "stop_persists stop \<longleftrightarrow> (\<forall>i j. i \<le> j \<longrightarrow> stop i \<longrightarrow> stop j)"

text \<open>
  What provisioning a blank NAND may do, call by call: reinitialise; only if that leaves capacity 0
  load the factory bad-block table, make one when loading failed, and only then low-format.
\<close>

inductive low_format_protocol :: "drv_event list \<Rightarrow> bool" where
  lf_stopped: "low_format_protocol [E_load_bbt lb]"
| lf_made: "lb \<noteq> 0 \<Longrightarrow> low_format_protocol [E_load_bbt lb, E_make_bbt r]"
| lf_loaded: "low_format_protocol [E_load_bbt 0, E_low_format q, E_capacity c]"
| lf_made_formatted: "lb \<noteq> 0 \<Longrightarrow> low_format_protocol [E_load_bbt lb, E_make_bbt r, E_low_format q, E_capacity c]"

inductive blank_protocol :: "drv_event list \<Rightarrow> bool" where
  bp_skip: "blank_protocol []"
| bp_reinit: "blank_protocol [E_reinit r, E_capacity c]"
| bp_low_format: "low_format_protocol es \<Longrightarrow> blank_protocol (E_reinit r # E_capacity 0 # es)"

inductive retry_protocol :: "nat \<Rightarrow> drv_event list \<Rightarrow> bool" where
  rp_end: "retry_protocol n []"
| rp_last: "retry_protocol (Suc n) [E_msleep 100, E_capacity c]"
| rp_again: "retry_protocol n es \<Longrightarrow> retry_protocol (Suc n) (E_msleep 100 # E_capacity 0 # es)"

section \<open>Lemmas\<close>

lemma phase_refl [intro]: "ftl_phase [] s s"
  unfolding ftl_phase_def by (rule exI [of _ "io_ftl (drv_io s)"], rule exI [of _ "drv_polls s"]) simp

lemma phase_trans: "ftl_phase es s t \<Longrightarrow> ftl_phase fs t u \<Longrightarrow> ftl_phase (es @ fs) s u"
  unfolding ftl_phase_def by (elim exE) (simp, blast)

lemma phase_poll:
  assumes "kthread_should_stop stop s = (st, s')"
  shows "ftl_phase [] s s'" "st = stop (drv_polls s)" "drv_polls s' = Suc (drv_polls s)"
proof -
  show "ftl_phase [] s s'"
    unfolding ftl_phase_def using assms
    by (intro exI [of _ "io_ftl (drv_io s)"] exI [of _ "Suc (drv_polls s)"]) (auto simp: kthread_should_stop_def)
qed (use assms in \<open>auto simp: kthread_should_stop_def\<close>)

lemma phase_call:
  assumes "blob_call g ev s = (r, s')"
  shows "ftl_phase [ev r] s s'" "drv_polls s' = drv_polls s"
proof -
  obtain f where "g (io_ftl (drv_io s)) = (r, f)" "s' = emit (ev r) (set_ftl f s)"
    using assms by (auto simp: blob_call_def split: prod.splits)
  then have "s' = s\<lparr>drv_io := (drv_io s)\<lparr>io_ftl := f\<rparr>, drv_polls := drv_polls s, drv_log := drv_log s @ [ev r]\<rparr>"
    by (simp add: emit_def set_ftl_def)
  then show "ftl_phase [ev r] s s'" "drv_polls s' = drv_polls s"
    unfolding ftl_phase_def by (blast, simp)
qed

lemma phase_emit: "ftl_phase [e] s (emit e s)"
  unfolding ftl_phase_def
  by (intro exI [of _ "io_ftl (drv_io s)"] exI [of _ "drv_polls s"]) (simp_all add: emit_def)

lemma phase_capacity: "get_capacity B s = (c, s') \<Longrightarrow> ftl_phase [E_capacity c] s s'"
  unfolding get_capacity_def by (rule phase_call(1))

lemma low_format_phase:
  assumes "provision_lowformat B stop s = (cap, s')" "stop_persists stop"
  shows "\<exists>es. ftl_phase es s s' \<and> low_format_protocol es"
proof -
  obtain lb s1 where s1: "blob_call (FlashLoadFactorBbt B) E_load_bbt s = (lb, s1)" by fastforce
  obtain st1 s2 where s2: "(if lb \<noteq> 0 then kthread_should_stop stop s1 else (True, s1)) = (st1, s2)" by fastforce
  obtain mb s3 where s3: "(if lb \<noteq> 0 \<and> \<not> st1 then blob_call (FlashMakeFactorBbt B) E_make_bbt s2 else (lb, s2))
      = (mb, s3)" by fastforce
  obtain st2 s4 where s4: "kthread_should_stop stop s3 = (st2, s4)" by fastforce
  have p12: "ftl_phase [E_load_bbt lb] s s2"
    using phase_trans [OF phase_call(1) [OF s1], of "[]" s2] s2 phase_poll(1) [of stop s1 st1 s2]
    by (auto split: if_splits)
  let ?mk = "if lb \<noteq> 0 \<and> \<not> st1 then [E_make_bbt mb] else []"
  have p3: "ftl_phase ([E_load_bbt lb] @ ?mk) s s3"
    using phase_trans [OF p12, of ?mk s3] s3 phase_call(1) [of "FlashMakeFactorBbt B" E_make_bbt s2 mb s3]
    by (auto split: if_splits)
  have p4: "ftl_phase ([E_load_bbt lb] @ ?mk) s s4"
    using phase_trans [OF p3 phase_poll(1) [OF s4]] by simp
  show ?thesis
  proof (cases st2)
    case True
    then have "s' = s4" using assms s1 s2 s3 s4 by (simp add: provision_lowformat_def)
    then show ?thesis using p4 by (auto intro: lf_stopped lf_made split: if_splits)
  next
    case False
    obtain q s5 where s5: "blob_call (FtlLowFormat B) E_low_format s4 = (q, s5)" by fastforce
    then have s6: "get_capacity B s5 = (cap, s')"
      using assms s1 s2 s3 s4 False by (simp add: provision_lowformat_def)
    have p6: "ftl_phase (([E_load_bbt lb] @ ?mk) @ [E_low_format q] @ [E_capacity cap]) s s'"
      by (intro phase_trans [OF p4] phase_trans [OF phase_call(1) [OF s5]] phase_capacity [OF s6])
    have "\<not> (lb \<noteq> 0 \<and> st1)"
    proof
      assume a: "lb \<noteq> 0 \<and> st1"
      then have "stop (drv_polls s1)" "drv_polls s3 = Suc (drv_polls s1)"
        using s2 s3 phase_poll [of stop s1 st1 s2] by auto
      then have "stop (drv_polls s3)" using assms(2) unfolding stop_persists_def by (metis le_SucI order_refl)
      then show False using False phase_poll(2) [OF s4] by simp
    qed
    then have "low_format_protocol (([E_load_bbt lb] @ ?mk) @ [E_low_format q] @ [E_capacity cap])"
      by (cases "lb = 0") (auto intro: lf_loaded lf_made_formatted)
    then show ?thesis using p6 by blast
  qed
qed

lemma blank_phase:
  assumes "provision_blank B stop s = (cap, s')" "stop_persists stop"
  shows "\<exists>es. ftl_phase es s s' \<and> blank_protocol es"
proof -
  obtain r s1 where s1: "blob_call (FtlReInitForSDUpdata B) E_reinit s = (r, s1)" by fastforce
  obtain c s2 where s2: "get_capacity B s1 = (c, s2)" by fastforce
  have p2: "ftl_phase [E_reinit r, E_capacity c] s s2"
    using phase_trans [OF phase_call(1) [OF s1] phase_capacity [OF s2]] by simp
  obtain st s3 where s3: "kthread_should_stop stop s2 = (st, s3)" by fastforce
  have p3: "ftl_phase [E_reinit r, E_capacity c] s s3"
    using phase_trans [OF p2 phase_poll(1) [OF s3]] by simp
  show ?thesis
  proof (cases "c = 0 \<and> \<not> st")
    case True
    then have "provision_lowformat B stop s3 = (cap, s')"
      using assms s1 s2 s3 by (simp add: provision_blank_def)
    from low_format_phase [OF this assms(2)]
    obtain es where "ftl_phase es s3 s'" "low_format_protocol es" by blast
    then show ?thesis using phase_trans [OF p3, of es s'] bp_low_format [of es r] True by auto
  next
    case False
    then have "s' = s2 \<or> s' = s3" using assms s1 s2 s3 by (auto simp: provision_blank_def split: if_splits)
    then show ?thesis using p2 p3 bp_reinit [of r c] by blast
  qed
qed

lemma retry_phase:
  assumes "capacity_retry B stop n cap s = (cap', s')"
  shows "\<exists>es. ftl_phase es s s' \<and> retry_protocol n es \<and> (cap \<noteq> 0 \<longrightarrow> es = [])"
  using assms
proof (induction n arbitrary: cap s)
  case 0
  then show ?case by (auto intro: rp_end)
next
  case (Suc n)
  obtain st s1 where s1: "kthread_should_stop stop s = (st, s1)" by fastforce
  obtain c s2 where s2: "get_capacity B (emit (E_msleep 100) s1) = (c, s2)" by fastforce
  show ?case
  proof (cases "cap = 0 \<and> \<not> st")
    case True
    then have "capacity_retry B stop n c s2 = (cap', s')" using Suc.prems s1 s2 by simp
    from Suc.IH [OF this] obtain es where es: "ftl_phase es s2 s'" "retry_protocol n es" "c \<noteq> 0 \<longrightarrow> es = []"
      by blast
    have "ftl_phase ([] @ [E_msleep 100] @ [E_capacity c] @ es) s s'"
      by (intro phase_trans [OF phase_poll(1) [OF s1]] phase_trans [OF phase_emit]
          phase_trans [OF phase_capacity [OF s2]] es(1))
    moreover have "retry_protocol (Suc n) ([] @ [E_msleep 100] @ [E_capacity c] @ es)"
      using es(2,3) by (cases "c = 0") (auto intro: rp_again rp_last)
    ultimately show ?thesis using True by blast
  next
    case False
    then have "s' = s \<or> s' = s1" using Suc.prems s1 by (auto split: if_splits)
    then show ?thesis using phase_poll(1) [OF s1] by (auto intro: rp_end)
  qed
qed

lemma capacity_phase:
  assumes "provision_capacity B stop s = (cap, s')" "stop_persists stop"
  shows "\<exists>c es rs. ftl_phase (E_capacity c # es @ rs) s s' \<and> blank_protocol es \<and> retry_protocol 10 rs
    \<and> (c \<noteq> 0 \<longrightarrow> es = [] \<and> rs = [])"
proof -
  obtain c s1 where s1: "get_capacity B s = (c, s1)" by fastforce
  obtain st s2 where s2: "kthread_should_stop stop s1 = (st, s2)" by fastforce
  obtain c3 s3 where s3: "(if c = 0 then if \<not> st then provision_blank B stop s2 else (c, s2) else (c, s1))
      = (c3, s3)" by fastforce
  have r: "capacity_retry B stop 10 c3 s3 = (cap, s')"
    using assms s1 s2 s3 by (simp add: provision_capacity_def Let_def cong: if_cong)
  from retry_phase [OF this] obtain rs where rs: "ftl_phase rs s3 s'" "retry_protocol 10 rs" "c3 \<noteq> 0 \<longrightarrow> rs = []"
    by blast
  have "\<exists>es. ftl_phase es s1 s3 \<and> blank_protocol es \<and> (c \<noteq> 0 \<longrightarrow> es = [])"
  proof (cases "c = 0 \<and> \<not> st")
    case True
    then have "provision_blank B stop s2 = (c3, s3)" using s3 by simp
    from blank_phase [OF this assms(2)] show ?thesis
      using phase_trans [OF phase_poll(1) [OF s2]] True by fastforce
  next
    case False
    then have "s3 = s1 \<or> s3 = s2" using s3 by (auto split: if_splits)
    then show ?thesis using phase_poll(1) [OF s2] by (auto intro: bp_skip)
  qed
  then obtain es where es: "ftl_phase es s1 s3" "blank_protocol es" "c \<noteq> 0 \<longrightarrow> es = []" by blast
  have "ftl_phase ([E_capacity c] @ es @ rs) s s'"
    by (intro phase_trans [OF phase_capacity [OF s1]] phase_trans [OF es(1) rs(1)])
  moreover have "c \<noteq> 0 \<longrightarrow> c3 \<noteq> 0" using s3 by auto
  ultimately show ?thesis using es rs by auto
qed

lemma protocol_format:
  "low_format_protocol es \<Longrightarrow> list_all is_format es"
  "blank_protocol fs \<Longrightarrow> list_all is_format fs"
  "retry_protocol n rs \<Longrightarrow> list_all is_format rs"
proof -
  show lf: "low_format_protocol es \<Longrightarrow> list_all is_format es" for es by (induction rule: low_format_protocol.induct) auto
  show "blank_protocol fs \<Longrightarrow> list_all is_format fs"
    by (induction rule: blank_protocol.induct) (auto dest: lf)
  show "retry_protocol n rs \<Longrightarrow> list_all is_format rs"
    by (induction rule: retry_protocol.induct) auto
qed

text \<open>The driver's devices have distinct numbers below the next one and are the kernel's disks.\<close>

definition disks_inv :: "'f nand_drv \<Rightarrow> bool" where
  "disks_inv s \<longleftrightarrow> distinct (map dev_devnum (op_devs s))
     \<and> (\<forall>d \<in> set (op_devs s). dev_devnum d < op_last_dev_index s)
     \<and> map gd_private (k_disks s) = op_devs s"

lemma drv_kfree_frame [simp]: "op_devs (drv_kfree p s) = op_devs s" "k_disks (drv_kfree p s) = k_disks s"
  "op_last_dev_index (drv_kfree p s) = op_last_dev_index s" "drv_log (drv_kfree p s) = drv_log s"
  by (simp_all add: drv_kfree_def)

lemma emit_frame [simp]: "op_devs (emit e s) = op_devs s" "k_disks (emit e s) = k_disks s"
  "op_last_dev_index (emit e s) = op_last_dev_index s" "k_heap (emit e s) = k_heap s"
  "k_fault (emit e s) = k_fault s" "drv_log (emit e s) = drv_log s @ [e]" "op_major (emit e s) = op_major s"
  by (simp_all add: emit_def)

lemma drv_kfree_first: "k_heap s = p # h \<Longrightarrow> k_heap (drv_kfree p s) = h \<and> k_fault (drv_kfree p s) = k_fault s"
  by (simp add: drv_kfree_def)

lemma part_dev_num [simp]: "dev_devnum (part_dev i part) = i"
  by (simp add: part_dev_def)

lemma dev_disk_private [simp]: "gd_private (dev_disk m dev) = dev"
  by (simp add: dev_disk_def)

lemma add_dev_ok:
  fixes s :: "'f nand_drv"
  assumes "part_size part \<noteq> 0" "ke_dev_alloc K" "ke_alloc_disk K = 0" "ke_add_disk K = 0"
  defines "dev \<equiv> part_dev (op_last_dev_index s) part"
  shows "nand_add_dev K part s = (0, s\<lparr>k_heap := Heap_dev (op_last_dev_index s) # k_heap s,
    op_devs := op_devs s @ [dev], op_last_dev_index := op_last_dev_index s + 1,
    drv_log := drv_log s @ [E_add_disk 0], k_disks := k_disks s @ [dev_disk (op_major s) dev]\<rparr>)"
  using assms by (simp add: nand_add_dev_def Let_def emit_def)

lemma disks_inv_add:
  fixes s :: "'f nand_drv" and part :: nand_part
  assumes "disks_inv s"
  defines "dev \<equiv> part_dev (op_last_dev_index s) part"
  shows "disks_inv (s\<lparr>k_heap := Heap_dev (op_last_dev_index s) # k_heap s,
    op_devs := op_devs s @ [dev], op_last_dev_index := op_last_dev_index s + 1,
    drv_log := es, k_disks := k_disks s @ [dev_disk (op_major s) dev]\<rparr>)"
  using assms by (fastforce simp: disks_inv_def)

lemma disks_inv_phase: "ftl_phase es s s' \<Longrightarrow> disks_inv s' = disks_inv s"
  by (auto simp: ftl_phase_def disks_inv_def)

lemma add_dev_failed:
  assumes "disks_inv s" "nand_add_dev K part s = (r, s')" "r \<noteq> 0"
  shows "op_devs s' = op_devs s" "k_disks s' = k_disks s" "k_heap s' = k_heap s" "k_fault s' = k_fault s"
    "op_last_dev_index s \<le> op_last_dev_index s'"
    "drv_log s' = drv_log s \<or> (\<exists>q. q \<noteq> 0 \<and> drv_log s' = drv_log s @ [E_add_disk q])"
proof -
  have "part_dev (op_last_dev_index s) part \<notin> set (op_devs s)"
    using assms(1) by (auto simp: disks_inv_def)
  then show "op_devs s' = op_devs s" "k_disks s' = k_disks s" "k_heap s' = k_heap s" "k_fault s' = k_fault s"
    "op_last_dev_index s \<le> op_last_dev_index s'"
    "drv_log s' = drv_log s \<or> (\<exists>q. q \<noteq> 0 \<and> drv_log s' = drv_log s @ [E_add_disk q])"
    using assms(2,3)
    by (auto simp: nand_add_dev_def Let_def drv_kfree_first remove1_append split: if_splits)
qed

lemma services_log:
  "\<exists>ss. drv_log (provision_services K B s) = drv_log s @ ss \<and> list_all is_service ss"
  by (auto simp: provision_services_def rknand_create_procfs_def blob_call_def set_ftl_def Let_def
      split: prod.splits)

lemma services_result:
  fixes s :: "'f nand_drv" and K :: life_env and B :: "'f life_blob"
  defines "u \<equiv> provision_services K B s"
  shows "k_disks u = k_disks s" "op_devs u = op_devs s" "op_last_dev_index u = op_last_dev_index s"
    "k_heap u = k_heap s" "k_fault u = k_fault s"
    "rknand_gc_started u \<longleftrightarrow> ke_gc_run K = 0 \<or> rknand_gc_started s"
    "k_gc_running u \<longleftrightarrow> ke_gc_run K = 0 \<or> k_gc_running s"
    "rknand_procfs_created u \<longleftrightarrow> ke_proc K \<or> rknand_procfs_created s"
    "k_proc u \<longleftrightarrow> ke_proc K \<or> k_proc s" "\<not> op_quit u"
  unfolding u_def
  by (auto simp: provision_services_def rknand_create_procfs_def blob_call_def set_ftl_def Let_def emit_def
      split: prod.splits)

lemma work_cases:
  assumes "provision_capacity B stop s = (cap, t)"
  obtains (idle) "provision_work K B stop s = t" "cap = 0"
  | (stopped) t' where "ftl_phase [] t t'" "provision_work K B stop s = t'" "cap \<noteq> 0" "stop (drv_polls t)"
  | (failed) t' u r where "ftl_phase [] t t'"
      "nand_add_dev K \<lparr>part_name = replicate 32 0, part_offset = 0, part_size = cap, part_type = 0\<rparr> t' = (r, u)"
      "r \<noteq> 0" "provision_work K B stop s = u" "cap \<noteq> 0"
  | (up) t' u where "ftl_phase [] t t'"
      "nand_add_dev K \<lparr>part_name = replicate 32 0, part_offset = 0, part_size = cap, part_type = 0\<rparr> t' = (0, u)"
      "provision_work K B stop s = provision_services K B u" "cap \<noteq> 0"
proof -
  obtain st t' where p: "kthread_should_stop stop t = (st, t')" by fastforce
  obtain r u where a: "nand_add_dev K \<lparr>part_name = replicate 32 0, part_offset = 0, part_size = cap,
      part_type = 0\<rparr> t' = (r, u)" by fastforce
  note ph = phase_poll [OF p]
  consider "cap = 0" | "cap \<noteq> 0" st | "cap \<noteq> 0" "\<not> st" "r \<noteq> 0" | "cap \<noteq> 0" "\<not> st" "r = 0" by blast
  then show ?thesis
  proof cases
    case 1
    then show ?thesis using idle assms by (simp add: provision_work_def)
  next
    case 2
    then show ?thesis using stopped [of t'] assms p ph by (simp add: provision_work_def)
  next
    case 3
    then show ?thesis using failed [of t' r u] assms p ph(1) a by (simp add: provision_work_def)
  next
    case 4
    then show ?thesis using up [of t' u] assms p ph(1) a by (simp add: provision_work_def)
  qed
qed

lemma idle_returns:
  assumes "stop (drv_polls s + n)"
  shows "\<exists>s' m. provision_idle stop s = Some s' \<and> m \<le> n \<and> ftl_phase (replicate m (E_msleep 200)) s s'"
  using assms
proof (induction n arbitrary: s)
  case 0
  obtain s1 where s1: "kthread_should_stop stop s = (True, s1)"
    using 0 by (simp add: kthread_should_stop_def)
  then have "provision_idle stop s = Some s1" by (subst provision_idle.simps) simp
  then show ?case using phase_poll(1) [OF s1] by auto
next
  case (Suc n)
  obtain st s1 where s1: "kthread_should_stop stop s = (st, s1)" by fastforce
  show ?case
  proof (cases st)
    case True
    then have "provision_idle stop s = Some s1" using s1 by (subst provision_idle.simps) simp
    then show ?thesis using phase_poll(1) [OF s1] by (intro exI [of _ s1] exI [of _ 0]) simp
  next
    case False
    let ?s2 = "emit (E_msleep 200) s1"
    have "stop (drv_polls ?s2 + n)"
      using Suc.prems phase_poll(3) [OF s1] by (simp add: emit_def)
    from Suc.IH [OF this] obtain s' m where IH: "provision_idle stop ?s2 = Some s'" "m \<le> n"
      "ftl_phase (replicate m (E_msleep 200)) ?s2 s'" by blast
    have "provision_idle stop s = Some s'" using IH(1) s1 False by (subst provision_idle.simps) simp
    moreover have "ftl_phase ([] @ [E_msleep 200] @ replicate m (E_msleep 200)) s s'"
      by (intro phase_trans [OF phase_poll(1) [OF s1]] phase_trans [OF phase_emit] IH(3))
    ultimately show ?thesis using IH(2) by (intro exI [of _ s'] exI [of _ "Suc m"]) simp
  qed
qed

lemma idle_sound:
  assumes ret: "provision_idle stop s = Some r"
  shows "\<exists>k. stop k"
proof (rule provision_idle.raw_induct [where P = "\<lambda>stop s r. \<exists>k. stop k", OF _ ret])
  fix w :: "(nat \<Rightarrow> bool) \<Rightarrow> 'a nand_drv \<Rightarrow> 'a nand_drv option" and stop s r
  assume IH: "\<And>stop s r. w stop s = Some r \<Longrightarrow> \<exists>k. stop k"
    and eq: "(let (st, s) = kthread_should_stop stop s in if st then Some s else w stop (emit (E_msleep 200) s))
      = Some r"
  show "\<exists>k. stop k"
  proof (cases "stop (drv_polls s)")
    case True
    then show ?thesis by blast
  next
    case False
    with eq show ?thesis by (auto simp: kthread_should_stop_def dest: IH)
  qed
qed

section \<open>Properties\<close>


text \<open>
  C27: the outcome of provisioning, when it is not interrupted and the kernel grants the disk. If the
  capacity is still 0 at the end, the thread leaves no disk, no GC thread and no procfs entry
  behind: only the blob's state changed. Otherwise there is exactly one disk more, over the whole
  device, named after its number, of exactly the reported capacity, and the services run as far
  as the kernel granted them.
\<close>

theorem provision_outcome:
  assumes "\<And>k. \<not> stop k" "ke_dev_alloc K" "ke_alloc_disk K = 0" "ke_add_disk K = 0"
    and "provision_capacity B stop s = (cap, t)"
  defines "u \<equiv> provision_work K B stop s"
  shows "(cap = 0 \<longrightarrow> k_disks u = k_disks s \<and> op_devs u = op_devs s \<and> k_heap u = k_heap s
      \<and> rknand_gc_started u = rknand_gc_started s \<and> k_gc_running u = k_gc_running s \<and> k_proc u = k_proc s)
    \<and> (cap \<noteq> 0 \<longrightarrow> (\<exists>gd. k_disks u = k_disks s @ [gd] \<and> op_devs u = op_devs s @ [gd_private gd]
      \<and> dev_disk_capacity (gd_private gd) = ucast cap \<and> dev_off_size (gd_private gd) = 0
      \<and> \<not> dev_readonly (gd_private gd) \<and> \<not> dev_writeonly (gd_private gd) \<and> \<not> dev_disable_access (gd_private gd)
      \<and> gd_name gd = ''rknand'' @ dec_string (op_last_dev_index s))
      \<and> (rknand_gc_started u \<longleftrightarrow> ke_gc_run K = 0 \<or> rknand_gc_started s)
      \<and> (k_proc u \<longleftrightarrow> ke_proc K \<or> k_proc s))"
proof -
  have sp: "stop_persists stop" using assms(1) by (simp add: stop_persists_def)
  from capacity_phase [OF assms(5) sp] obtain es where ph: "ftl_phase es s t" by blast
  show ?thesis
  proof (rule work_cases [OF assms(5), of K])
    assume "provision_work K B stop s = t" "cap = 0"
    then show ?thesis using ph by (auto simp: u_def ftl_phase_def)
  next
    assume "stop (drv_polls t)"
    then show ?thesis using assms(1) by simp
  next
    fix t' v r
    assume "nand_add_dev K \<lparr>part_name = replicate 32 0, part_offset = 0, part_size = cap, part_type = 0\<rparr> t'
      = (r, v)" "r \<noteq> 0" "cap \<noteq> 0"
    then show ?thesis using add_dev_ok [of _ K t'] assms(2-4) by simp
  next
    fix t' v
    assume up: "ftl_phase [] t t'" "nand_add_dev K \<lparr>part_name = replicate 32 0, part_offset = 0,
      part_size = cap, part_type = 0\<rparr> t' = (0, v)" "provision_work K B stop s = provision_services K B v"
      "cap \<noteq> 0"
    then have v: "k_disks v = k_disks s @ [dev_disk (op_major s) (part_dev (op_last_dev_index s)
        \<lparr>part_name = replicate 32 0, part_offset = 0, part_size = cap, part_type = 0\<rparr>)]"
      "op_devs v = op_devs s @ [part_dev (op_last_dev_index s)
        \<lparr>part_name = replicate 32 0, part_offset = 0, part_size = cap, part_type = 0\<rparr>]"
      "rknand_gc_started v = rknand_gc_started s" "k_proc v = k_proc s"
      using add_dev_ok [of _ K t'] assms(2-4) ph by (auto simp: ftl_phase_def)
    then show ?thesis
      using up(3,4) unfolding u_def
      by (auto simp: services_result part_dev_def dev_disk_def PART_READONLY_def PART_WRITEONLY_def
          PART_NO_ACCESS_def)
  qed
qed


text \<open>
  Adding a disk. On success there is exactly one disk more, with the next device number and the
  partition's size; on every failure path the list of devices, the kernel's disks and the allocated
  memory are exactly as before and nothing is freed twice. The correspondence between devices and
  disks is kept in either case.
\<close>

theorem add_dev_sound:
  assumes inv: "disks_inv s" and r: "nand_add_dev K part s = (r, s')"
  shows "disks_inv s' \<and> k_fault s' = k_fault s
    \<and> (r = 0 \<longrightarrow> part_size part \<noteq> 0 \<and> op_devs s' = op_devs s @ [part_dev (op_last_dev_index s) part]
         \<and> k_heap s' = Heap_dev (op_last_dev_index s) # k_heap s)
    \<and> (r \<noteq> 0 \<longrightarrow> op_devs s' = op_devs s \<and> k_disks s' = k_disks s \<and> k_heap s' = k_heap s)"
proof (cases "r = 0")
  case True
  then have "part_size part \<noteq> 0" "ke_dev_alloc K" "ke_alloc_disk K = 0" "ke_add_disk K = 0"
    using r by (auto simp: nand_add_dev_def Let_def split: if_splits)
  from add_dev_ok [OF this, of s] r True disks_inv_add [OF inv] this(1) show ?thesis by auto
next
  case False
  note f = add_dev_failed [OF inv r False]
  have "disks_inv s'" using inv f(1-3,5) by (fastforce simp: disks_inv_def)
  then show ?thesis using f False by simp
qed

section \<open>Witnesses\<close>

text \<open>A blob whose capacity is 0 until it is reinitialised, and a kernel that grants everything.\<close>

definition blank_blob :: "nat life_blob" where
  "blank_blob = \<lparr>rk_ftl_init = (\<lambda>f. (0, f)), rk_ftl_de_init = (\<lambda>f. f),
     rk_ftl_get_capacity = (\<lambda>f. (if f = 0 then 0 else 4096, f)), FtlReInitForSDUpdata = (\<lambda>f. (0, f + 1)),
     FlashLoadFactorBbt = (\<lambda>f. (0, f)), FlashMakeFactorBbt = (\<lambda>f. (0, f)), FtlLowFormat = (\<lambda>f. (0, f + 1)),
     rk_ftl_storage_sys_init = (\<lambda>bf. bf), rk_ftl_vendor_storage_init = (\<lambda>f. (0, f)),
     rk_nand_suspend = (\<lambda>f. f), rk_nand_resume = (\<lambda>f. f), cache_write_back = (\<lambda>f. f)\<rparr>"

definition kind_kernel :: life_env where
  "kind_kernel = \<lparr>ke_dev_alloc = True, ke_alloc_disk = 0, ke_add_disk = 0, ke_proc = True, ke_misc_vendor = 0,
     ke_gc_run = 0, ke_register_blkdev = 240, ke_temp_buffer = 4096, ke_tag_set = True, ke_alloc_tags = 0,
     ke_provision_run = 0, ke_driver_register = 0\<rparr>"

definition fresh_drv :: "nand_base \<Rightarrow> nat nand_drv" where
  "fresh_drv b = \<lparr>drv_base = b, drv_io = demo_io\<lparr>mtd_read_temp_buffer := 0\<rparr>, op_major = 0,
     op_last_dev_index = 0, op_quit = False, op_nand_th_quited = False, op_gc_task = False,
     op_tag_set = False, op_devs = [], rk_nand_dev_initialised = False, rknand_provision_task = False,
     rknand_provision_done = False, rknand_gc_started = False, rknand_procfs_created = False,
     rk_nand_suspend_state = False, rk_nand_shutdown_state = False, k_blkdev = False, k_heap = [],
     k_tags = False, k_disks = [], k_proc = False, k_gc_running = False, k_driver = False,
     k_pm_usage = 0, k_fault = False, drv_polls = 0, drv_log = []\<rparr>"

lemma fresh_disks_inv: "disks_inv (fresh_drv b)"
  by (simp add: disks_inv_def fresh_drv_def)

lemma never_stopped: "stop_persists (\<lambda>_. False)"
  by (simp add: stop_persists_def)

lemmas provision_eval = provision_capacity_def provision_blank_def provision_lowformat_def get_capacity_def
  blob_call_def set_ftl_def emit_def kthread_should_stop_def blank_blob_def fresh_drv_def demo_io_def

lemma retry_done: "cap \<noteq> 0 \<Longrightarrow> capacity_retry B stop n cap s = (cap, s)"
  by (cases n) simp_all

lemma blank_capacity:
  "io_ftl (drv_io s) = 0 \<Longrightarrow> \<exists>t. provision_capacity blank_blob (\<lambda>_. False) s = (4096, t)"
  by (simp add: provision_eval retry_done)


theorem provision_outcome_witness:
  "\<exists>gd. k_disks (provision_work kind_kernel blank_blob (\<lambda>_. False) (fresh_drv (nand_base_init (\<lambda>_. 0)))) = [gd]
    \<and> dev_disk_capacity (gd_private gd) = 4096 \<and> gd_name gd = ''rknand0''"
proof -
  obtain t where t: "provision_capacity blank_blob (\<lambda>_. False) (fresh_drv (nand_base_init (\<lambda>_. 0))) = (4096, t)"
    using blank_capacity [of "fresh_drv (nand_base_init (\<lambda>_. 0))"] by (auto simp: fresh_drv_def demo_io_def)
  have d: "dec_string 0 = ''0''" by (simp add: dec_string_def dec_digits.simps char_of_def bit_0)
  have f: "k_disks (fresh_drv b) = []" "op_last_dev_index (fresh_drv b) = 0" for b by (simp_all add: fresh_drv_def)
  have k: "ke_dev_alloc kind_kernel" "ke_alloc_disk kind_kernel = 0" "ke_add_disk kind_kernel = 0"
    by (simp_all add: kind_kernel_def)
  show ?thesis using provision_outcome [OF _ k t] by (auto simp: d f)
qed


theorem add_dev_sound_witness:
  "\<exists>r s'. nand_add_dev (kind_kernel\<lparr>ke_add_disk := - 12\<rparr>)
      \<lparr>part_name = [], part_offset = 0, part_size = 64, part_type = 0x85\<rparr> (fresh_drv (nand_base_init (\<lambda>_. 0))) = (r, s')
    \<and> r = - 12 \<and> k_heap s' = [] \<and> op_devs s' = [] \<and> disks_inv s'"
proof -
  obtain r s' where a: "nand_add_dev (kind_kernel\<lparr>ke_add_disk := - 12\<rparr>)
      \<lparr>part_name = [], part_offset = 0, part_size = 64, part_type = 0x85\<rparr> (fresh_drv (nand_base_init (\<lambda>_. 0))) = (r, s')"
    by fastforce
  then have "r = - 12" by (simp add: nand_add_dev_def kind_kernel_def Let_def)
  with a add_dev_sound [OF fresh_disks_inv a] show ?thesis by (simp add: fresh_drv_def)
qed

end
