(* ===== verification/Nand_Driver.thy ===== *)
theory Nand_Driver
  imports Nand_Provision "HOL-Library.Multiset"
begin

text \<open>
  Life cycle of the vendor driver: registration and its unwinding, module load and unload, flush,
  suspend, resume and shutdown (\<open>rknand-port/rk_nand_blk.c\<close> from \<open>nand_blk_register\<close> on and the
  platform-driver callbacks of \<open>rknand-port/rk_nand_base.c\<close>).
\<close>

section \<open>Registration\<close>

definition mutex_init :: "'f nand_drv \<Rightarrow> 'f nand_drv" where
  "mutex_init s = s\<lparr>drv_io := (drv_io s)\<lparr>ops_mutex := False\<rparr>\<rparr>"

definition set_schedule :: "int \<Rightarrow> 'f nand_drv \<Rightarrow> 'f nand_drv" where
  "set_schedule en s = s\<lparr>drv_base := snd (rk_nand_schedule_enable_config en (drv_base s))\<rparr>"

definition set_temp_buffer :: "nat \<Rightarrow> 'f nand_drv \<Rightarrow> 'f nand_drv" where
  "set_temp_buffer p s = s\<lparr>drv_io := (drv_io s)\<lparr>mtd_read_temp_buffer := p\<rparr>\<rparr>"

text \<open>The three unwinding labels, each falling through to the next.\<close>

definition mtd_buffer_error :: "'f nand_drv \<Rightarrow> 'f nand_drv" where
  "mtd_buffer_error s = s\<lparr>k_blkdev := False\<rparr>"

definition tag_set_error :: "'f nand_drv \<Rightarrow> 'f nand_drv" where
  "tag_set_error s = mtd_buffer_error (set_temp_buffer 0 (drv_kfree Heap_temp_buffer s))"

definition rq_init_error :: "'f nand_drv \<Rightarrow> 'f nand_drv" where
  "rq_init_error s = tag_set_error (drv_kfree Heap_tag_set s)"

definition nand_blk_register :: "life_env \<Rightarrow> 'f nand_drv \<Rightarrow> int \<times> 'f nand_drv" where
  "nand_blk_register K s =
     (let s = set_schedule 1 s;
          s = s\<lparr>op_quit := False, op_nand_th_quited := False\<rparr>;
          ret = ke_register_blkdev K
      in if ret < 0 then (ret, s)
         else
           let s = s\<lparr>k_blkdev := True, op_major := if op_major s = 0 then ret else op_major s\<rparr>;
               s = set_temp_buffer (ke_temp_buffer K) s
           in if ke_temp_buffer K = 0 then (- ENOMEM, mtd_buffer_error s)
              else
                let s = s\<lparr>k_heap := Heap_temp_buffer # k_heap s\<rparr>;
                    s = mutex_init s;
                    s = s\<lparr>drv_io := (drv_io s)\<lparr>rq_list := []\<rparr>, op_tag_set := ke_tag_set K\<rparr>
                in if \<not> ke_tag_set K then (- ENOMEM, tag_set_error s)
                   else
                     let s = s\<lparr>k_heap := Heap_tag_set # k_heap s\<rparr>
                     in if ke_alloc_tags K \<noteq> 0 then (ke_alloc_tags K, rq_init_error s)
                        else
                          let s = s\<lparr>k_tags := True, op_devs := [], op_last_dev_index := 0,
                                    rknand_provision_done := False\<rparr>
                          in (0, s\<lparr>rknand_provision_task := (ke_provision_run K = 0)\<rparr>))"

text \<open>
  \<open>kthread_stop\<close> joins the provision thread: whatever the thread has not done yet happens before
  it returns. A thread that has already reached its final loop only leaves it; one that has not runs
  to its end, its polls answered by \<open>stop\<close>. \<open>None\<close> is a join that blocks for ever.
\<close>

definition kthread_stop_provision ::
  "life_env \<Rightarrow> 'f life_blob \<Rightarrow> (nat \<Rightarrow> bool) \<Rightarrow> 'f nand_drv \<Rightarrow> 'f nand_drv option" where
  "kthread_stop_provision K B stop s =
     (if rknand_provision_done s then provision_idle stop s else rknand_provision_thread K B stop s)"

text \<open>
  Setting \<open>quit\<close>, waking the GC thread and waiting for \<open>thread_exit\<close>; the thread marks itself as
  having quit on its way out.
\<close>

definition join_gc :: "'f nand_drv \<Rightarrow> 'f nand_drv" where
  "join_gc s = emit E_gc_join (s\<lparr>op_quit := True, op_nand_th_quited := True, k_gc_running := False,
     op_gc_task := False, rknand_gc_started := False\<rparr>)"

text \<open>What \<open>nand_blk_unregister\<close> does once the provision thread is gone.\<close>

definition blk_teardown :: "'f nand_drv \<Rightarrow> 'f nand_drv" where
  "blk_teardown s =
     (let s = (if rknand_gc_started s then join_gc s else s);
          s = fold nand_remove_dev (op_devs s) s;
          s = (if op_tag_set s
               then (drv_kfree Heap_tag_set (s\<lparr>k_tags := False\<rparr>))\<lparr>op_tag_set := False\<rparr> else s);
          s = (if rknand_procfs_created s
               then s\<lparr>k_proc := False, rknand_procfs_created := False\<rparr> else s);
          s = (if mtd_read_temp_buffer (drv_io s) \<noteq> 0
               then set_temp_buffer 0 (drv_kfree Heap_temp_buffer s) else s)
      in s\<lparr>k_blkdev := False\<rparr>)"

definition nand_blk_unregister ::
  "life_env \<Rightarrow> 'f life_blob \<Rightarrow> (nat \<Rightarrow> bool) \<Rightarrow> 'f nand_drv \<Rightarrow> 'f nand_drv option" where
  "nand_blk_unregister K B stop s =
     (if \<not> rk_nand_dev_initialised s then Some s
      else if rknand_provision_task s
        then map_option (\<lambda>s. blk_teardown (s\<lparr>rknand_provision_task := False\<rparr>)) (kthread_stop_provision K B stop s)
        else Some (blk_teardown s))"

section \<open>Device operations\<close>

text \<open>\<open>mutex_lock\<close>: \<open>None\<close> when the mutex is held and not released.\<close>

definition drv_lock :: "'f nand_drv \<Rightarrow> 'f nand_drv option" where
  "drv_lock s = map_option (\<lambda>io. s\<lparr>drv_io := io\<rparr>) (rknand_device_lock (drv_io s))"

definition drv_unlock :: "'f nand_drv \<Rightarrow> 'f nand_drv" where
  "drv_unlock s = s\<lparr>drv_io := rknand_device_unlock (drv_io s)\<rparr>"

definition rknand_dev_flush :: "'f life_blob \<Rightarrow> 'f nand_drv \<Rightarrow> 'f nand_drv option" where
  "rknand_dev_flush B s =
     (if \<not> rk_nand_dev_initialised s then Some s
      else map_option (\<lambda>s. drv_unlock (blob_void (cache_write_back B) E_write_back s)) (drv_lock s))"

definition rknand_dev_cache_flush :: "'f life_blob \<Rightarrow> 'f nand_drv \<Rightarrow> 'f nand_drv option" where
  "rknand_dev_cache_flush B s = rknand_dev_flush B s"

definition rknand_dev_init :: "life_env \<Rightarrow> 'f life_blob \<Rightarrow> 'f nand_drv \<Rightarrow> int \<times> 'f nand_drv" where
  "rknand_dev_init K B s =
     (let (nandc0, nandc1) = rknand_get_reg_addr (drv_base s)
      in if nandc0 = 0 then (- 1, s)
         else let (ret, s) = blob_call (rk_ftl_init B) E_ftl_init s
           in if ret \<noteq> 0 then (- 1, s)
              else let (ret, s) = nand_blk_register K s
                in if ret \<noteq> 0 then (- 1, s)
                   else (ret, s\<lparr>rk_nand_dev_initialised := True\<rparr>))"

definition rknand_dev_exit ::
  "life_env \<Rightarrow> 'f life_blob \<Rightarrow> (nat \<Rightarrow> bool) \<Rightarrow> 'f nand_drv \<Rightarrow> (int \<times> 'f nand_drv) option" where
  "rknand_dev_exit K B stop s =
     (if \<not> rk_nand_dev_initialised s then Some (- 1, s)
      else do {
        let s = s\<lparr>rk_nand_dev_initialised := False\<rparr>;
        let (got, io) = rknand_device_trylock (drv_io s);
        let s = s\<lparr>drv_io := io\<rparr>;
        let s = (if got then drv_unlock (blob_void (cache_write_back B) E_write_back s) else s);
        s \<leftarrow> nand_blk_unregister K B stop s;
        Some (0, blob_void (rk_ftl_de_init B) E_ftl_de_init s) })"

definition rknand_dev_suspend :: "'f life_blob \<Rightarrow> 'f nand_drv \<Rightarrow> 'f nand_drv option" where
  "rknand_dev_suspend B s =
     (if \<not> rk_nand_dev_initialised s then Some s
      else map_option (blob_void (rk_nand_suspend B) E_nand_suspend) (drv_lock (set_schedule 0 s)))"

definition rknand_dev_resume :: "'f life_blob \<Rightarrow> 'f nand_drv \<Rightarrow> 'f nand_drv" where
  "rknand_dev_resume B s =
     (if \<not> rk_nand_dev_initialised s then s
      else set_schedule 1 (drv_unlock (blob_void (rk_nand_resume B) E_nand_resume s)))"

definition rknand_dev_shutdown :: "'f life_blob \<Rightarrow> 'f nand_drv \<Rightarrow> 'f nand_drv" where
  "rknand_dev_shutdown B s =
     (if \<not> rk_nand_dev_initialised s then s
      else if rknand_gc_started s \<and> \<not> op_quit s
           then blob_void (rk_ftl_de_init B) E_ftl_de_init (join_gc s)
           else s)"

section \<open>Platform driver\<close>

definition rknand_suspend :: "'f life_blob \<Rightarrow> 'f nand_drv \<Rightarrow> 'f nand_drv option" where
  "rknand_suspend B s =
     (if \<not> rk_nand_suspend_state s then rknand_dev_suspend B (s\<lparr>rk_nand_suspend_state := True\<rparr>) else Some s)"

definition rknand_resume :: "'f life_blob \<Rightarrow> 'f nand_drv \<Rightarrow> 'f nand_drv" where
  "rknand_resume B s =
     (if rk_nand_suspend_state s then rknand_dev_resume B (s\<lparr>rk_nand_suspend_state := False\<rparr>) else s)"

definition rknand_shutdown :: "'f life_blob \<Rightarrow> 'f nand_drv \<Rightarrow> 'f nand_drv" where
  "rknand_shutdown B s =
     (if \<not> rk_nand_shutdown_state s then rknand_dev_shutdown B (s\<lparr>rk_nand_shutdown_state := True\<rparr>) else s)"

definition rknand_pm_suspend :: "'f life_blob \<Rightarrow> 'f nand_drv \<Rightarrow> 'f nand_drv option" where
  "rknand_pm_suspend B s =
     (if \<not> rk_nand_suspend_state s
      then map_option (\<lambda>s. s\<lparr>k_pm_usage := k_pm_usage s - 1\<rparr>)
             (rknand_dev_suspend B (s\<lparr>rk_nand_suspend_state := True\<rparr>))
      else Some s)"

definition rknand_pm_resume :: "'f life_blob \<Rightarrow> 'f nand_drv \<Rightarrow> 'f nand_drv" where
  "rknand_pm_resume B s =
     (if rk_nand_suspend_state s
      then rknand_dev_resume B (s\<lparr>rk_nand_suspend_state := False, k_pm_usage := k_pm_usage s + 1\<rparr>)
      else s)"

definition rknand_driver_exit ::
  "life_env \<Rightarrow> 'f life_blob \<Rightarrow> (nat \<Rightarrow> bool) \<Rightarrow> 'f nand_drv \<Rightarrow> 'f nand_drv option" where
  "rknand_driver_exit K B stop s = do {
     (r, s) \<leftarrow> rknand_dev_exit K B stop s;
     Some (s\<lparr>drv_base := rknand_misc_deinit (drv_base s), k_driver := False\<rparr>) }"

text \<open>
  Registering the platform driver probes the controllers \<open>Es\<close> the device tree describes, one after
  the other; a fault in a probe is \<open>None\<close>.
\<close>

definition platform_driver_register :: "life_env \<Rightarrow> probe_env list \<Rightarrow> 'f nand_drv \<Rightarrow> (int \<times> 'f nand_drv) option" where
  "platform_driver_register K Es s =
     (if ke_driver_register K \<noteq> 0 then Some (ke_driver_register K, s)
      else map_option (\<lambda>b. (0, s\<lparr>k_driver := True, drv_base := b\<rparr>))
             (fold (\<lambda>E ob. Option.bind ob (\<lambda>b. map_option snd (rknand_probe E b))) Es (Some (drv_base s))))"

definition rknand_driver_init ::
  "life_env \<Rightarrow> probe_env list \<Rightarrow> 'f life_blob \<Rightarrow> 'f nand_drv \<Rightarrow> (int \<times> 'f nand_drv) option" where
  "rknand_driver_init K Es B s = do {
     (ret, s) \<leftarrow> platform_driver_register K Es s;
     if ret \<noteq> 0 then Some (ret, s)
     else
       let (ret, s) = rknand_dev_init K B s
       in if ret \<noteq> 0
          then Some (ret, s\<lparr>drv_base := rknand_misc_deinit (drv_base s), k_driver := False\<rparr>)
          else Some (ret, s) }"

section \<open>Resources\<close>

text \<open>
  A registered driver holds the block major, the bounce buffer, the tag set and one structure per
  disk, and its flags tell the truth about the procfs entry and the GC thread.
\<close>

definition res_inv :: "'f nand_drv \<Rightarrow> bool" where
  "res_inv s \<longleftrightarrow> disks_inv s
     \<and> mset (k_heap s) = {#Heap_temp_buffer, Heap_tag_set#} + mset (map (\<lambda>d. Heap_dev (dev_devnum d)) (op_devs s))
     \<and> k_blkdev s \<and> k_tags s \<and> op_tag_set s \<and> mtd_read_temp_buffer (drv_io s) \<noteq> 0
     \<and> (rknand_procfs_created s \<longleftrightarrow> k_proc s) \<and> (rknand_gc_started s \<longleftrightarrow> k_gc_running s) \<and> \<not> k_fault s"

definition nothing_held :: "'f nand_drv \<Rightarrow> bool" where
  "nothing_held s \<longleftrightarrow> k_heap s = [] \<and> k_disks s = [] \<and> op_devs s = [] \<and> \<not> k_proc s \<and> \<not> k_gc_running s
     \<and> \<not> k_blkdev s \<and> \<not> k_tags s \<and> mtd_read_temp_buffer (drv_io s) = 0 \<and> \<not> rknand_gc_started s
     \<and> \<not> rknand_procfs_created s \<and> \<not> op_tag_set s \<and> \<not> k_fault s"

lemma res_inv_phase: "ftl_phase es s s' \<Longrightarrow> res_inv s' = res_inv s"
  by (auto simp: ftl_phase_def res_inv_def disks_inv_def)

lemma res_inv_flags [simp]:
  "res_inv (s\<lparr>rknand_provision_done := d\<rparr>) = res_inv s" "res_inv (s\<lparr>rknand_provision_task := p\<rparr>) = res_inv s"
  "res_inv (s\<lparr>rk_nand_dev_initialised := i\<rparr>) = res_inv s"
  by (simp_all add: res_inv_def disks_inv_def)

lemma res_inv_add_dev:
  assumes inv: "res_inv s" and r: "nand_add_dev K part s = (r, s')"
  shows "res_inv s'"
proof (cases "r = 0")
  case True
  then have k: "part_size part \<noteq> 0" "ke_dev_alloc K" "ke_alloc_disk K = 0" "ke_add_disk K = 0"
    using r by (auto simp: nand_add_dev_def Let_def split: if_splits)
  have "disks_inv s'" using add_dev_ok [OF k, of s] r disks_inv_add [of s part] inv by (simp add: res_inv_def)
  then show ?thesis using add_dev_ok [OF k, of s] r inv by (auto simp: res_inv_def)
next
  case False
  have d: "disks_inv s" using inv by (simp add: res_inv_def)
  note f = add_dev_failed [OF d r False]
  have "disks_inv s'" using d f(1,2,5) by (fastforce simp: disks_inv_def)
  moreover have "k_blkdev s' = k_blkdev s \<and> k_tags s' = k_tags s \<and> op_tag_set s' = op_tag_set s
      \<and> drv_io s' = drv_io s \<and> rknand_procfs_created s' = rknand_procfs_created s \<and> k_proc s' = k_proc s
      \<and> rknand_gc_started s' = rknand_gc_started s \<and> k_gc_running s' = k_gc_running s"
    using r by (auto simp: nand_add_dev_def drv_kfree_def emit_def Let_def split: if_splits)
  ultimately show ?thesis using inv f by (simp add: res_inv_def)
qed

lemma res_inv_services:
  assumes "res_inv s"
  shows "res_inv (provision_services K B s)"
proof -
  have "k_blkdev (provision_services K B s) = k_blkdev s \<and> k_tags (provision_services K B s) = k_tags s
      \<and> op_tag_set (provision_services K B s) = op_tag_set s
      \<and> mtd_read_temp_buffer (drv_io (provision_services K B s)) = mtd_read_temp_buffer (drv_io s)"
    by (auto simp: provision_services_def rknand_create_procfs_def blob_call_def set_ftl_def emit_def Let_def
        split: prod.splits)
  then show ?thesis using assms services_result [of K B s] by (simp add: res_inv_def disks_inv_def)
qed

lemma res_inv_work:
  assumes "res_inv s" "stop_persists stop"
  shows "res_inv (provision_work K B stop s)"
proof -
  obtain cap t where c: "provision_capacity B stop s = (cap, t)" by fastforce
  have t: "res_inv t" using capacity_phase [OF c assms(2)] assms(1) res_inv_phase by blast
  show ?thesis
    by (rule work_cases [OF c, of K]) (use t res_inv_phase res_inv_add_dev res_inv_services in metis)+
qed

lemma res_inv_join:
  assumes "res_inv s" "stop_persists stop" "stop k"
  shows "\<exists>s'. kthread_stop_provision K B stop s = Some s' \<and> res_inv s'"
proof -
  let ?w = "if rknand_provision_done s then s else (provision_work K B stop s)\<lparr>rknand_provision_done := True\<rparr>"
  have "stop (drv_polls ?w + k)" using assms(2,3) unfolding stop_persists_def by (metis le_add2)
  from idle_returns [of stop ?w, OF this]
  obtain s' m where "provision_idle stop ?w = Some s'" "ftl_phase (replicate m (E_msleep 200)) ?w s'" by blast
  moreover have "res_inv ?w" using res_inv_work [OF assms(1,2)] assms(1) by simp
  ultimately have "provision_idle stop ?w = Some s'" "res_inv s'" using res_inv_phase by blast+
  then show ?thesis
    by (cases "rknand_provision_done s") (simp_all add: kthread_stop_provision_def rknand_provision_thread_def)
qed

lemma remove_all:
  assumes "op_devs s = devs" "distinct (map dev_devnum devs)" "map gd_private (k_disks s) = devs"
    and "mset (k_heap s) = H + mset (map (\<lambda>d. Heap_dev (dev_devnum d)) devs)"
  shows "\<exists>h l. fold nand_remove_dev devs s = s\<lparr>op_devs := [], k_disks := [], k_heap := h, drv_log := l\<rparr>
    \<and> mset h = H"
  using assms
proof (induction devs arbitrary: s)
  case Nil
  then show ?case by (intro exI [of _ "k_heap s"] exI [of _ "drv_log s"]) simp
next
  case (Cons d ds)
  let ?p = "Heap_dev (dev_devnum d)"
  let ?s = "s\<lparr>op_devs := ds, k_disks := tl (k_disks s), k_heap := remove1 ?p (k_heap s),
    drv_log := drv_log s @ [E_del_disk (dev_devnum d)]\<rparr>"
  obtain g gs where g: "k_disks s = g # gs" "gd_private g = d" "map gd_private gs = ds"
    using Cons.prems(3) by (cases "k_disks s") auto
  have dn: "d \<notin> set ds" using Cons.prems(2) by auto
  then have "gd_private x \<noteq> d" if "x \<in> set gs" for x using g(3) that by auto
  then have "filter (\<lambda>gd. gd_private gd \<noteq> d) (k_disks s) = gs"
    using g(1,2) by (simp add: filter_id_conv)
  moreover have "?p \<in># mset (k_heap s)" using Cons.prems(4) by simp
  ultimately have r: "nand_remove_dev d s = ?s"
    using Cons.prems(1) g(1) by (simp add: nand_remove_dev_def drv_kfree_def emit_def)
  have "\<exists>h l. fold nand_remove_dev ds ?s = ?s\<lparr>op_devs := [], k_disks := [], k_heap := h, drv_log := l\<rparr>
    \<and> mset h = H"
    by (rule Cons.IH) (use Cons.prems g in auto)
  then show ?case using r by auto
qed

text \<open>The teardown after the provision thread was joined.\<close>

lemma teardown:
  assumes "res_inv s"
  shows "nothing_held (blk_teardown s)"
proof -
  let ?g = "if rknand_gc_started s then join_gc s else s"
  have g: "res_inv ?g" "\<not> k_gc_running ?g" "\<not> rknand_gc_started ?g"
    using assms by (auto simp: res_inv_def disks_inv_def join_gc_def emit_def)
  then have "disks_inv ?g" "mset (k_heap ?g) = {#Heap_temp_buffer, Heap_tag_set#}
      + mset (map (\<lambda>d. Heap_dev (dev_devnum d)) (op_devs ?g))" by (auto simp: res_inv_def)
  then obtain h l where f: "fold nand_remove_dev (op_devs ?g) ?g
      = ?g\<lparr>op_devs := [], k_disks := [], k_heap := h, drv_log := l\<rparr>" "mset h = {#Heap_temp_buffer, Heap_tag_set#}"
    using remove_all [of ?g "op_devs ?g"] by (auto simp: disks_inv_def)
  have h: "Heap_tag_set \<in> set h" "Heap_temp_buffer \<in> set (remove1 Heap_tag_set h)"
    "remove1 Heap_temp_buffer (remove1 Heap_tag_set h) = []"
    using f(2) by (simp_all flip: set_mset_mset mset_zero_iff)
  define u where "u = ?g\<lparr>op_devs := [], k_disks := [], k_heap := h, drv_log := l\<rparr>"
  have u: "op_tag_set u" "mtd_read_temp_buffer (drv_io u) \<noteq> 0" "rknand_procfs_created u = k_proc u" "\<not> k_fault u"
    "\<not> k_gc_running u" "\<not> rknand_gc_started u" "k_disks u = []" "op_devs u = []" "k_heap u = h"
    using g unfolding u_def by (auto simp: res_inv_def)
  have "blk_teardown s = (let s = u;
        s = (if op_tag_set s then (drv_kfree Heap_tag_set (s\<lparr>k_tags := False\<rparr>))\<lparr>op_tag_set := False\<rparr> else s);
        s = (if rknand_procfs_created s then s\<lparr>k_proc := False, rknand_procfs_created := False\<rparr> else s);
        s = (if mtd_read_temp_buffer (drv_io s) \<noteq> 0 then set_temp_buffer 0 (drv_kfree Heap_temp_buffer s) else s)
      in s\<lparr>k_blkdev := False\<rparr>)"
    using f(1) unfolding u_def by (simp add: blk_teardown_def Let_def)
  then show ?thesis using u h by (auto simp: nothing_held_def drv_kfree_def set_temp_buffer_def Let_def)
qed

lemmas register_ops = nand_blk_register_def rq_init_error_def tag_set_error_def mtd_buffer_error_def drv_kfree_def
  mutex_init_def set_schedule_def set_temp_buffer_def

lemma register_failed:
  assumes "nothing_held s" "\<not> rknand_provision_task s" "nand_blk_register K s = (r, s')" "r \<noteq> 0"
  shows "k_heap s' = [] \<and> \<not> k_blkdev s' \<and> \<not> k_tags s' \<and> mtd_read_temp_buffer (drv_io s') = 0
     \<and> \<not> rknand_provision_task s' \<and> \<not> k_fault s' \<and> drv_log s' = drv_log s
     \<and> rk_nand_dev_initialised s' = rk_nand_dev_initialised s
     \<and> drv_base s' = (drv_base s)\<lparr>rk_nand_wait_busy_schedule := 1\<rparr>"
  using assms
  by (auto simp: register_ops nothing_held_def Let_def rk_nand_schedule_enable_config_def split: if_splits)

lemma misc_deinit_all:
  assumes "base_inv b"
  shows "misc_devices (rknand_misc_deinit b) = []"
proof -
  have "x \<notin> set (misc_devices (rknand_misc_deinit b))" for x
    using assms by (cases x) (auto simp: base_inv_def rknand_misc_deinit_def Let_def)
  then show ?thesis by (metis all_not_in_conv set_empty)
qed

lemma base_inv_probes:
  "base_inv b0 \<Longrightarrow> fold (\<lambda>E ob. Option.bind ob (\<lambda>b. map_option snd (rknand_probe E b))) Es (Some b0) = Some b \<Longrightarrow>
     base_inv b"
proof (induction Es arbitrary: b0)
  case (Cons E Es)
  have none: "fold (\<lambda>E ob. Option.bind ob (\<lambda>b. map_option snd (rknand_probe E b))) Es None = None"
    by (induction Es) auto
  obtain r b1 where "rknand_probe E b0 = Some (r, b1)" using Cons.prems(2) none by (cases "rknand_probe E b0") auto
  then show ?case using Cons base_inv_probe [of b0 E r b1] by simp
qed simp

lemma dev_init_failed:
  assumes "rknand_dev_init K B s = (r, s')" "r \<noteq> 0" "nothing_held s" "\<not> rknand_provision_task s"
    "\<not> rk_nand_dev_initialised s"
  shows "k_heap s' = [] \<and> \<not> k_blkdev s' \<and> \<not> rk_nand_dev_initialised s'
    \<and> (drv_base s' = drv_base s \<or> drv_base s' = (drv_base s)\<lparr>rk_nand_wait_busy_schedule := 1\<rparr>)
    \<and> (drv_log s' = drv_log s \<or> (\<exists>q. drv_log s' = drv_log s @ [E_ftl_init q]))"
proof -
  obtain q s1 where q: "blob_call (rk_ftl_init B) E_ftl_init s = (q, s1)" by fastforce
  then obtain f where s1: "s1 = emit (E_ftl_init q) (set_ftl f s)"
    by (auto simp: blob_call_def split: prod.splits)
  obtain r2 s2 where r2: "nand_blk_register K s1 = (r2, s2)" by fastforce
  have n1: "nothing_held s1" "\<not> rknand_provision_task s1" "drv_log s1 = drv_log s @ [E_ftl_init q]"
    "drv_base s1 = drv_base s" "\<not> rk_nand_dev_initialised s1" "k_heap s1 = []" "\<not> k_blkdev s1"
    using assms(3-5) s1 by (auto simp: nothing_held_def emit_def set_ftl_def)
  consider "reg_base0 (drv_base s) = 0" "s' = s" | "s' = s1" | "r2 \<noteq> 0" "s' = s2"
    using assms(1,2) q r2 by (auto simp: rknand_dev_init_def rknand_get_reg_addr_def split: if_splits)
  then show ?thesis
  proof cases
    case 1
    then show ?thesis using assms(3,5) by (simp add: nothing_held_def)
  next
    case 2
    then show ?thesis using n1 by simp
  next
    case 3
    then show ?thesis using register_failed [OF n1(1,2) r2] n1 by simp
  qed
qed

section \<open>Power management\<close>

text \<open>
  The contexts that use a loaded driver: system sleep and wake-up, requests, the GC thread and cache
  flushes, each run to completion; a call that would block has no step.
\<close>

inductive pm_step ::
  "'f ftl_blob \<Rightarrow> 'f life_blob \<Rightarrow> 'f gc_blob \<Rightarrow> 'f nand_drv \<Rightarrow> 'f nand_drv \<Rightarrow> bool"
  for F :: "'f ftl_blob" and B :: "'f life_blob" and G :: "'f gc_blob" where
  step_suspend: "rknand_pm_suspend B s = Some t \<Longrightarrow> pm_step F B G s t"
| step_resume: "pm_step F B G s (rknand_pm_resume B s)"
| step_flush: "rknand_dev_cache_flush B s = Some t \<Longrightarrow> pm_step F B G s t"
| step_request: "rk_nand_queue_rq F pending (Some dev) arr rq (drv_io s) = Some (st, io) \<Longrightarrow>
    pm_step F B G s (s\<lparr>drv_io := io\<rparr>)"
| step_gc: "gc_iteration G (\<lambda>io. io) v (drv_io s) = Some (v', io) \<Longrightarrow> pm_step F B G s (s\<lparr>drv_io := io\<rparr>)"

inductive_cases pm_stepE: "pm_step F B G s t"

definition pm_init :: "'f nand_drv \<Rightarrow> bool" where
  "pm_init s \<longleftrightarrow> rk_nand_dev_initialised s \<and> \<not> rk_nand_suspend_state s \<and> \<not> ops_mutex (drv_io s)
     \<and> rk_nand_wait_busy_schedule (drv_base s) = 1 \<and> k_pm_usage s = 1"

definition pm_inv :: "'f nand_drv \<Rightarrow> bool" where
  "pm_inv s \<longleftrightarrow> rk_nand_dev_initialised s \<and> (rk_nand_suspend_state s \<longleftrightarrow> ops_mutex (drv_io s))
     \<and> rk_nand_wait_busy_schedule (drv_base s) = (if rk_nand_suspend_state s then 0 else 1)
     \<and> k_pm_usage s = (if rk_nand_suspend_state s then 0 else 1)"

lemmas pm_ops = rknand_pm_suspend_def rknand_pm_resume_def rknand_dev_suspend_def rknand_dev_resume_def
  rknand_dev_cache_flush_def rknand_dev_flush_def drv_lock_def drv_unlock_def set_schedule_def
  rknand_device_lock_def rknand_device_unlock_def blob_void_def set_ftl_def emit_def
  rk_nand_schedule_enable_config_def

lemma work_mutex:
  "rk_nand_blktrans_work F pending dev arr q s = Some s' \<Longrightarrow> \<not> ops_mutex s \<Longrightarrow> \<not> ops_mutex s'"
proof (induction F pending dev arr q s arbitrary: s' rule: rk_nand_blktrans_work.induct)
  case (1 F pending dev arr q s)
  show ?case
  proof (cases q)
    case Nil
    then show ?thesis using 1(2,3) by (simp add: rk_nand_blktrans_work.simps rk_nand_next_request_def)
  next
    case (Cons req rest)
    obtain res s2 where d: "do_blktrans_all_request F dev req (s\<lparr>ops_mutex := True\<rparr>) = (res, s2)" by fastforce
    let ?u = "rknand_device_unlock s2"
    let ?s3 = "if \<not> pending req res then ?u\<lparr>rq_completed := rq_completed ?u @ [(rq_tag req, res)]\<rparr> else ?u"
    have lock: "rknand_device_lock s = Some (s\<lparr>ops_mutex := True\<rparr>)" using 1(3) by (simp add: rknand_device_lock_def)
    have "rk_nand_blktrans_work F pending dev (tl arr) (rest @ (if arr = [] then [] else hd arr)) ?s3 = Some s'"
      using 1(2) Cons lock d
      by (subst (asm) rk_nand_blktrans_work.simps) (simp add: rk_nand_next_request_def Let_def)
    moreover have "\<not> ops_mutex ?s3" by (simp add: rknand_device_unlock_def)
    ultimately show ?thesis
      using 1(1) [of "(req, rest)" req rest "s\<lparr>ops_mutex := True\<rparr>" "(res, s2)" res s2 ?u ?s3 s'] Cons lock d
      by (simp add: rk_nand_next_request_def)
  qed
qed

lemma queue_rq_mutex:
  assumes "rk_nand_queue_rq F pending (Some dev) arr rq s = Some (st, s')"
  shows "\<not> ops_mutex s \<and> \<not> ops_mutex s'"
proof -
  let ?s = "s\<lparr>rk_ftl_gc_do := False, rq_list := []\<rparr>"
  obtain t where t: "rk_nand_blktrans_work F pending dev arr (rq_list s @ [rq]) ?s = Some t"
    "s' = t\<lparr>rk_ftl_gc_do := True\<rparr>"
    using assms by (auto simp: rk_nand_queue_rq_def split: Option.bind_splits)
  have "\<not> ops_mutex s"
  proof
    assume "ops_mutex s"
    then show False
      using t(1)
      by (simp add: rk_nand_blktrans_work.simps [of F pending dev arr "rq_list s @ [rq]"]
          rk_nand_next_request_def rknand_device_lock_def split: list.splits)
  qed
  then show ?thesis using work_mutex [OF t(1)] t(2) by simp
qed

lemma gc_mutex_held:
  assumes "gc_iteration G (\<lambda>io. io) v s = Some (v', s')" "ops_mutex s"
  shows "s' = s"
  using assms
  by (auto simp: gc_iteration_def gc_collect_def rknand_device_trylock_def rknand_device_lock_def Let_def
      split: if_splits)

lemma pm_step_inv:
  assumes "pm_inv s" "pm_step F B G s t"
  shows "pm_inv t"
  using assms(2,1)
proof cases
  case step_suspend
  then show ?thesis using assms(1) by (auto simp: pm_ops pm_inv_def split: if_splits)
next
  case step_resume
  then show ?thesis using assms(1) by (auto simp: pm_ops pm_inv_def split: if_splits)
next
  case step_flush
  then show ?thesis using assms(1) by (auto simp: pm_ops pm_inv_def split: if_splits)
next
  case step_request
  then show ?thesis using assms(1) queue_rq_mutex by (fastforce simp: pm_inv_def)
next
  case (step_gc v v' io)
  then show ?thesis
    using assms(1) gc_mutex_held [OF step_gc(2)] iteration_mutex [OF step_gc(2)]
    by (cases "ops_mutex (drv_io s)") (auto simp: pm_inv_def)
qed

interpretation pm: invariant_system pm_init "pm_step F B G" pm_inv
proof unfold_locales
  show "pm_init s \<Longrightarrow> pm_inv s" for s :: "'a nand_drv" by (simp add: pm_init_def pm_inv_def)
qed (rule pm_step_inv)

section \<open>Properties\<close>

text \<open>
  C7: sleep is exclusive and balanced. In every state reachable from a running driver by suspends,
  resumes, requests, GC turns and flushes in any order, the operations mutex is held exactly while the
  driver is suspended, schedule mode is off exactly then, and the runtime PM reference is dropped
  exactly then, repeated suspends and resumes included. While it is suspended no request and no flush
  gets through, and nothing but a resume touches the state of the FTL.
\<close>

theorem pm_exclusive:
  assumes "reachable pm_init (pm_step F B G) s"
  shows "(rk_nand_suspend_state s \<longleftrightarrow> ops_mutex (drv_io s))
    \<and> rk_nand_wait_busy_schedule (drv_base s) = (if rk_nand_suspend_state s then 0 else 1)
    \<and> k_pm_usage s = (if rk_nand_suspend_state s then 0 else 1)
    \<and> (rk_nand_suspend_state s \<longrightarrow> rk_nand_queue_rq F pending (Some dev) arr rq (drv_io s) = None
         \<and> rknand_dev_flush B s = None
         \<and> (\<forall>t. pm_step F B G s t \<longrightarrow> t = rknand_pm_resume B s \<or> io_ftl (drv_io t) = io_ftl (drv_io s)))"
proof -
  have inv: "pm_inv s" using assms by (rule pm.reachable_inv)
  moreover have "rk_nand_queue_rq F pending (Some dev) arr rq (drv_io s) = None"
    if "ops_mutex (drv_io s)" for pending dev arr rq
    using that queue_rq_mutex [of F pending dev arr rq "drv_io s"]
    by (cases "rk_nand_queue_rq F pending (Some dev) arr rq (drv_io s)") auto
  moreover have "rknand_dev_flush B s = None" if "ops_mutex (drv_io s)" "rk_nand_dev_initialised s"
    using that by (simp add: rknand_dev_flush_def drv_lock_def rknand_device_lock_def)
  moreover have "t = rknand_pm_resume B s \<or> io_ftl (drv_io t) = io_ftl (drv_io s)"
    if "pm_step F B G s t" "rk_nand_suspend_state s" "ops_mutex (drv_io s)" "rk_nand_dev_initialised s" for t
    using that
    by (cases rule: pm_step.cases)
       (auto simp: pm_ops dest: queue_rq_mutex gc_mutex_held split: if_splits)
  ultimately show ?thesis by (auto simp: pm_inv_def)
qed

text \<open>
  C13: \<open>nand_blk_register\<close> is all or nothing. On a driver that holds nothing, it either returns 0 with
  every resource of a registered driver held, or it returns an error with no major, no memory, no tags
  and no provision thread left behind and nothing freed twice.
\<close>

theorem register_all_or_nothing:
  assumes "nothing_held s" "\<not> rknand_provision_task s" "nand_blk_register K s = (r, s')"
  shows "if r = 0 then res_inv s' \<and> op_devs s' = [] \<and> \<not> rknand_provision_done s'
         else k_heap s' = [] \<and> \<not> k_blkdev s' \<and> \<not> k_tags s' \<and> mtd_read_temp_buffer (drv_io s') = 0
           \<and> \<not> rknand_provision_task s' \<and> \<not> k_fault s'"
  using assms register_failed [OF assms(1-3)]
  by (auto simp: register_ops nothing_held_def res_inv_def disks_inv_def Let_def split: if_splits)


text \<open>
  C35: module unload tears nothing down. \<open>rknand_dev_exit\<close> clears \<open>rk_nand_dev_initialised\<close> before
  it calls \<open>nand_blk_unregister\<close>, whose first line returns when that flag is clear: the disks, the
  GC and provision threads, the procfs entry, the memory and the block major all survive, and the
  FTL is de-initialised underneath them.
\<close>

theorem exit_skips_teardown:
  assumes "rk_nand_dev_initialised s"
  shows "\<exists>s' es. rknand_dev_exit K B stop s = Some (0, s')
    \<and> k_disks s' = k_disks s \<and> op_devs s' = op_devs s \<and> k_gc_running s' = k_gc_running s
    \<and> rknand_provision_task s' = rknand_provision_task s \<and> k_proc s' = k_proc s
    \<and> k_heap s' = k_heap s \<and> k_tags s' = k_tags s \<and> k_blkdev s' = k_blkdev s
    \<and> drv_log s' = drv_log s @ es @ [E_ftl_de_init] \<and> E_gc_join \<notin> set es"
  using assms
  by (auto simp: rknand_dev_exit_def nand_blk_unregister_def rknand_device_trylock_def blob_void_def emit_def
      set_ftl_def drv_unlock_def Let_def)

text \<open>
  A failed module load. When \<open>rknand_driver_init\<close> returns an error after the platform driver was
  registered, the driver is unregistered again, both misc devices are gone, no memory and no major is
  held and the driver is not marked initialised. The FTL, however, is never de-initialised: its
  initialisation is the only call it saw, also when it succeeded and registration failed after it.
\<close>

theorem driver_init_failure:
  assumes "rknand_driver_init K Es B s = Some (r, s')" "r \<noteq> 0" "ke_driver_register K = 0"
    and "nothing_held s" "\<not> rknand_provision_task s" "\<not> rk_nand_dev_initialised s" "base_inv (drv_base s)"
  shows "\<not> k_driver s' \<and> misc_devices (drv_base s') = [] \<and> k_heap s' = [] \<and> \<not> k_blkdev s'
    \<and> \<not> rk_nand_dev_initialised s' \<and> (drv_log s' = drv_log s \<or> (\<exists>q. drv_log s' = drv_log s @ [E_ftl_init q]))"
proof -
  obtain b where b: "fold (\<lambda>E ob. Option.bind ob (\<lambda>b. map_option snd (rknand_probe E b))) Es (Some (drv_base s)) = Some b"
    using assms(1,3) by (auto simp: rknand_driver_init_def platform_driver_register_def split: Option.bind_splits)
  let ?s = "s\<lparr>k_driver := True, drv_base := b\<rparr>"
  have m: "misc_devices (rknand_misc_deinit b) = []"
    "misc_devices (rknand_misc_deinit (b\<lparr>rk_nand_wait_busy_schedule := 1\<rparr>)) = []"
    using base_inv_probes [OF assms(7) b] by (auto intro!: misc_deinit_all simp: base_inv_def wp_warnings_def)
  obtain r1 s1 where d: "rknand_dev_init K B ?s = (r1, s1)" by fastforce
  then have s': "s' = s1\<lparr>drv_base := rknand_misc_deinit (drv_base s1), k_driver := False\<rparr>" "r1 \<noteq> 0"
    using assms(1-3) b by (auto simp: rknand_driver_init_def platform_driver_register_def split: if_splits)
  have "nothing_held ?s" using assms(4) by (simp add: nothing_held_def)
  from dev_init_failed [OF d s'(2) this] assms(5,6) m s'(1) show ?thesis by auto
qed

text \<open>
  Shutdown joins the GC thread before it de-initialises the FTL, does so once, and a second
  shutdown changes nothing.
\<close>

theorem shutdown_once:
  "(rk_nand_dev_initialised s \<and> rknand_gc_started s \<and> \<not> op_quit s \<and> \<not> rk_nand_shutdown_state s \<longrightarrow>
      drv_log (rknand_shutdown B s) = drv_log s @ [E_gc_join, E_ftl_de_init]
      \<and> \<not> k_gc_running (rknand_shutdown B s))
   \<and> rknand_shutdown B (rknand_shutdown B s) = rknand_shutdown B s"
  by (auto simp: rknand_shutdown_def rknand_dev_shutdown_def join_gc_def blob_void_def emit_def set_ftl_def)

section \<open>Witnesses\<close>

text \<open>A loaded driver whose provision thread has not run yet.\<close>

definition loaded_drv :: "nat nand_drv" where
  "loaded_drv = snd (rknand_dev_init kind_kernel blank_blob (fresh_drv demo_base))"

lemma fresh_nothing: "nothing_held (fresh_drv b)" "\<not> rknand_provision_task (fresh_drv b)"
  "\<not> rk_nand_dev_initialised (fresh_drv b)"
  by (simp_all add: nothing_held_def fresh_drv_def demo_io_def)

lemma loaded_res: "res_inv loaded_drv" "rk_nand_dev_initialised loaded_drv" "rknand_provision_task loaded_drv"
  by (simp_all add: loaded_drv_def rknand_dev_init_def rknand_get_reg_addr_def demo_base_regs fresh_drv_def
      blob_call_def blank_blob_def kind_kernel_def register_ops res_inv_def disks_inv_def emit_def set_ftl_def
      demo_io_def Let_def)

lemma late_stop: "stop_persists (\<lambda>k. k > 20)"
  by (auto simp: stop_persists_def)


theorem register_all_or_nothing_witness:
  "\<exists>r s'. nand_blk_register (kind_kernel\<lparr>ke_alloc_tags := - 12\<rparr>) (fresh_drv demo_base) = (r, s')
    \<and> r = - 12 \<and> k_heap s' = [] \<and> \<not> k_blkdev s' \<and> \<not> k_fault s'"
proof -
  obtain r s' where rs: "nand_blk_register (kind_kernel\<lparr>ke_alloc_tags := - 12\<rparr>) (fresh_drv demo_base) = (r, s')"
    by fastforce
  then have "r = - 12" by (auto simp: nand_blk_register_def kind_kernel_def Let_def)
  with rs register_all_or_nothing [OF fresh_nothing(1,2) rs] show ?thesis by auto
qed

theorem exit_skips_teardown_witness:
  "\<exists>s'. rknand_dev_exit kind_kernel blank_blob (\<lambda>k. k > 20) loaded_drv = Some (0, s')
    \<and> rknand_provision_task s' \<and> k_heap s' = k_heap loaded_drv \<and> last (drv_log s') = E_ftl_de_init"
proof -
  from exit_skips_teardown [OF loaded_res(2), of kind_kernel blank_blob "\<lambda>k. k > 20"]
  show ?thesis using loaded_res(3) by fastforce
qed

theorem driver_init_failure_witness:
  "\<exists>r s'. rknand_driver_init (kind_kernel\<lparr>ke_tag_set := False\<rparr>) [] blank_blob (fresh_drv demo_base) = Some (r, s')
    \<and> r = - 1 \<and> \<not> k_driver s' \<and> drv_log s' = [E_ftl_init 0]"
proof -
  obtain r s' where rs: "rknand_driver_init (kind_kernel\<lparr>ke_tag_set := False\<rparr>) [] blank_blob (fresh_drv demo_base)
      = Some (r, s')" and r: "r = - 1" "drv_log s' = [E_ftl_init 0]"
    by (simp add: rknand_driver_init_def platform_driver_register_def rknand_dev_init_def
        rknand_get_reg_addr_def demo_base_regs fresh_drv_def blob_call_def blank_blob_def kind_kernel_def
        register_ops emit_def set_ftl_def Let_def)
  have b: "base_inv (drv_base (fresh_drv demo_base))"
    by (simp add: fresh_drv_def base_inv_def demo_base_def nand_base_init_def wp_warnings_def)
  show ?thesis
    using driver_init_failure [OF rs _ _ fresh_nothing(1,2,3) b] r rs by (simp add: kind_kernel_def)
qed

theorem shutdown_once_witness:
  "rknand_shutdown blank_blob (rknand_shutdown blank_blob loaded_drv) = rknand_shutdown blank_blob loaded_drv"
  using shutdown_once [of loaded_drv blank_blob] by blast

definition null_ftl :: "nat ftl_blob" where
  "null_ftl = \<lparr>FtlRead = (\<lambda>lun i n f. (0, replicate (unat n * 512) 0, f)),
     FtlWrite = (\<lambda>lun i n d f. (0, f)), FtlDiscard = (\<lambda>i n f. (0, f))\<rparr>"

text \<open>The same driver with the runtime PM reference taken at probe time.\<close>

definition running_drv :: "nat nand_drv" where
  "running_drv = (fresh_drv demo_base)\<lparr>rk_nand_dev_initialised := True, k_pm_usage := 1,
     drv_base := demo_base\<lparr>rk_nand_wait_busy_schedule := 1\<rparr>\<rparr>"

theorem pm_exclusive_witness:
  "\<exists>s. reachable pm_init (pm_step null_ftl blank_blob demo_gc) s \<and> rk_nand_suspend_state s
    \<and> ops_mutex (drv_io s) \<and> rknand_dev_flush blank_blob s = None"
proof -
  have i: "pm_init running_drv"
    by (simp add: pm_init_def running_drv_def fresh_drv_def demo_io_def)
  obtain s where s: "rknand_pm_suspend blank_blob running_drv = Some s" "rk_nand_suspend_state s"
    by (simp add: pm_ops running_drv_def fresh_drv_def demo_io_def)
  have r: "reachable pm_init (pm_step null_ftl blank_blob demo_gc) s"
  proof (rule reach_step)
    show "reachable pm_init (pm_step null_ftl blank_blob demo_gc) running_drv" by (rule reach_init) (rule i)
    show "pm_step null_ftl blank_blob demo_gc running_drv s" by (rule step_suspend) (rule s(1))
  qed
  show ?thesis
    using pm_exclusive [OF r] s(2) r by blast
qed

end
