(* ===== verification/Netpoll_Opt.thy ===== *)
theory Netpoll_Opt
  imports Rk_Prelude
begin

text \<open>
  \<open>netcon-port/netpoll.c\<close>, configuration: the \<open>netpoll\<close> structure and the parser of the option string
  \<open>[src-port]@[src-ip]/[dev],[tgt-port]@<tgt-ip>/[tgt-macaddr]\<close>. The number and address converters of
  the kernel's library are parameters.
\<close>

section \<open>Data\<close>

text \<open>
  \<open>union inet_addr\<close> is its 16 bytes, of which an IPv4 address uses the first four; \<open>np_dev\<close> is the
  index of the network device in use, if any.
\<close>

record netpoll =
  np_dev :: "nat option"
  np_dev_name :: string
  np_local_ip :: bytes
  np_remote_ip :: bytes
  np_ipv6 :: bool
  np_local_port :: u16
  np_remote_port :: u16
  np_remote_mac :: bytes

definition IFNAMSIZ :: nat where "IFNAMSIZ = 16"

text \<open>
  \<open>kstrtou16\<close> and \<open>kstrtobool\<close> return the value or a negative error. The two address parsers deliver
  the address and what follows it in the text, \<open>mac_pton\<close> the six bytes.
\<close>

record net_lib =
  kstrtou16 :: "string \<Rightarrow> int + u16"
  kstrtobool :: "string \<Rightarrow> int + bool"
  in_aton :: "string \<Rightarrow> bytes"
  in4_pton :: "string \<Rightarrow> (bytes \<times> string) option"
  in6_pton :: "string \<Rightarrow> (bytes \<times> string) option"
  mac_pton :: "string \<Rightarrow> bytes option"

text \<open>\<open>strchr\<close>: what precedes the first occurrence of a character and what follows it.\<close>

fun strchr :: "char \<Rightarrow> string \<Rightarrow> (string \<times> string) option" where
  "strchr c [] = None"
| "strchr c (x # xs) = (if x = c then Some ([], xs) else map_option (\<lambda>(a, b). (x # a, b)) (strchr c xs))"

text \<open>\<open>strscpy\<close> into a buffer of \<open>n\<close> characters keeps at most \<open>n - 1\<close> of them.\<close>

definition strscpy :: "string \<Rightarrow> nat \<Rightarrow> string" where
  "strscpy s n = take (n - 1) s"

text \<open>Writing an IPv4 address into the union leaves the other twelve bytes as they are.\<close>

definition put_ip4 :: "bytes \<Rightarrow> bytes \<Rightarrow> bytes" where
  "put_ip4 a u = a @ drop 4 u"

section \<open>Parser\<close>

text \<open>
  The result is the return value and the union afterwards: the IPv4 parser has already stored its
  address when the text behind it makes the function go on to the IPv6 parser.
\<close>

definition netpoll_parse_ip_addr :: "net_lib \<Rightarrow> string \<Rightarrow> bytes \<Rightarrow> int \<times> bytes" where
  "netpoll_parse_ip_addr L s addr =
     (case (if CHR '':'' \<in> set s then None else in4_pton L s) of
        Some (a, []) \<Rightarrow> (0, put_ip4 a addr)
      | r4 \<Rightarrow>
          (let addr = (case r4 of Some (a, _) \<Rightarrow> put_ip4 a addr | None \<Rightarrow> addr) in
           case in6_pton L s of
             Some (a, []) \<Rightarrow> (1, a)
           | Some (a, _) \<Rightarrow> (- 1, a)
           | None \<Rightarrow> (- 1, addr)))"

text \<open>
  One optional field: when the text does not begin with its delimiter, the part before the delimiter
  is handed to \<open>f\<close>; either way parsing goes on behind the delimiter. \<open>Inl\<close> is the jump to
  \<open>parse_failed\<close>, with the structure as it is then.
\<close>

definition opt_field ::
  "char \<Rightarrow> (string \<Rightarrow> netpoll \<Rightarrow> netpoll + netpoll) \<Rightarrow> string \<Rightarrow> netpoll \<Rightarrow> netpoll + netpoll \<times> string" where
  "opt_field d f cur np =
     (case cur of
        [] \<Rightarrow> Inl np
      | c # rest \<Rightarrow>
          if c = d then Inr (np, rest)
          else case strchr d cur of
                 None \<Rightarrow> Inl np
               | Some (w, rest) \<Rightarrow> (case f w np of Inl np \<Rightarrow> Inl np | Inr np \<Rightarrow> Inr (np, rest)))"

definition parse_local_port :: "net_lib \<Rightarrow> string \<Rightarrow> netpoll \<Rightarrow> netpoll + netpoll" where
  "parse_local_port L w np =
     (case kstrtou16 L w of Inl e \<Rightarrow> Inl np | Inr p \<Rightarrow> Inr (np\<lparr>np_local_port := p\<rparr>))"

definition parse_local_ip :: "net_lib \<Rightarrow> string \<Rightarrow> netpoll \<Rightarrow> netpoll + netpoll" where
  "parse_local_ip L w np =
     (let (ipv6, addr) = netpoll_parse_ip_addr L w (np_local_ip np); np = np\<lparr>np_local_ip := addr\<rparr>
      in if ipv6 < 0 then Inl np else Inr (np\<lparr>np_ipv6 := (ipv6 \<noteq> 0)\<rparr>))"

definition parse_dev_name :: "string \<Rightarrow> netpoll \<Rightarrow> netpoll + netpoll" where
  "parse_dev_name w np = Inr (np\<lparr>np_dev_name := strscpy w IFNAMSIZ\<rparr>)"

definition parse_remote_port :: "net_lib \<Rightarrow> string \<Rightarrow> netpoll \<Rightarrow> netpoll + netpoll" where
  "parse_remote_port L w np =
     (case kstrtou16 L w of Inl e \<Rightarrow> Inl np | Inr p \<Rightarrow> Inr (np\<lparr>np_remote_port := p\<rparr>))"

definition parse_remote :: "net_lib \<Rightarrow> bool \<Rightarrow> string \<Rightarrow> netpoll \<Rightarrow> int \<times> netpoll" where
  "parse_remote L ipversion_set cur np =
     (case strchr (CHR ''/'') cur of
        None \<Rightarrow> (- 1, np)
      | Some (w, mac) \<Rightarrow>
          (let (ipv6, addr) = netpoll_parse_ip_addr L w (np_remote_ip np); np = np\<lparr>np_remote_ip := addr\<rparr>
           in if ipv6 < 0 then (- 1, np)
              else if ipversion_set \<and> np_ipv6 np \<noteq> (ipv6 \<noteq> 0) then (- 1, np)
              else let np = np\<lparr>np_ipv6 := (ipv6 \<noteq> 0)\<rparr>
                in if mac \<noteq> [] then
                     (case mac_pton L mac of None \<Rightarrow> (- 1, np) | Some m \<Rightarrow> (0, np\<lparr>np_remote_mac := m\<rparr>))
                   else (0, np)))"

definition netpoll_parse_options :: "net_lib \<Rightarrow> netpoll \<Rightarrow> string \<Rightarrow> int \<times> netpoll" where
  "netpoll_parse_options L np opt =
     (case opt_field (CHR ''@'') (parse_local_port L) opt np of
        Inl np \<Rightarrow> (- 1, np)
      | Inr (np, cur) \<Rightarrow>
         (let ipversion_set = (cur = [] \<or> hd cur \<noteq> CHR ''/'') in
          case opt_field (CHR ''/'') (parse_local_ip L) cur np of
            Inl np \<Rightarrow> (- 1, np)
          | Inr (np, cur) \<Rightarrow>
             (case opt_field (CHR '','') parse_dev_name cur np of
                Inl np \<Rightarrow> (- 1, np)
              | Inr (np, cur) \<Rightarrow>
                 (case opt_field (CHR ''@'') (parse_remote_port L) cur np of
                    Inl np \<Rightarrow> (- 1, np)
                  | Inr (np, cur) \<Rightarrow> parse_remote L ipversion_set cur np))))"

section \<open>Specification\<close>

text \<open>
  The documented option string of a configuration, optional fields present when \<open>Some\<close>: ports,
  addresses and MAC as the formatter prints them.
\<close>

record net_fmt =
  fmt_ip :: "bool \<Rightarrow> bytes \<Rightarrow> string"
  fmt_mac :: "bytes \<Rightarrow> string"

record opt_spec =
  o_local_port :: "u16 option"
  o_local_ip :: "bytes option"
  o_dev :: "string option"
  o_remote_port :: "u16 option"
  o_remote_ip :: bytes
  o_ipv6 :: bool
  o_mac :: "bytes option"

definition opt_string :: "net_fmt \<Rightarrow> opt_spec \<Rightarrow> string" where
  "opt_string F c =
     (case o_local_port c of None \<Rightarrow> [] | Some p \<Rightarrow> dec_digits (unat p)) @ ''@''
     @ (case o_local_ip c of None \<Rightarrow> [] | Some a \<Rightarrow> fmt_ip F (o_ipv6 c) a) @ ''/''
     @ (case o_dev c of None \<Rightarrow> [] | Some d \<Rightarrow> d) @ '',''
     @ (case o_remote_port c of None \<Rightarrow> [] | Some p \<Rightarrow> dec_digits (unat p)) @ ''@''
     @ fmt_ip F (o_ipv6 c) (o_remote_ip c) @ ''/''
     @ (case o_mac c of None \<Rightarrow> [] | Some m \<Rightarrow> fmt_mac F m)"

definition opt_apply :: "opt_spec \<Rightarrow> netpoll \<Rightarrow> netpoll" where
  "opt_apply c np = np
     \<lparr>np_local_port := (case o_local_port c of None \<Rightarrow> np_local_port np | Some p \<Rightarrow> p),
      np_local_ip := (case o_local_ip c of None \<Rightarrow> np_local_ip np
        | Some a \<Rightarrow> if o_ipv6 c then a else put_ip4 a (np_local_ip np)),
      np_dev_name := (case o_dev c of None \<Rightarrow> np_dev_name np | Some d \<Rightarrow> d),
      np_remote_port := (case o_remote_port c of None \<Rightarrow> np_remote_port np | Some p \<Rightarrow> p),
      np_remote_ip := (if o_ipv6 c then o_remote_ip c else put_ip4 (o_remote_ip c) (np_remote_ip np)),
      np_ipv6 := o_ipv6 c,
      np_remote_mac := (case o_mac c of None \<Rightarrow> np_remote_mac np | Some m \<Rightarrow> m)\<rparr>"

text \<open>
  What the library's converters promise about the texts of the formatter: decimal ports and addresses
  are read back, an IPv4 text has no colon and an IPv6 text has one, and no text holds a delimiter.
\<close>

definition lib_reads_back :: "net_lib \<Rightarrow> net_fmt \<Rightarrow> bool" where
  "lib_reads_back L F \<longleftrightarrow> (\<forall>p. kstrtou16 L (dec_digits (unat p)) = Inr p)
     \<and> (\<forall>a. length a = 4 \<longrightarrow> in4_pton L (fmt_ip F False a) = Some (a, []) \<and> CHR '':'' \<notin> set (fmt_ip F False a))
     \<and> (\<forall>a. length a = 16 \<longrightarrow> in6_pton L (fmt_ip F True a) = Some (a, []) \<and> CHR '':'' \<in> set (fmt_ip F True a))
     \<and> (\<forall>v a. length a = (if v then 16 else 4) \<longrightarrow> fmt_ip F v a \<noteq> [] \<and> CHR ''/'' \<notin> set (fmt_ip F v a))
     \<and> (\<forall>m. length m = 6 \<longrightarrow> fmt_mac F m \<noteq> [] \<and> mac_pton L (fmt_mac F m) = Some m)"

definition opt_wf :: "opt_spec \<Rightarrow> bool" where
  "opt_wf c \<longleftrightarrow> length (o_remote_ip c) = (if o_ipv6 c then 16 else 4)
     \<and> (\<forall>a. o_local_ip c = Some a \<longrightarrow> length a = (if o_ipv6 c then 16 else 4))
     \<and> (\<forall>d. o_dev c = Some d \<longrightarrow> d \<noteq> [] \<and> length d < IFNAMSIZ \<and> CHR '','' \<notin> set d)
     \<and> (\<forall>m. o_mac c = Some m \<longrightarrow> length m = 6)"

section \<open>Lemmas\<close>

lemma strchr_append: "c \<notin> set w \<Longrightarrow> strchr c (w @ c # rest) = Some (w, rest)"
  by (induction w) auto

lemma opt_field_reads:
  assumes "if w = [] then np' = np else d \<notin> set w \<and> f w np = Inr np'"
  shows "opt_field d f (w @ d # rest) np = Inr (np', rest)"
  using assms strchr_append [of d w rest] by (cases w) (auto simp: opt_field_def)

lemma digits_ne: "dec_digits n \<noteq> []"
  by (simp add: dec_digits.simps [of n])

lemma digits_no_at: "CHR ''@'' \<notin> set (dec_digits n)"
  using dec_digits_char [of "CHR ''@''" n] by auto

lemma parse_ip_reads_back:
  assumes "lib_reads_back L F" "length a = (if v then 16 else 4)"
  shows "netpoll_parse_ip_addr L (fmt_ip F v a) u = (if v then (1, a) else (0, put_ip4 a u))"
  using assms by (cases v) (auto simp: lib_reads_back_def netpoll_parse_ip_addr_def)

text \<open>Each field of the option string is read back by its parser; an absent field leaves the parameter.\<close>

lemma port_field:
  assumes "lib_reads_back L F"
  defines "w \<equiv> (\<lambda>p. case p of None \<Rightarrow> [] | Some p \<Rightarrow> dec_digits (unat p))"
  shows "opt_field (CHR ''@'') (parse_local_port L) (w p @ CHR ''@'' # r) np
      = Inr (np\<lparr>np_local_port := (case p of None \<Rightarrow> np_local_port np | Some p \<Rightarrow> p)\<rparr>, r)"
    and "opt_field (CHR ''@'') (parse_remote_port L) (w p @ CHR ''@'' # r) np
      = Inr (np\<lparr>np_remote_port := (case p of None \<Rightarrow> np_remote_port np | Some p \<Rightarrow> p)\<rparr>, r)"
  using assms digits_ne digits_no_at unfolding lib_reads_back_def
  by (intro opt_field_reads; auto simp: parse_local_port_def parse_remote_port_def split: option.splits)+

lemma local_ip_field:
  assumes L: "lib_reads_back L F" and c: "opt_wf c"
  defines "w \<equiv> (case o_local_ip c of None \<Rightarrow> [] | Some a \<Rightarrow> fmt_ip F (o_ipv6 c) a)"
  shows "opt_field (CHR ''/'') (parse_local_ip L) (w @ CHR ''/'' # r) np
      = Inr (case o_local_ip c of None \<Rightarrow> np | Some a \<Rightarrow>
          np\<lparr>np_local_ip := if o_ipv6 c then a else put_ip4 a (np_local_ip np), np_ipv6 := o_ipv6 c\<rparr>, r)"
    and "(w @ CHR ''/'' # r = [] \<or> hd (w @ CHR ''/'' # r) \<noteq> CHR ''/'') = (o_local_ip c \<noteq> None)"
proof -
  have "case o_local_ip c of None \<Rightarrow> w = [] | Some a \<Rightarrow> w \<noteq> [] \<and> CHR ''/'' \<notin> set w
      \<and> (\<forall>u. netpoll_parse_ip_addr L w u = (if o_ipv6 c then (1, a) else (0, put_ip4 a u)))"
    using L c parse_ip_reads_back [OF L] by (auto simp: w_def lib_reads_back_def opt_wf_def split: option.splits)
  then show "opt_field (CHR ''/'') (parse_local_ip L) (w @ CHR ''/'' # r) np
      = Inr (case o_local_ip c of None \<Rightarrow> np | Some a \<Rightarrow>
          np\<lparr>np_local_ip := if o_ipv6 c then a else put_ip4 a (np_local_ip np), np_ipv6 := o_ipv6 c\<rparr>, r)"
    "(w @ CHR ''/'' # r = [] \<or> hd (w @ CHR ''/'' # r) \<noteq> CHR ''/'') = (o_local_ip c \<noteq> None)"
    by (intro opt_field_reads, auto simp: parse_local_ip_def split: option.splits) (cases w, auto split: option.splits)
qed

lemma dev_field:
  assumes "opt_wf c"
  shows "opt_field (CHR '','') parse_dev_name ((case o_dev c of None \<Rightarrow> [] | Some d \<Rightarrow> d) @ CHR '','' # r) np
      = Inr (np\<lparr>np_dev_name := (case o_dev c of None \<Rightarrow> np_dev_name np | Some d \<Rightarrow> d)\<rparr>, r)"
  using assms by (intro opt_field_reads)
    (auto simp: opt_wf_def parse_dev_name_def strscpy_def IFNAMSIZ_def split: option.splits)

lemma remote_fields:
  assumes L: "lib_reads_back L F" and c: "opt_wf c"
    and v: "o_local_ip c \<noteq> None \<longrightarrow> np_ipv6 np = o_ipv6 c"
  shows "parse_remote L (o_local_ip c \<noteq> None) (fmt_ip F (o_ipv6 c) (o_remote_ip c) @ CHR ''/''
        # (case o_mac c of None \<Rightarrow> [] | Some m \<Rightarrow> fmt_mac F m)) np
    = (0, np\<lparr>np_remote_ip := if o_ipv6 c then o_remote_ip c else put_ip4 (o_remote_ip c) (np_remote_ip np),
        np_ipv6 := o_ipv6 c, np_remote_mac := (case o_mac c of None \<Rightarrow> np_remote_mac np | Some m \<Rightarrow> m)\<rparr>)"
proof -
  have "strchr (CHR ''/'') (fmt_ip F (o_ipv6 c) (o_remote_ip c) @ CHR ''/'' # r)
      = Some (fmt_ip F (o_ipv6 c) (o_remote_ip c), r)" for r
    using L c by (intro strchr_append) (simp add: lib_reads_back_def opt_wf_def)
  moreover have "netpoll_parse_ip_addr L (fmt_ip F (o_ipv6 c) (o_remote_ip c)) u
      = (if o_ipv6 c then (1, o_remote_ip c) else (0, put_ip4 (o_remote_ip c) u))" for u
    using c by (intro parse_ip_reads_back [OF L]) (simp add: opt_wf_def)
  moreover have "\<forall>m. o_mac c = Some m \<longrightarrow> fmt_mac F m \<noteq> [] \<and> mac_pton L (fmt_mac F m) = Some m"
    using L c by (simp add: lib_reads_back_def opt_wf_def)
  ultimately show ?thesis
    using v by (cases "o_ipv6 c"; cases "o_mac c"; cases "o_local_ip c") (simp_all add: parse_remote_def)
qed

section \<open>Properties\<close>

text \<open>
  C21: the parser inverts the documented option format. For every configuration, with or without each
  optional field, over IPv4 and IPv6, parsing its option string succeeds and sets exactly the fields the
  string gives; the others keep their defaults.
\<close>

theorem parse_options_roundtrip:
  assumes L: "lib_reads_back L F" and c: "opt_wf c"
  shows "netpoll_parse_options L np (opt_string F c) = (0, opt_apply c np)"
  unfolding opt_string_def netpoll_parse_options_def
  by (simp only: append_assoc append_Cons append_Nil port_field [OF L] local_ip_field [OF L c] dev_field [OF c]
        sum.case prod.case Let_def, subst remote_fields [OF L c])
     (auto simp: opt_apply_def split: option.splits)

section \<open>Witness\<close>

text \<open>
  A library over a notation of its own: bytes in two letters each, an IPv6 address marked by a colon in
  front, decimal ports read back by search.
\<close>

definition nib_text :: "u8 \<Rightarrow> string" where
  "nib_text b = [char_of (65 + unat b div 16), char_of (65 + unat b mod 16)]"

fun nib_read :: "string \<Rightarrow> bytes" where
  "nib_read (a # b # s) = of_nat ((of_char a - 65) * 16 + (of_char b - 65)) # nib_read s"
| "nib_read _ = []"

definition nib_fmt :: net_fmt where
  "nib_fmt = \<lparr>fmt_ip = (\<lambda>v a. (if v then '':'' else []) @ concat (map nib_text a)),
     fmt_mac = (\<lambda>m. concat (map nib_text m))\<rparr>"

definition dec_read :: "string \<Rightarrow> int + u16" where
  "dec_read s = (case find (\<lambda>n. dec_digits n = s) [0..<65536] of None \<Rightarrow> Inl (- 22) | Some n \<Rightarrow> Inr (of_nat n))"

definition nib_lib :: net_lib where
  "nib_lib = \<lparr>kstrtou16 = dec_read, kstrtobool = (\<lambda>s. Inl (- 22)), in_aton = nib_read,
     in4_pton = (\<lambda>s. Some (nib_read s, [])), in6_pton = (\<lambda>s. Some (nib_read (tl s), [])),
     mac_pton = (\<lambda>s. Some (nib_read s))\<rparr>"

lemma dec_digits_inj: "dec_digits m = dec_digits n \<Longrightarrow> m = n"
proof (induction m arbitrary: n rule: dec_digits.induct)
  case (1 m)
  have inj: "x = y" if "(char_of (48 + x) :: char) = char_of (48 + y)" "x < 10" "y < 10" for x y :: nat
  proof -
    have "(of_char (char_of (48 + x) :: char) :: nat) = of_char (char_of (48 + y) :: char)" using that(1) by simp
    then show ?thesis using that(2,3) by simp
  qed
  show ?case
  proof (cases "m < 10"; cases "n < 10")
    assume "m < 10" "n < 10"
    then show ?thesis using 1(2) inj by (simp add: dec_digits.simps [of m] dec_digits.simps [of n])
  next
    assume "\<not> m < 10" "\<not> n < 10"
    then have e: "dec_digits (m div 10) = dec_digits (n div 10)"
      "(char_of (48 + m mod 10) :: char) = char_of (48 + n mod 10)"
      using 1(2) by (simp_all add: dec_digits.simps [of m] dec_digits.simps [of n])
    have "m div 10 = n div 10" using 1(1) [OF \<open>\<not> m < 10\<close> e(1)] .
    moreover have "m mod 10 = n mod 10" using inj [OF e(2)] by simp
    ultimately show ?thesis by (metis mult_div_mod_eq)
  qed (use 1(2) digits_ne [of "m div 10"] digits_ne [of "n div 10"] in
      \<open>auto simp: dec_digits.simps [of m] dec_digits.simps [of n]\<close>)
qed

lemma dec_read_digits: "dec_read (dec_digits (unat (p :: u16))) = Inr p"
proof -
  have "find (\<lambda>n. dec_digits n = dec_digits (unat p)) [0..<65536] = Some (unat p)"
    using unsigned_less [where 'a = nat, of p]
    by (auto simp: find_Some_iff intro!: exI [of _ "unat p"] dest!: dec_digits_inj)
  then show ?thesis by (simp add: dec_read_def)
qed

lemma nib_roundtrip: "nib_read (concat (map nib_text a)) = a"
proof (induction a)
  case (Cons b a)
  have "unat b < 256" using unsigned_less [where 'a = nat, of b] by simp
  then have "(of_nat (unat b div 16 * 16 + unat b mod 16) :: u8) = b" by simp
  then show ?case using Cons \<open>unat b < 256\<close> by (simp add: nib_text_def)
qed simp

lemma nib_chars: "c \<in> set (concat (map nib_text a)) \<Longrightarrow> 65 \<le> (of_char c :: nat)"
proof -
  assume "c \<in> set (concat (map nib_text a))"
  then obtain b where "c \<in> set (nib_text b)" by auto
  moreover have "unat b < 256" using unsigned_less [where 'a = nat, of b] by simp
  ultimately show ?thesis by (auto simp: nib_text_def)
qed

lemma nib_lib_ok: "lib_reads_back nib_lib nib_fmt"
proof -
  have "CHR '':'' \<notin> set (concat (map nib_text a))" "CHR ''/'' \<notin> set (concat (map nib_text a))" for a
    using nib_chars [of "CHR '':''" a] nib_chars [of "CHR ''/''" a] by auto
  moreover have "length a = 4 \<or> length a = 6 \<Longrightarrow> concat (map nib_text a) \<noteq> []" for a
    by (cases a) (auto simp: nib_text_def)
  ultimately show ?thesis
    unfolding lib_reads_back_def nib_lib_def nib_fmt_def
    by (simp add: dec_read_digits nib_roundtrip del: concat_eq_Nil_conv set_concat)
qed

theorem parse_options_roundtrip_witness:
  "\<exists>np. netpoll_parse_options nib_lib np (opt_string nib_fmt
      \<lparr>o_local_port = Some 6665, o_local_ip = None, o_dev = Some ''eth1'', o_remote_port = None,
       o_remote_ip = [10, 0, 0, 1], o_ipv6 = False, o_mac = None\<rparr>) = (0, np\<lparr>np_local_port := 6665, np_dev_name := ''eth1'',
         np_remote_ip := [10, 0, 0, 1] @ drop 4 (np_remote_ip np), np_ipv6 := False\<rparr>)"
  using parse_options_roundtrip [OF nib_lib_ok, of "\<lparr>o_local_port = Some 6665, o_local_ip = None, o_dev = Some ''eth1'',
      o_remote_port = None, o_remote_ip = [10, 0, 0, 1], o_ipv6 = False, o_mac = None\<rparr>"]
  by (auto simp: opt_wf_def IFNAMSIZ_def opt_apply_def put_ip4_def)

end
