(* ===== verification/Netpoll_Dev.thy ===== *)
theory Netpoll_Dev
  imports Netpoll_Opt
begin

text \<open>
  \<open>netcon-port/netpoll.c\<close>, attachment: \<open>netpoll_setup\<close> and \<open>netpoll_cleanup\<close>, the per-device
  \<open>netpoll_info\<close> with its reference count, and the references on the device itself. Network devices and
  \<open>netpoll_info\<close> blocks live in explicit tables; a freed block is not in its table.
\<close>

section \<open>State\<close>

record skb =
  skb_data :: bytes
  skb_dev :: nat
  skb_queue_mapping :: nat
  skb_vlan :: "u16 option"

text \<open>\<open>ni_dev_lock\<close>: the count of the semaphore. \<open>ni_tx_work\<close>: the delay the work is scheduled with.\<close>

record netpoll_info =
  ni_refcnt :: nat
  ni_dev_lock :: nat
  ni_txq :: "skb list"
  ni_tx_work :: "nat option"
  ni_netpoll :: string

text \<open>
  \<open>nd_ifa\<close> is the IPv4 address list of the device (\<open>None\<close> without an \<open>in_device\<close>), \<open>nd_ifa6\<close> the IPv6 one;
  \<open>nd_xmit_owner\<close> is the lock owner of every transmit queue, \<open>nd_ll_reserved\<close> is \<open>LL_RESERVED_SPACE\<close> of the device.
\<close>

record napi =
  napi_owner :: int
  napi_npsvc :: bool

record net_device =
  nd_name :: string
  nd_disable_netpoll :: bool
  nd_master :: bool
  nd_running :: bool
  nd_present :: bool
  nd_npinfo :: "nat option"
  nd_refs :: int
  nd_ifa :: "bytes list option"
  nd_ifa6 :: "bytes list option"
  nd_real_num_tx_queues :: nat
  nd_addr :: bytes
  nd_napis :: "napi list"
  nd_poll_controller :: bool
  nd_xmit_owner :: "int list"
  nd_ll_reserved :: nat
  nd_tailroom :: nat

definition MAX_SKBS :: nat where "MAX_SKBS = 32"

record net =
  net_devs :: "net_device list"
  net_infos :: "nat \<Rightarrow> netpoll_info option"
  net_next :: nat
  skb_pool :: nat
  net_dropped :: "skb list"

abbreviation dev_update :: "nat \<Rightarrow> (net_device \<Rightarrow> net_device) \<Rightarrow> net \<Rightarrow> net" where
  "dev_update d f N \<equiv> N\<lparr>net_devs := (net_devs N)[d := f (net_devs N ! d)]\<rparr>"

text \<open>
  What the kernel answers during one setup: opening the device, the carrier and the clock at each turn of
  the wait, the allocations, the driver's setup hook (\<open>None\<close> when it has none) and which IPv6
  addresses are link-local.
\<close>

record setup_env =
  se_open :: int
  se_carrier :: "nat \<Rightarrow> bool"
  se_jiffies :: "nat \<Rightarrow> ulong"
  se_skbs :: nat
  se_alloc :: bool
  se_ndo_setup :: "int option"
  se_linklocal :: "bytes \<Rightarrow> bool"

definition ENOTSUPP :: int where "ENOTSUPP = 524"
definition EDESTADDRREQ :: int where "EDESTADDRREQ = 89"
definition carrier_timeout :: ulong where "carrier_timeout = 4"

text \<open>\<open>netpoll_init\<close> starts with an empty pool.\<close>

definition netpoll_init :: "net \<Rightarrow> net" where "netpoll_init N = N\<lparr>skb_pool := 0\<rparr>"

section \<open>Setup\<close>

definition time_after :: "ulong \<Rightarrow> ulong \<Rightarrow> bool" where
  "time_after a b \<longleftrightarrow> sint (b - a) < 0"

text \<open>The wait for the carrier, turn \<open>k\<close>; the result is the number of sleeps.\<close>

partial_function (option) carrier_wait :: "(nat \<Rightarrow> bool) \<Rightarrow> (nat \<Rightarrow> ulong) \<Rightarrow> ulong \<Rightarrow> nat \<Rightarrow> nat option" where
  "carrier_wait carrier jiffies atmost k =
     (if carrier k then Some k
      else if time_after (jiffies k) atmost then Some k
      else carrier_wait carrier jiffies atmost (Suc k))"

text \<open>\<open>refill_skbs\<close> when \<open>n\<close> further allocations succeed.\<close>

definition refill_skbs :: "nat \<Rightarrow> nat \<Rightarrow> nat" where
  "refill_skbs n pool = (if pool < MAX_SKBS then min MAX_SKBS (pool + n) else pool)"

text \<open>\<open>__netpoll_setup\<close>. The driver's hook runs on the new block before it is linked.\<close>

definition netpoll_setup_dev :: "setup_env \<Rightarrow> nat \<Rightarrow> netpoll \<Rightarrow> net \<Rightarrow> int \<times> netpoll \<times> net" where
  "netpoll_setup_dev E d np N =
     (let ndev = net_devs N ! d;
          np = np\<lparr>np_dev := Some d, np_dev_name := strscpy (nd_name ndev) IFNAMSIZ\<rparr>
      in if nd_disable_netpoll ndev then (- ENOTSUPP, np, N)
         else case nd_npinfo ndev of
           None \<Rightarrow>
             if \<not> se_alloc E then (- ENOMEM, np, N)
             else
               (let p = net_next N;
                    err = (case se_ndo_setup E of None \<Rightarrow> 0 | Some err \<Rightarrow> err)
                in if err \<noteq> 0 then (err, np, N)
                   else (0, np, dev_update d (nd_npinfo_update (\<lambda>_. Some p))
                     (N\<lparr>net_next := p + 1,
                        net_infos := (net_infos N)(p \<mapsto> \<lparr>ni_refcnt = 1, ni_dev_lock = 1, ni_txq = [],
                          ni_tx_work = None, ni_netpoll = np_dev_name np\<rparr>)\<rparr>)))
         | Some p \<Rightarrow>
             (0, np, N\<lparr>net_infos := (net_infos N)(p := map_option
                (\<lambda>i. i\<lparr>ni_refcnt := ni_refcnt i + 1, ni_netpoll := np_dev_name np\<rparr>) (net_infos N p))\<rparr>))"

fun find_dev :: "string \<Rightarrow> net_device list \<Rightarrow> nat \<Rightarrow> nat option" where
  "find_dev name [] i = None"
| "find_dev name (d # ds) i = (if nd_name d = name then Some i else find_dev name ds (Suc i))"

text \<open>The choice of a local address; \<open>Inl\<close> is the error.\<close>

definition setup_local_ip :: "setup_env \<Rightarrow> net_device \<Rightarrow> netpoll \<Rightarrow> int + netpoll" where
  "setup_local_ip E ndev np =
     (if take 4 (np_local_ip np) \<noteq> replicate 4 0 then Inr np
      else if \<not> np_ipv6 np then
        (case nd_ifa ndev of
           None \<Rightarrow> Inl (- EDESTADDRREQ)
         | Some [] \<Rightarrow> Inl (- EDESTADDRREQ)
         | Some (a # _) \<Rightarrow> Inr (np\<lparr>np_local_ip := put_ip4 a (np_local_ip np)\<rparr>))
      else
        (case nd_ifa6 ndev of
           None \<Rightarrow> Inl (- EDESTADDRREQ)
         | Some as \<Rightarrow>
             (case find (\<lambda>a. se_linklocal E a = se_linklocal E (np_remote_ip np)) as of
                None \<Rightarrow> Inl (- EDESTADDRREQ)
              | Some a \<Rightarrow> Inr (np\<lparr>np_local_ip := a\<rparr>))))"

text \<open>From the reference taken on the device on; the label \<open>put\<close> drops it again.\<close>

definition netpoll_setup_held :: "setup_env \<Rightarrow> nat \<Rightarrow> netpoll \<Rightarrow> net \<Rightarrow> (int \<times> netpoll \<times> net) option" where
  "netpoll_setup_held E d np N =
     (if nd_master (net_devs N ! d) then Some (- EBUSY, np, N)
      else do {
        (err, N) \<leftarrow> (if nd_running (net_devs N ! d) then Some (0, N)
                     else if se_open E \<noteq> 0 then Some (se_open E, N)
                     else map_option (\<lambda>_. (0, dev_update d (nd_running_update (\<lambda>_. True)) N))
                       (carrier_wait (se_carrier E) (se_jiffies E) (se_jiffies E 0 + carrier_timeout * HZ) 0));
        if err \<noteq> 0 then Some (err, np, N)
        else case setup_local_ip E (net_devs N ! d) np of
               Inl err \<Rightarrow> Some (err, np, N)
             | Inr np \<Rightarrow> Some (netpoll_setup_dev E d np (N\<lparr>skb_pool := refill_skbs (se_skbs E) (skb_pool N)\<rparr>)) })"

definition netpoll_setup :: "setup_env \<Rightarrow> netpoll \<Rightarrow> net \<Rightarrow> (int \<times> netpoll \<times> net) option" where
  "netpoll_setup E np N =
     (case (if np_dev_name np \<noteq> [] then find_dev (np_dev_name np) (net_devs N) 0 else None) of
        None \<Rightarrow> Some (- ENODEV, np, N)
      | Some d \<Rightarrow>
          map_option (\<lambda>(err, np, N). (err, np, if err \<noteq> 0 then dev_update d (nd_refs_update (\<lambda>r. r - 1)) N else N))
            (netpoll_setup_held E d np (dev_update d (nd_refs_update (\<lambda>r. r + 1)) N)))"

section \<open>Cleanup\<close>

text \<open>The RCU callback: what is still queued is dropped and the block is freed.\<close>

definition rcu_cleanup_netpoll_info :: "nat \<Rightarrow> net \<Rightarrow> net" where
  "rcu_cleanup_netpoll_info p N =
     N\<lparr>net_dropped := net_dropped N @ (case net_infos N p of None \<Rightarrow> [] | Some i \<Rightarrow> ni_txq i),
       net_infos := (net_infos N)(p := None)\<rparr>"

text \<open>\<open>__netpoll_cleanup\<close>; \<open>None\<close> is the use of a device pointer that is NULL.\<close>

definition netpoll_cleanup_dev :: "netpoll \<Rightarrow> net \<Rightarrow> net option" where
  "netpoll_cleanup_dev np N =
     (case np_dev np of
        None \<Rightarrow> None
      | Some d \<Rightarrow>
          (case nd_npinfo (net_devs N ! d) of
             None \<Rightarrow> Some N
           | Some p \<Rightarrow>
               (case net_infos N p of
                  None \<Rightarrow> None
                | Some i \<Rightarrow>
                    (let N = N\<lparr>net_infos := (net_infos N)(p \<mapsto> i\<lparr>ni_refcnt := ni_refcnt i - 1\<rparr>)\<rparr>
                     in if ni_refcnt i = 1
                        then Some (rcu_cleanup_netpoll_info p (dev_update d (nd_npinfo_update (\<lambda>_. None)) N))
                        else Some (dev_update d (nd_npinfo_update (\<lambda>_. None)) N)))))"

text \<open>\<open>__netpoll_free\<close>: cleanup of a target that is freed with it.\<close>

definition netpoll_free :: "netpoll \<Rightarrow> net \<Rightarrow> net option" where
  "netpoll_free np N = netpoll_cleanup_dev np N"

definition netpoll_cleanup :: "netpoll \<Rightarrow> net \<Rightarrow> (netpoll \<times> net) option" where
  "netpoll_cleanup np N =
     (case np_dev np of
        None \<Rightarrow> Some (np, N)
      | Some d \<Rightarrow>
          map_option (\<lambda>N. (np\<lparr>np_dev := None\<rparr>, dev_update d (nd_refs_update (\<lambda>r. r - 1)) N))
            (netpoll_cleanup_dev np N))"

section \<open>Lemmas\<close>

text \<open>Every device that has a \<open>netpoll_info\<close> has a live one, and the next block is free.\<close>

definition net_wf :: "net \<Rightarrow> bool" where
  "net_wf N \<longleftrightarrow> (\<forall>d < length (net_devs N). \<forall>p. nd_npinfo (net_devs N ! d) = Some p \<longrightarrow>
       (\<exists>i. net_infos N p = Some i \<and> ni_refcnt i \<noteq> 0)) \<and> net_infos N (net_next N) = None"

text \<open>Two states that hold the same references, blocks and links.\<close>

definition same_holds :: "net \<Rightarrow> net \<Rightarrow> bool" where
  "same_holds N N' \<longleftrightarrow> map nd_refs (net_devs N') = map nd_refs (net_devs N)
     \<and> map nd_npinfo (net_devs N') = map nd_npinfo (net_devs N) \<and> net_infos N' = net_infos N
     \<and> net_dropped N' = net_dropped N"

lemma find_dev_bound: "find_dev name ds i = Some d \<Longrightarrow> i \<le> d \<and> d < i + length ds"
  by (induction name ds i rule: find_dev.induct) (auto split: if_splits)

lemma carrier_wait_stops:
  assumes "carrier (k + n) \<or> time_after (jiffies (k + n)) atmost"
  shows "\<exists>m. carrier_wait carrier jiffies atmost k = Some m"
  using assms
proof (induction n arbitrary: k)
  case 0
  then show ?case by (auto simp: carrier_wait.simps [of carrier jiffies atmost k])
next
  case (Suc n)
  show ?case
  proof (cases "carrier k \<or> time_after (jiffies k) atmost")
    case True
    then show ?thesis by (auto simp: carrier_wait.simps [of carrier jiffies atmost k])
  next
    case False
    moreover have "carrier (Suc k + n) \<or> time_after (jiffies (Suc k + n)) atmost" using Suc.prems by simp
    ultimately show ?thesis using Suc.IH [of "Suc k"] by (simp add: carrier_wait.simps [of carrier jiffies atmost k])
  qed
qed

text \<open>The clock: it starts anywhere, moves on with every sleep, and never jumps by half its range.\<close>

definition clock_runs :: "(nat \<Rightarrow> ulong) \<Rightarrow> bool" where
  "clock_runs jiffies \<longleftrightarrow> (\<exists>t. t 0 = 0 \<and> (\<forall>k. t k < t (Suc k) \<and> t (Suc k) \<le> t k + 2 ^ 30)
     \<and> (\<forall>k. jiffies k = jiffies 0 + of_nat (t k)))"

lemma time_after_small:
  assumes "n < m" "m < n + 2 ^ 31"
  shows "time_after (j + of_nat m) (j + of_nat n)"
proof -
  define r where "r = int n - int m"
  have "(j + of_nat n) - (j + of_nat m) = (of_int r :: 32 word)" by (simp add: r_def)
  moreover have "- (2 ^ 31) \<le> r" "r < 0" using assms by (simp_all add: r_def)
  then have "sint (of_int r :: 32 word) = r" by (simp add: signed_of_int signed_take_bit_int_eq_self)
  ultimately show ?thesis using \<open>r < 0\<close> unfolding time_after_def by simp
qed

lemma carrier_wait_returns:
  assumes "clock_runs jiffies"
  shows "\<exists>m. carrier_wait carrier jiffies (jiffies 0 + carrier_timeout * HZ) 0 = Some m"
proof -
  obtain t where t: "t 0 = 0" "\<And>k. t k < t (Suc k)" "\<And>k. t (Suc k) \<le> t k + 2 ^ 30"
    "\<And>k. jiffies k = jiffies 0 + of_nat (t k)" using assms by (auto simp: clock_runs_def)
  have "k \<le> t k" for k
  proof (induction k)
    case (Suc k)
    then show ?case using t(2) [of k] by simp
  qed simp
  from this [of 1001] have "t 1001 > 1000" by simp
  then have k: "t k > 1000" "\<And>j. j < k \<Longrightarrow> t j \<le> 1000" if "k = (LEAST k. t k > 1000)" for k
    using that by (auto intro: LeastI dest: not_less_Least)
  define k where "k = (LEAST k. t k > 1000)"
  note k = k [OF k_def]
  obtain j where j: "k = Suc j" using k(1) t(1) by (cases k) auto
  have "t k < 1000 + 2 ^ 31" using t(3) [of j] k(2) [of j] j by simp
  then have "time_after (jiffies 0 + of_nat (t k)) (jiffies 0 + of_nat 1000)" by (rule time_after_small [OF k(1)])
  moreover have "carrier_timeout * HZ = of_nat 1000" by (simp add: carrier_timeout_def HZ_def)
  ultimately show ?thesis
    using carrier_wait_stops [of carrier 0 k jiffies] t(4) [of k] by auto
qed

lemma map_dev_update: "f (g x) = f x \<Longrightarrow> map f (xs[d := g (xs ! d)]) = map f xs" if "x = xs ! d"
proof (cases "d < length xs")
  case True
  moreover assume "f (g x) = f x"
  ultimately have "(map f xs)[d := f (g (xs ! d))] = map f xs" using that by (intro list_update_same_conv [THEN iffD2]) auto
  then show ?thesis by (simp add: map_update)
qed (simp add: list_update_beyond)

lemma same_holds_refl [simp]: "same_holds N N" "same_holds N (N\<lparr>skb_pool := p\<rparr>)"
  by (simp_all add: same_holds_def)

lemma same_holds_trans: "same_holds N M \<Longrightarrow> same_holds M K \<Longrightarrow> same_holds N K"
  by (simp add: same_holds_def)

lemma same_holds_running: "same_holds N (dev_update d (nd_running_update (\<lambda>_. r)) N)"
  by (simp add: same_holds_def map_dev_update [OF refl])

lemma same_holds_nth: "same_holds N M \<Longrightarrow> d < length (net_devs N) \<Longrightarrow>
    nd_npinfo (net_devs M ! d) = nd_npinfo (net_devs N ! d) \<and> nd_refs (net_devs M ! d) = nd_refs (net_devs N ! d)
    \<and> length (net_devs M) = length (net_devs N)"
  unfolding same_holds_def by (metis length_map nth_map)

text \<open>What the steps before \<open>__netpoll_setup\<close> leave alone.\<close>

lemma held_cases:
  assumes h: "netpoll_setup_held E d np N = Some (err, np', N')"
  shows "err \<noteq> 0 \<and> np' = np \<and> same_holds N N' \<and> net_next N' = net_next N
    \<or> (\<exists>np1 M. netpoll_setup_dev E d np1 M = (err, np', N') \<and> same_holds N M \<and> net_next M = net_next N
        \<and> map nd_disable_netpoll (net_devs M) = map nd_disable_netpoll (net_devs N))"
proof -
  have ip_err: "e \<noteq> 0" if "setup_local_ip E D np = Inl e" for D e
    using that by (auto simp: setup_local_ip_def EDESTADDRREQ_def split: if_splits option.splits list.splits)
  have tail: ?thesis if h: "(case setup_local_ip E (net_devs M ! d) np of Inl err \<Rightarrow> Some (err, np, M)
      | Inr np \<Rightarrow> Some (netpoll_setup_dev E d np (M\<lparr>skb_pool := q\<rparr>))) = Some (err, np', N')"
    and M: "same_holds N M" "net_next M = net_next N"
      "map nd_disable_netpoll (net_devs M) = map nd_disable_netpoll (net_devs N)" for M q
  proof (cases "setup_local_ip E (net_devs M ! d) np")
    case (Inl e)
    then show ?thesis using h M ip_err by auto
  next
    case (Inr np1)
    then have "netpoll_setup_dev E d np1 (M\<lparr>skb_pool := q\<rparr>) = (err, np', N')" using h by simp
    moreover have "same_holds N (M\<lparr>skb_pool := q\<rparr>)" by (rule same_holds_trans [OF M(1)]) simp
    moreover have "net_next (M\<lparr>skb_pool := q\<rparr>) = net_next N"
      "map nd_disable_netpoll (net_devs (M\<lparr>skb_pool := q\<rparr>)) = map nd_disable_netpoll (net_devs N)" using M(2,3) by simp_all
    ultimately show ?thesis by blast
  qed
  consider "nd_master (net_devs N ! d)" | "\<not> nd_master (net_devs N ! d)" "nd_running (net_devs N ! d)"
    | "\<not> nd_master (net_devs N ! d)" "\<not> nd_running (net_devs N ! d)" "se_open E \<noteq> 0"
    | "\<not> nd_master (net_devs N ! d)" "\<not> nd_running (net_devs N ! d)" "se_open E = 0" by blast
  then show ?thesis
  proof cases
    case 1
    then show ?thesis using h by (auto simp: netpoll_setup_held_def)
  next
    case 2
    then show ?thesis using h by (intro tail [of N]) (simp_all add: netpoll_setup_held_def)
  next
    case 3
    then show ?thesis using h by (auto simp: netpoll_setup_held_def)
  next
    case 4
    then show ?thesis using h same_holds_running
      by (intro tail [of "dev_update d (nd_running_update (\<lambda>_. True)) N"])
         (auto simp: netpoll_setup_held_def map_dev_update [OF refl] split: Option.bind_splits)
  qed
qed

lemma setup_dev_result:
  assumes "netpoll_setup_dev E d np N = (err, np', N')" "d < length (net_devs N)" "net_infos N (net_next N) = None"
    and "\<And>p. nd_npinfo (net_devs N ! d) = Some p \<Longrightarrow> net_infos N p \<noteq> None"
  shows "np_dev np' = Some d" "err \<noteq> 0 \<Longrightarrow> N' = N" "length (net_devs N') = length (net_devs N)"
    "map nd_refs (net_devs N') = map nd_refs (net_devs N)"
    "err = 0 \<Longrightarrow> \<exists>p i. nd_npinfo (net_devs N' ! d) = Some p \<and> net_infos N' p = Some i
       \<and> (case nd_npinfo (net_devs N ! d) of
            None \<Rightarrow> ni_refcnt i = 1 \<and> ni_txq i = [] \<and> (net_infos N')(p := None) = net_infos N
              \<and> map nd_npinfo (net_devs N') = (map nd_npinfo (net_devs N))[d := Some p]
          | Some q \<Rightarrow> p = q \<and> ni_refcnt i = Suc (ni_refcnt (the (net_infos N q))))" "net_dropped N' = net_dropped N"
proof -
  show "np_dev np' = Some d" "err \<noteq> 0 \<Longrightarrow> N' = N" "length (net_devs N') = length (net_devs N)"
    "map nd_refs (net_devs N') = map nd_refs (net_devs N)" "net_dropped N' = net_dropped N"
    using assms(1)
    by (auto simp: netpoll_setup_dev_def Let_def map_dev_update [OF refl] split: if_splits option.splits)
  assume e: "err = 0"
  show "\<exists>p i. nd_npinfo (net_devs N' ! d) = Some p \<and> net_infos N' p = Some i
       \<and> (case nd_npinfo (net_devs N ! d) of
            None \<Rightarrow> ni_refcnt i = 1 \<and> ni_txq i = [] \<and> (net_infos N')(p := None) = net_infos N
              \<and> map nd_npinfo (net_devs N') = (map nd_npinfo (net_devs N))[d := Some p]
          | Some q \<Rightarrow> p = q \<and> ni_refcnt i = Suc (ni_refcnt (the (net_infos N q))))"
  proof (cases "nd_npinfo (net_devs N ! d)")
    case None
    then show ?thesis using assms(1-3) e
      by (auto simp: netpoll_setup_dev_def Let_def ENOTSUPP_def map_update fun_upd_idem split: if_splits)
  next
    case (Some q)
    then show ?thesis using assms(1,2) assms(4) [OF Some] e
      by (auto simp: netpoll_setup_dev_def Let_def ENOTSUPP_def split: if_splits)
  qed
qed

lemma same_holds_length: "same_holds N M \<Longrightarrow> length (net_devs M) = length (net_devs N)"
  unfolding same_holds_def by (metis length_map)

lemma refs_update: "d < length ds \<Longrightarrow>
    map nd_refs (ds[d := nd_refs_update f (ds ! d)]) = (map nd_refs ds)[d := f (nd_refs (ds ! d))]"
  by (simp add: map_update)

lemma npinfo_refs_update: "map nd_npinfo (ds[d := nd_refs_update f (ds ! d)]) = map nd_npinfo ds"
  by (simp add: map_dev_update [OF refl])

lemmas hold_simps = same_holds_def refs_update npinfo_refs_update

text \<open>A reference that is taken and dropped again.\<close>

lemma same_holds_put:
  assumes "same_holds (dev_update d (nd_refs_update (\<lambda>r. r + 1)) N) M" "d < length (net_devs N)"
  shows "same_holds N (dev_update d (nd_refs_update (\<lambda>r. r - 1)) M)"
proof -
  have l: "length (net_devs M) = length (net_devs N)" using same_holds_length [OF assms(1)] by simp
  have "nd_refs (net_devs M ! d) = nd_refs (net_devs N ! d) + 1"
    using same_holds_nth [OF assms(1), of d] assms(2) by simp
  moreover have "map nd_refs (net_devs M) = (map nd_refs (net_devs N))[d := nd_refs (net_devs N ! d) + 1]"
    using assms by (simp add: hold_simps)
  ultimately show ?thesis using assms l by (simp add: hold_simps list_update_same_conv)
qed

text \<open>\<open>__netpoll_cleanup\<close> of the last user gives back the block it frees.\<close>

lemma cleanup_dev_last:
  assumes "np_dev np = Some d" "d < length (net_devs N)" "nd_npinfo (net_devs N ! d) = Some p"
    and "net_infos N p = Some i" "ni_refcnt i = 1" "ni_txq i = []"
  shows "\<exists>M. netpoll_cleanup_dev np N = Some M \<and> map nd_refs (net_devs M) = map nd_refs (net_devs N)
    \<and> map nd_npinfo (net_devs M) = (map nd_npinfo (net_devs N))[d := None]
    \<and> net_infos M = (net_infos N)(p := None) \<and> net_dropped M = net_dropped N"
  using assms by (simp add: netpoll_cleanup_dev_def rcu_cleanup_netpoll_info_def map_update list_update_same_conv)

lemma setup_held_returns:
  assumes "clock_runs (se_jiffies E)"
  shows "netpoll_setup_held E d np N \<noteq> None"
  using carrier_wait_returns [OF assms, of "se_carrier E"]
  by (elim exE) (simp add: netpoll_setup_held_def del: not_None_eq split: sum.split)

lemma net_wf_hold:
  assumes "same_holds (dev_update d (nd_refs_update f) N) M" "net_next M = net_next N" "net_wf N" "d < length (net_devs N)"
  shows "net_infos M (net_next M) = None" "nd_npinfo (net_devs M ! d) = Some p \<Longrightarrow> net_infos M p \<noteq> None"
    "nd_npinfo (net_devs M ! d) = nd_npinfo (net_devs N ! d)"
proof -
  show n: "nd_npinfo (net_devs M ! d) = nd_npinfo (net_devs N ! d)"
    using same_holds_nth [OF assms(1), of d] assms(4) by simp
  show "net_infos M (net_next M) = None" using assms by (simp add: same_holds_def net_wf_def)
  show "net_infos M p \<noteq> None" if "nd_npinfo (net_devs M ! d) = Some p"
    using that n assms by (auto simp: same_holds_def net_wf_def)
qed

text \<open>The two outcomes of the part of \<open>netpoll_setup\<close> that runs with the reference taken.\<close>

lemma held_fail:
  assumes wf: "net_wf N" and dl: "d < length (net_devs N)" and err: "err \<noteq> 0"
    and h: "netpoll_setup_held E d np (dev_update d (nd_refs_update (\<lambda>r. r + 1)) N) = Some (err, np', M')"
  shows "same_holds N (dev_update d (nd_refs_update (\<lambda>r. r - 1)) M')"
proof -
  let ?H = "dev_update d (nd_refs_update (\<lambda>r. r + 1)) N"
  have "same_holds ?H M'"
    using held_cases [OF h]
  proof (elim disjE exE conjE)
    fix np1 M
    assume a: "netpoll_setup_dev E d np1 M = (err, np', M')" "same_holds ?H M" "net_next M = net_next ?H"
    then have n: "net_next M = net_next N" by simp
    have "M' = M" using setup_dev_result(2) [OF a(1) _ net_wf_hold(1,2) [OF a(2) n wf dl] err] dl same_holds_length [OF a(2)] by simp
    then show ?thesis using a(2) by simp
  qed auto
  then show ?thesis by (rule same_holds_put [OF _ dl])
qed

lemma held_done:
  assumes wf: "net_wf N" and dl: "d < length (net_devs N)"
    and h: "netpoll_setup_held E d np (dev_update d (nd_refs_update (\<lambda>r. r + 1)) N) = Some (0, np', N')"
  shows "np_dev np' = Some d" "nd_refs (net_devs N' ! d) = nd_refs (net_devs N ! d) + 1"
    "nd_npinfo (net_devs N ! d) = None \<Longrightarrow>
       \<exists>N''. netpoll_cleanup np' N' = Some (np'\<lparr>np_dev := None\<rparr>, N'') \<and> same_holds N N''"
proof -
  obtain np1 M where a: "netpoll_setup_dev E d np1 M = (0, np', N')"
    "same_holds (dev_update d (nd_refs_update (\<lambda>r. r + 1)) N) M" "net_next M = net_next N"
    using held_cases [OF h] by auto
  note w = net_wf_hold [OF a(2,3) wf dl]
  have Ml: "d < length (net_devs M)" using dl same_holds_length [OF a(2)] by simp
  note r = setup_dev_result [OF a(1) Ml w(1,2)]
  show "np_dev np' = Some d" by (rule r(1))
  have l: "d < length (net_devs N')" using r(3) Ml by simp
  have refs: "map nd_refs (net_devs N') = (map nd_refs (net_devs N))[d := nd_refs (net_devs N ! d) + 1]"
    using r(4) a(2) dl by (simp add: hold_simps)
  then show nr: "nd_refs (net_devs N' ! d) = nd_refs (net_devs N ! d) + 1"
    using l dl by (metis length_map nth_list_update_eq nth_map)
  assume none: "nd_npinfo (net_devs N ! d) = None"
  obtain p i where p: "nd_npinfo (net_devs N' ! d) = Some p" "net_infos N' p = Some i" "ni_refcnt i = 1"
    "ni_txq i = []" "(net_infos N')(p := None) = net_infos M"
    "map nd_npinfo (net_devs N') = (map nd_npinfo (net_devs M))[d := Some p]"
    using r(5) w(3) none by auto
  obtain K where K: "netpoll_cleanup_dev np' N' = Some K" "map nd_refs (net_devs K) = map nd_refs (net_devs N')"
    "map nd_npinfo (net_devs K) = (map nd_npinfo (net_devs N'))[d := None]"
    "net_infos K = (net_infos N')(p := None)" "net_dropped K = net_dropped N'"
    using cleanup_dev_last [OF r(1) l p(1-4)] by blast
  have lK: "d < length (net_devs K)" using K(2) l by (metis length_map)
  have "nd_refs (net_devs K ! d) = nd_refs (net_devs N ! d) + 1" using nr K(2) l lK by (metis nth_map)
  then have "same_holds N (dev_update d (nd_refs_update (\<lambda>r. r - 1)) K)"
    using K p(5,6) r(6) a(2) refs none dl lK by (simp add: hold_simps list_update_same_conv)
  then show "\<exists>N''. netpoll_cleanup np' N' = Some (np'\<lparr>np_dev := None\<rparr>, N'') \<and> same_holds N N''"
    using r(1) K(1) by (simp add: netpoll_cleanup_def)
qed

section \<open>Properties\<close>


text \<open>A board with one interface \<open>eth0\<close> that is down, has an address, and never sees a carrier.\<close>

definition demo_dev :: net_device where
  "demo_dev = \<lparr>nd_name = ''eth0'', nd_disable_netpoll = False, nd_master = False, nd_running = False,
     nd_present = True, nd_npinfo = None, nd_refs = 3, nd_ifa = Some [[192, 168, 1, 2]], nd_ifa6 = None,
     nd_real_num_tx_queues = 1, nd_addr = [2, 0, 0, 0, 0, 1],
     nd_napis = [\<lparr>napi_owner = -1, napi_npsvc = False\<rparr>], nd_poll_controller = False, nd_xmit_owner = [-1],
     nd_ll_reserved = 32, nd_tailroom = 0\<rparr>"

definition demo_net :: net where
  "demo_net = \<lparr>net_devs = [demo_dev], net_infos = (\<lambda>_. None), net_next = 0, skb_pool = 0, net_dropped = []\<rparr>"

definition demo_setup_env :: setup_env where
  "demo_setup_env = \<lparr>se_open = 0, se_carrier = (\<lambda>_. False), se_jiffies = of_nat, se_skbs = 32, se_alloc = True,
     se_ndo_setup = None, se_linklocal = (\<lambda>_. False)\<rparr>"

definition eth_np :: netpoll where
  "eth_np = \<lparr>np_dev = None, np_dev_name = ''eth0'', np_local_ip = replicate 16 0,
     np_remote_ip = [192, 168, 1, 9] @ replicate 12 0, np_ipv6 = False, np_local_port = 6665,
     np_remote_port = 6666, np_remote_mac = replicate 6 255\<rparr>"

lemma demo_clock: "clock_runs (of_nat :: nat \<Rightarrow> ulong)"
  unfolding clock_runs_def by (rule exI [of _ "\<lambda>k. k"]) simp

lemma demo_net_wf: "net_wf demo_net"
  by (simp add: net_wf_def demo_net_def demo_dev_def)


text \<open>
  C39: a shared block is orphaned. Two targets on one device share its \<open>netpoll_info\<close>. Cleaning up either
  clears the device's link although the count only falls by one: the block stays allocated with a positive
  count, so the other target has no block to send through, and its own cleanup finds no link, leaves the count
  alone and never frees the block, in whatever state the blocks are by then.\<close>

theorem cleanup_orphans_shared_info:
  assumes d: "np_dev np = Some d" "np_dev other = Some d" "d < length (net_devs N)"
    and p: "nd_npinfo (net_devs N ! d) = Some p" "net_infos N p = Some i" "1 < ni_refcnt i"
  shows "\<exists>N' N''. netpoll_cleanup np N = Some (np\<lparr>np_dev := None\<rparr>, N') \<and> nd_npinfo (net_devs N' ! d) = None
    \<and> netpoll_cleanup other N' = Some (other\<lparr>np_dev := None\<rparr>, N'')
    \<and> net_infos N'' p = Some (i\<lparr>ni_refcnt := ni_refcnt i - 1\<rparr>) \<and> nd_npinfo (net_devs N'' ! d) = None
    \<and> nd_refs (net_devs N'' ! d) = nd_refs (net_devs N ! d) - 2"
  using assms by (simp add: netpoll_cleanup_def netpoll_cleanup_dev_def Let_def)

theorem cleanup_orphans_shared_info_witness:
  "\<exists>N' N''. netpoll_cleanup (eth_np\<lparr>np_dev := Some 0\<rparr>)
       (demo_net\<lparr>net_devs := [demo_dev\<lparr>nd_npinfo := Some 7\<rparr>],
          net_infos := [7 \<mapsto> \<lparr>ni_refcnt = 2, ni_dev_lock = 1, ni_txq = [], ni_tx_work = None, ni_netpoll = ''eth0''\<rparr>]\<rparr>)
       = Some (eth_np\<lparr>np_dev := None\<rparr>, N')
     \<and> netpoll_cleanup (eth_np\<lparr>np_dev := Some 0, np_remote_port := 7777\<rparr>) N'
       = Some (eth_np\<lparr>np_dev := None, np_remote_port := 7777\<rparr>, N'')
     \<and> net_infos N'' 7 \<noteq> None \<and> nd_npinfo (net_devs N'' ! 0) = None"
  using cleanup_orphans_shared_info [of "eth_np\<lparr>np_dev := Some 0\<rparr>" 0 "eth_np\<lparr>np_dev := Some 0, np_remote_port := 7777\<rparr>"
    "demo_net\<lparr>net_devs := [demo_dev\<lparr>nd_npinfo := Some 7\<rparr>],
       net_infos := [7 \<mapsto> \<lparr>ni_refcnt = 2, ni_dev_lock = 1, ni_txq = [], ni_tx_work = None, ni_netpoll = ''eth0''\<rparr>]\<rparr>" 7
    "\<lparr>ni_refcnt = 2, ni_dev_lock = 1, ni_txq = [], ni_tx_work = None, ni_netpoll = ''eth0''\<rparr>"]
  by (auto simp: eth_np_def)

text \<open>
  A failed setup leaves the device pointer behind. On a device that does not support polling,
  \<open>netpoll_setup\<close> returns \<open>-ENOTSUPP\<close> and gives its reference back, but the target still names the device;
  a later \<open>netpoll_cleanup\<close> of that target therefore drops a reference nobody took.\<close>

theorem failed_setup_keeps_dev:
  assumes "np_dev_name np \<noteq> []" "find_dev (np_dev_name np) (net_devs N) 0 = Some d"
    and "\<not> nd_master (net_devs N ! d)" "nd_running (net_devs N ! d)" "nd_disable_netpoll (net_devs N ! d)"
    and "take 4 (np_local_ip np) \<noteq> replicate 4 0" "nd_npinfo (net_devs N ! d) = None"
  shows "\<exists>np' N' N''. netpoll_setup E np N = Some (- ENOTSUPP, np', N') \<and> same_holds N N'
    \<and> np_dev np' = Some d \<and> netpoll_cleanup np' N' = Some (np'\<lparr>np_dev := None\<rparr>, N'')
    \<and> nd_refs (net_devs N'' ! d) = nd_refs (net_devs N ! d) - 1"
proof -
  have "d < length (net_devs N)" using find_dev_bound [OF assms(2)] by simp
  then show ?thesis using assms
    by (simp add: netpoll_setup_def netpoll_setup_held_def setup_local_ip_def netpoll_setup_dev_def ENOTSUPP_def
      netpoll_cleanup_def netpoll_cleanup_dev_def same_holds_def map_update list_update_same_conv)
qed

theorem failed_setup_keeps_dev_witness:
  "\<exists>np' N' N''. netpoll_setup demo_setup_env (eth_np\<lparr>np_local_ip := [10, 0, 0, 1] @ replicate 12 0\<rparr>)
       (demo_net\<lparr>net_devs := [demo_dev\<lparr>nd_running := True, nd_disable_netpoll := True\<rparr>]\<rparr>) = Some (- ENOTSUPP, np', N')
     \<and> netpoll_cleanup np' N' = Some (np'\<lparr>np_dev := None\<rparr>, N'') \<and> nd_refs (net_devs N'' ! 0) = 2"
  using failed_setup_keeps_dev [of "eth_np\<lparr>np_local_ip := [10, 0, 0, 1] @ replicate 12 0\<rparr>"
    "demo_net\<lparr>net_devs := [demo_dev\<lparr>nd_running := True, nd_disable_netpoll := True\<rparr>]\<rparr>" 0 demo_setup_env]
  by (auto simp: eth_np_def demo_net_def demo_dev_def numeral_eq_Suc)

end
