(* ===== verification/Netpoll_Refs.thy ===== *)
theory Netpoll_Refs
  imports Netpoll_Dev
begin

text \<open>
  The invariant of the attachment tables of \<open>netpoll.c\<close>, and the contract of \<open>netpoll_setup\<close> and
  \<open>netpoll_cleanup\<close> as their clients use it: what each call does to the references on the devices.
\<close>

section \<open>Invariant\<close>

text \<open>
  The links of the devices, by index: each leads to a live block with a count, no two share one, and
  the blocks from the next free one on are free.
\<close>

definition links_inv :: "nat option list \<Rightarrow> (nat \<Rightarrow> netpoll_info option) \<Rightarrow> nat \<Rightarrow> bool" where
  "links_inv ls infos k \<longleftrightarrow>
     (\<forall>d < length ls. \<forall>p. ls ! d = Some p \<longrightarrow> (\<exists>i. infos p = Some i \<and> ni_refcnt i \<noteq> 0)) \<and> (\<forall>j \<ge> k. infos j = None)
     \<and> (\<forall>d < length ls. \<forall>e < length ls. \<forall>p. ls ! d = Some p \<and> ls ! e = Some p \<longrightarrow> d = e)"

definition net_inv :: "net \<Rightarrow> bool" where
  "net_inv N \<longleftrightarrow> links_inv (map nd_npinfo (net_devs N)) (net_infos N) (net_next N)"

text \<open>The references on the devices, by index.\<close>

abbreviation dev_refs :: "net \<Rightarrow> int list" where "dev_refs N \<equiv> map nd_refs (net_devs N)"

text \<open>Nothing after the address selection fails: the block can be had, the driver agrees, every device can be polled.\<close>

definition attach_ok :: "setup_env \<Rightarrow> net \<Rightarrow> bool" where
  "attach_ok E N \<longleftrightarrow> se_alloc E \<and> se_ndo_setup E \<in> {None, Some 0} \<and> (\<forall>dev \<in> set (net_devs N). \<not> nd_disable_netpoll dev)"

section \<open>Lemmas\<close>

lemma net_inv_wf: "net_inv N \<Longrightarrow> net_wf N"
  by (auto simp: net_inv_def links_inv_def net_wf_def)

lemma net_inv_link:
  "net_inv N \<Longrightarrow> d < length (net_devs N) \<Longrightarrow> nd_npinfo (net_devs N ! d) = Some p \<Longrightarrow>
    \<exists>i. net_infos N p = Some i \<and> ni_refcnt i \<noteq> 0"
  by (auto simp: net_inv_def links_inv_def)

lemma net_inv_same: "same_holds N M \<Longrightarrow> net_next M = net_next N \<Longrightarrow> net_inv N \<Longrightarrow> net_inv M"
  by (simp add: net_inv_def same_holds_def)

lemma links_invI:
  assumes "\<And>d p. d < length ls \<Longrightarrow> ls ! d = Some p \<Longrightarrow> \<exists>i. infos p = Some i \<and> ni_refcnt i \<noteq> 0"
    and "\<And>j. k \<le> j \<Longrightarrow> infos j = None"
    and "\<And>d e p. d < length ls \<Longrightarrow> e < length ls \<Longrightarrow> ls ! d = Some p \<Longrightarrow> ls ! e = Some p \<Longrightarrow> d = e"
  shows "links_inv ls infos k"
  using assms unfolding links_inv_def by blast

lemma links_invD:
  assumes "links_inv ls infos k"
  shows "d < length ls \<Longrightarrow> ls ! d = Some p \<Longrightarrow> \<exists>i. infos p = Some i \<and> ni_refcnt i \<noteq> 0"
    "k \<le> j \<Longrightarrow> infos j = None"
    "d < length ls \<Longrightarrow> e < length ls \<Longrightarrow> ls ! d = Some p \<Longrightarrow> ls ! e = Some p \<Longrightarrow> d = e"
  using assms unfolding links_inv_def by blast+

lemma links_inv_live: "links_inv ls infos k \<Longrightarrow> infos p = Some i \<Longrightarrow> p < k"
  using links_invD(2) [of ls infos k p] by (cases "k \<le> p") auto

lemma links_inv_new:
  assumes inv: "links_inv ls infos k" and "d < length ls" "ni_refcnt i \<noteq> 0"
  shows "links_inv (ls[d := Some k]) (infos(k \<mapsto> i)) (Suc k)"
proof (rule links_invI)
  have old: "p \<noteq> k" if "e < length ls" "ls ! e = Some p" for e p
    using links_invD(1) [OF inv that] links_invD(2) [OF inv, of k] by auto
  fix e p
  assume e: "e < length (ls[d := Some k])" "ls[d := Some k] ! e = Some p"
  then show "\<exists>j. (infos(k \<mapsto> i)) p = Some j \<and> ni_refcnt j \<noteq> 0"
    using links_invD(1) [OF inv, of e p] assms old [of e p] by (cases "e = d") auto
  fix f
  assume f: "f < length (ls[d := Some k])" "ls[d := Some k] ! f = Some p"
  show "e = f" using e f assms(2) old [of e p] old [of f p] links_invD(3) [OF inv, of e f p]
    by (cases "e = d"; cases "f = d") auto
next
  show "(infos(k \<mapsto> i)) j = None" if "Suc k \<le> j" for j using that links_invD(2) [OF inv, of j] by simp
qed

lemma links_inv_count:
  assumes inv: "links_inv ls infos k" and "infos p = Some i" "ni_refcnt j \<noteq> 0"
  shows "links_inv ls (infos(p \<mapsto> j)) k"
proof (rule links_invI)
  show "\<exists>i. (infos(p \<mapsto> j)) q = Some i \<and> ni_refcnt i \<noteq> 0" if "d < length ls" "ls ! d = Some q" for d q
    using links_invD(1) [OF inv that] assms(3) by auto
  show "(infos(p \<mapsto> j)) l = None" if "k \<le> l" for l
    using links_invD(2) [OF inv that] links_inv_live [OF inv assms(2)] that by auto
qed (use links_invD(3) [OF inv] in blast)

lemma links_inv_unlink:
  assumes inv: "links_inv ls infos k" and d: "d < length ls" "ls ! d = Some p"
    and other: "\<And>q. q \<noteq> p \<Longrightarrow> infos' q = infos q"
  shows "links_inv (ls[d := None]) infos' k"
proof (rule links_invI)
  have p: "p < k" using links_invD(1) [OF inv d] links_inv_live [OF inv] by blast
  show "\<exists>i. infos' q = Some i \<and> ni_refcnt i \<noteq> 0"
    if e: "e < length (ls[d := None])" "ls[d := None] ! e = Some q" for e q
  proof -
    have ne: "e \<noteq> d" using e d(1) by auto
    then have eq: "e < length ls" "ls ! e = Some q" using e by simp_all
    then have "q \<noteq> p" using links_invD(3) [OF inv _ _ eq(2), of d] d ne by blast
    then show ?thesis using links_invD(1) [OF inv eq] other by simp
  qed
  show "infos' j = None" if "k \<le> j" for j using links_invD(2) [OF inv that] other [of j] p that by simp
  show "e = f" if "e < length (ls[d := None])" "f < length (ls[d := None])" "ls[d := None] ! e = Some q"
    "ls[d := None] ! f = Some q" for e f q
    using that d(1) links_invD(3) [OF inv, of e f q] by (cases "e = d"; cases "f = d") auto
qed

text \<open>\<open>__netpoll_setup\<close> keeps the invariant and every reference, and cannot fail when the attachment can be made.\<close>

lemma setup_dev_inv:
  assumes s: "netpoll_setup_dev E d np N = (err, np', N')" and inv: "net_inv N" and d: "d < length (net_devs N)"
  shows "net_inv N'" "attach_ok E N \<Longrightarrow> err = 0"
proof -
  show "attach_ok E N \<Longrightarrow> err = 0"
    using s d by (auto simp: netpoll_setup_dev_def attach_ok_def Let_def split: if_splits option.splits)
  show "net_inv N'"
  proof (cases "nd_npinfo (net_devs N ! d)")
    case None
    then show ?thesis using s inv d links_inv_new [of "map nd_npinfo (net_devs N)" "net_infos N" "net_next N" d]
      by (auto simp: netpoll_setup_dev_def net_inv_def Let_def map_update split: if_splits)
  next
    case (Some p)
    obtain i where "net_infos N p = Some i" "ni_refcnt i \<noteq> 0" using net_inv_link [OF inv d Some] by auto
    then show ?thesis using s inv Some links_inv_count [of "map nd_npinfo (net_devs N)" "net_infos N" "net_next N" p i]
      by (auto simp: netpoll_setup_dev_def net_inv_def Let_def split: if_splits)
  qed
qed

section \<open>Contract\<close>

lemma hold_inv:
  assumes "net_inv N" "same_holds (dev_update d (nd_refs_update f) N) M" "net_next M = net_next N"
  shows "net_inv M"
proof -
  have "net_inv (dev_update d (nd_refs_update f) N)" using assms(1) by (simp add: net_inv_def npinfo_refs_update)
  then show ?thesis by (rule net_inv_same [OF assms(2), rotated]) (simp add: assms(3))
qed

lemma attach_ok_devs: "map nd_disable_netpoll (net_devs M) = map nd_disable_netpoll (net_devs N) \<Longrightarrow> attach_ok E N \<Longrightarrow> attach_ok E M"
  unfolding attach_ok_def by (metis (no_types, opaque_lifting) image_iff image_set)

lemma attach_ok_hold:
  assumes "attach_ok E N" "map nd_disable_netpoll (net_devs M) = map nd_disable_netpoll (net_devs (dev_update d (nd_refs_update f) N))"
  shows "attach_ok E M"
  by (rule attach_ok_devs [OF _ assms(1)]) (simp add: assms(2) map_dev_update [OF refl])

text \<open>The part of \<open>netpoll_setup\<close> that runs with the reference taken.\<close>

lemma held_contract:
  assumes inv: "net_inv N" and dl: "d < length (net_devs N)"
    and h: "netpoll_setup_held E d np (dev_update d (nd_refs_update (\<lambda>r. r + 1)) N) = Some (err, np', M')"
  shows "net_inv M' \<and> dev_refs M' = (dev_refs N)[d := dev_refs N ! d + 1] \<and> (err \<noteq> 0 \<and> attach_ok E N \<longrightarrow> np' = np)
    \<and> (err = 0 \<longrightarrow> np_dev np' = Some d)"
proof -
  define H where "H = dev_update d (nd_refs_update (\<lambda>r. r + 1)) N"
  have Hr: "dev_refs H = (dev_refs N)[d := dev_refs N ! d + 1]" using dl by (simp add: H_def refs_update)
  show ?thesis
    using held_cases [OF h] unfolding H_def [symmetric]
  proof (elim disjE exE conjE)
    assume a: "err \<noteq> 0" "np' = np" "same_holds H M'" "net_next M' = net_next H"
    then have "net_inv M'" using hold_inv [OF inv, of d "\<lambda>r. r + 1" M'] by (simp add: H_def)
    then show ?thesis using a Hr by (simp add: same_holds_def)
  next
    fix np1 M
    assume a: "netpoll_setup_dev E d np1 M = (err, np', M')" "same_holds H M" "net_next M = net_next H"
      "map nd_disable_netpoll (net_devs M) = map nd_disable_netpoll (net_devs H)"
    have inv_M: "net_inv M" using hold_inv [OF inv, of d "\<lambda>r. r + 1" M] a(2,3) by (simp add: H_def)
    have Ml: "d < length (net_devs M)" using dl same_holds_length [OF a(2)] by (simp add: H_def)
    have wf: "net_infos M (net_next M) = None" "\<And>p. nd_npinfo (net_devs M ! d) = Some p \<Longrightarrow> net_infos M p \<noteq> None"
      using net_inv_wf [OF inv_M] Ml by (auto simp: net_wf_def)
    note r = setup_dev_result [OF a(1) Ml wf]
    have "attach_ok E N \<Longrightarrow> attach_ok E M" using attach_ok_hold [of E N M d "\<lambda>r. r + 1"] a(4) by (simp add: H_def)
    then show ?thesis using r(1,4) setup_dev_inv [OF a(1) inv_M Ml] a(2) Hr by (auto simp: same_holds_def)
  qed
qed

text \<open>
  \<open>netpoll_setup\<close>: success adds one reference on the device the target then names; failure adds none, and
  leaves the target alone if the attachment itself could not fail.
\<close>

lemma setup_contract:
  assumes inv: "net_inv N" and s: "netpoll_setup E np N = Some (err, np', N')"
  shows "net_inv N' \<and> length (net_devs N') = length (net_devs N) \<and> (err \<noteq> 0 \<longrightarrow> dev_refs N' = dev_refs N)
    \<and> (err \<noteq> 0 \<and> attach_ok E N \<longrightarrow> np' = np)
    \<and> (err = 0 \<longrightarrow> (\<exists>d < length (net_devs N). np_dev np' = Some d \<and> dev_refs N' = (dev_refs N)[d := dev_refs N ! d + 1]))"
proof (cases "np_dev_name np = [] \<or> find_dev (np_dev_name np) (net_devs N) 0 = None")
  case True
  then have "netpoll_setup E np N = Some (- ENODEV, np, N)" by (auto simp: netpoll_setup_def)
  then have "err = - ENODEV \<and> np' = np \<and> N' = N" using s by simp
  then show ?thesis using inv by simp
next
  case False
  then obtain d where d: "find_dev (np_dev_name np) (net_devs N) 0 = Some d" "np_dev_name np \<noteq> []" by auto
  have dl: "d < length (net_devs N)" using find_dev_bound [OF d(1)] by simp
  obtain M' where h: "netpoll_setup_held E d np (dev_update d (nd_refs_update (\<lambda>r. r + 1)) N) = Some (err, np', M')"
    and N': "N' = (if err \<noteq> 0 then dev_update d (nd_refs_update (\<lambda>r. r - 1)) M' else M')"
    using s d by (auto simp: netpoll_setup_def)
  from held_contract [OF inv dl h] have M': "net_inv M'" "dev_refs M' = (dev_refs N)[d := dev_refs N ! d + 1]"
    "err \<noteq> 0 \<Longrightarrow> attach_ok E N \<Longrightarrow> np' = np" "err = 0 \<Longrightarrow> np_dev np' = Some d" by auto
  have Ml: "length (net_devs M') = length (net_devs N)" using M'(2) by (metis length_list_update length_map)
  have "nd_refs (net_devs M' ! d) = nd_refs (net_devs N ! d) + 1"
    using M'(2) dl Ml by (metis (no_types) length_map nth_list_update_eq nth_map)
  then have "dev_refs (dev_update d (nd_refs_update (\<lambda>r. r - 1)) M') = dev_refs N"
    using M'(2) dl Ml by (simp add: refs_update list_update_same_conv)
  moreover have "net_inv (dev_update d (nd_refs_update (\<lambda>r. r - 1)) M')"
    using M'(1) by (simp add: net_inv_def npinfo_refs_update)
  ultimately show ?thesis using M' N' Ml dl by simp
qed

lemma setup_returns: "clock_runs (se_jiffies E) \<Longrightarrow> \<exists>err np' N'. netpoll_setup E np N = Some (err, np', N')"
  using setup_held_returns [of E] by (auto simp: netpoll_setup_def split: option.split)

text \<open>\<open>__netpoll_cleanup\<close> never faults and keeps every reference; \<open>netpoll_cleanup\<close> drops the target's.\<close>

lemma cleanup_dev_contract:
  assumes inv: "net_inv N" and np: "np_dev np = Some d" "d < length (net_devs N)"
  shows "\<exists>M. netpoll_cleanup_dev np N = Some M \<and> net_inv M \<and> dev_refs M = dev_refs N"
proof (cases "nd_npinfo (net_devs N ! d)")
  case None
  then show ?thesis using inv np by (simp add: netpoll_cleanup_dev_def)
next
  case (Some p)
  obtain i where i: "net_infos N p = Some i" using net_inv_link [OF inv np(2) Some] by auto
  have "links_inv ((map nd_npinfo (net_devs N))[d := None]) infos' (net_next N)"
    if "\<And>q. q \<noteq> p \<Longrightarrow> infos' q = net_infos N q" for infos'
    using links_inv_unlink [of "map nd_npinfo (net_devs N)" "net_infos N" "net_next N" d p infos'] inv np Some that
    by (simp add: net_inv_def)
  then show ?thesis using Some i np
    by (simp add: netpoll_cleanup_dev_def rcu_cleanup_netpoll_info_def net_inv_def map_update list_update_same_conv Let_def)
qed

lemma cleanup_contract:
  assumes inv: "net_inv N" and np: "np_dev np = Some d" "d < length (net_devs N)"
  shows "\<exists>M. netpoll_cleanup np N = Some (np\<lparr>np_dev := None\<rparr>, M) \<and> net_inv M
    \<and> dev_refs M = (dev_refs N)[d := dev_refs N ! d - 1]"
proof -
  obtain K where K: "netpoll_cleanup_dev np N = Some K" "net_inv K" "dev_refs K = dev_refs N"
    using cleanup_dev_contract [OF assms] by blast
  have l: "d < length (net_devs K)" using K(3) np(2) by (metis length_map)
  have "nd_refs (net_devs K ! d) = nd_refs (net_devs N ! d)" using K(3) np(2) l by (metis nth_map)
  then show ?thesis using K np l by (simp add: netpoll_cleanup_def refs_update net_inv_def npinfo_refs_update)
qed

section \<open>Interface\<close>

text \<open>
  What a user of \<open>netpoll\<close> relies on: attaching a target takes one reference on the device it then names
  or none on failure, detaching drops it, and both keep the tables sound. \<open>sound\<close> is the invariant of the
  tables and \<open>refs\<close> the references on the devices.
\<close>

locale attachment =
  fixes sound :: "'n \<Rightarrow> bool" and refs :: "'n \<Rightarrow> int list"
    and attach :: "netpoll \<Rightarrow> 'n \<Rightarrow> (int \<times> netpoll \<times> 'n) option"
    and detach :: "netpoll \<Rightarrow> 'n \<Rightarrow> (netpoll \<times> 'n) option"
  assumes attach_fail: "sound N \<Longrightarrow> attach np N = Some (err, np', M) \<Longrightarrow> err \<noteq> 0 \<Longrightarrow> sound M \<and> refs M = refs N"
    and attach_done: "sound N \<Longrightarrow> attach np N = Some (0, np', M) \<Longrightarrow>
      sound M \<and> (\<exists>d < length (refs N). np_dev np' = Some d \<and> refs M = (refs N)[d := refs N ! d + 1])"
    and detach_none: "np_dev np = None \<Longrightarrow> detach np N = Some (np, N)"
    and detach_some: "sound N \<Longrightarrow> np_dev np = Some d \<Longrightarrow> d < length (refs N) \<Longrightarrow>
      \<exists>M. detach np N = Some (np\<lparr>np_dev := None\<rparr>, M) \<and> sound M \<and> refs M = (refs N)[d := refs N ! d - 1]"
begin

lemma attach_refs:
  assumes "sound N" "attach np N = Some (err, np', M)"
  shows "sound M" "length (refs M) = length (refs N)"
    "d < length (refs N) \<Longrightarrow> refs M ! d = refs N ! d + of_bool (err = 0 \<and> np_dev np' = Some d)"
    "err = 0 \<Longrightarrow> \<exists>d < length (refs N). np_dev np' = Some d"
  using attach_fail [OF assms] attach_done [OF assms(1), of np np' M] assms(2)
  by (cases "err = 0"; auto simp: nth_list_update)+

lemma detach_refs:
  assumes "sound N" "\<And>d. np_dev np = Some d \<Longrightarrow> d < length (refs N)"
  shows "\<exists>M. detach np N = Some (np\<lparr>np_dev := None\<rparr>, M) \<and> sound M \<and> length (refs M) = length (refs N)
    \<and> (\<forall>d < length (refs N). refs M ! d = refs N ! d - of_bool (np_dev np = Some d))"
proof (cases "np_dev np")
  case None
  then have "np\<lparr>np_dev := None\<rparr> = np" by simp
  then show ?thesis using None assms(1) detach_none [OF None] by simp
next
  case (Some d)
  then show ?thesis using detach_some [OF assms(1) Some assms(2) [OF Some]] by (auto simp: nth_list_update)
qed

text \<open>A target that was attached and is detached again leaves the references as they were.\<close>

lemma attach_detach:
  assumes "sound N" "attach np N = Some (0, np', M)"
  shows "\<exists>K. detach np' M = Some (np'\<lparr>np_dev := None\<rparr>, K) \<and> sound K \<and> refs K = refs N"
proof -
  obtain d where d: "sound M" "d < length (refs N)" "np_dev np' = Some d" "refs M = (refs N)[d := refs N ! d + 1]"
    using attach_done [OF assms] by blast
  then show ?thesis using detach_some [OF d(1,3)] by auto
qed

end

interpretation netdevs: attachment net_inv dev_refs "netpoll_setup E" netpoll_cleanup
  for E
proof unfold_locales
  show "net_inv M \<and> dev_refs M = dev_refs N" if "net_inv N" "netpoll_setup E np N = Some (err, np', M)" "err \<noteq> 0" for N np err np' M
    using setup_contract [OF that(1,2)] that(3) by blast
  show "net_inv M \<and> (\<exists>d < length (dev_refs N). np_dev np' = Some d \<and> dev_refs M = (dev_refs N)[d := dev_refs N ! d + 1])"
    if "net_inv N" "netpoll_setup E np N = Some (0, np', M)" for N np np' M
    using setup_contract [OF that] by simp
  show "netpoll_cleanup np N = Some (np, N)" if "np_dev np = None" for np N
    using that by (simp add: netpoll_cleanup_def)
  show "\<exists>M. netpoll_cleanup np N = Some (np\<lparr>np_dev := None\<rparr>, M) \<and> net_inv M \<and> dev_refs M = (dev_refs N)[d := dev_refs N ! d - 1]"
    if "net_inv N" "np_dev np = Some d" "d < length (dev_refs N)" for N np d
    using cleanup_contract [OF that(1,2)] that(3) by simp
qed

end
