(* ===== verification/Netcon_Msg.thy ===== *)
theory Netcon_Msg
  imports Netpoll_Opt
begin

text \<open>
  \<open>netcon-port/netconsole.c\<close>, message path: splitting of plain and extended console messages into UDP
  payloads. The static 1000-byte buffer of \<open>send_ext_msg_udp\<close> is explicit, every write into it is
  bounds-checked (\<open>None\<close> is a write outside), and what is handed to \<open>netpoll_send_udp\<close> is the result.
\<close>

section \<open>Model\<close>

definition MAX_PRINT_CHUNK :: nat where "MAX_PRINT_CHUNK = 1000"

record netconsole_target =
  nt_name :: "string option"
  nt_enabled :: bool
  nt_extended :: bool
  nt_release :: bool
  nt_np :: netpoll

text \<open>\<open>memcpy\<close> into a buffer.\<close>

definition buf_put :: "string \<Rightarrow> nat \<Rightarrow> string \<Rightarrow> string option" where
  "buf_put buf off data =
     (if off + length data \<le> length buf then Some (take off buf @ data @ drop (off + length data) buf) else None)"

text \<open>
  \<open>scnprintf(buf + off, sz, ...)\<close> of the text \<open>s\<close>: at most \<open>sz - 1\<close> characters and a NUL are
  stored; the result is the number of characters stored.
\<close>

definition scnprintf :: "string \<Rightarrow> nat \<Rightarrow> nat \<Rightarrow> string \<Rightarrow> (nat \<times> string) option" where
  "scnprintf buf off sz s =
     (if sz = 0 then Some (0, buf)
      else let n = min (length s) (sz - 1)
        in map_option (Pair n) (buf_put buf off (take n s @ [CHR 0x00])))"

definition c_string :: "string \<Rightarrow> string" where
  "c_string s = takeWhile (\<lambda>c. c \<noteq> CHR 0x00) s"

definition ncfrag :: "nat \<Rightarrow> nat \<Rightarrow> string" where
  "ncfrag offset body_len = '',ncfrag='' @ dec_digits offset @ ''/'' @ dec_digits body_len @ '';''"

text \<open>The chunk loop; a chunk is at least one byte or the loop ends.\<close>

function frag_loop ::
  "string \<Rightarrow> nat \<Rightarrow> nat \<Rightarrow> string \<Rightarrow> string list \<Rightarrow> (string list \<times> string) option" where
  "frag_loop body header_len offset buf out =
     (if offset < length body then
        (case scnprintf buf header_len (MAX_PRINT_CHUNK - header_len) (ncfrag offset (length body)) of
           None \<Rightarrow> None
         | Some (n, buf) \<Rightarrow>
             (let this_header = header_len + n;
                  this_chunk = min (length body - offset) (MAX_PRINT_CHUNK - this_header)
              in if this_chunk = 0 then Some (out, buf)
                 else case buf_put buf this_header (take this_chunk (drop offset body)) of
                        None \<Rightarrow> None
                      | Some buf \<Rightarrow> frag_loop body header_len (offset + this_chunk) buf
                                     (out @ [take (this_header + this_chunk) buf])))
      else Some (out, buf))"
  by pat_completeness auto
termination
  by (relation "measure (\<lambda>(body, h, off, buf, out). length body - off)") auto

declare frag_loop.simps [simp del]

text \<open>
  \<open>release\<close> is \<open>init_utsname()->release\<close>. The result is the list of payloads sent and the static
  buffer; \<open>msg\<close> has length \<open>msg_len\<close>.
\<close>

definition send_ext_msg_udp ::
  "string \<Rightarrow> netconsole_target \<Rightarrow> string \<Rightarrow> string \<Rightarrow> (string list \<times> string) option" where
  "send_ext_msg_udp release nt msg buf =
     (let release_len = (if nt_release nt then length release + 1 else 0) in
      if length msg + release_len \<le> MAX_PRINT_CHUNK then
        if nt_release nt then do {
          (n, buf) \<leftarrow> scnprintf buf 0 MAX_PRINT_CHUNK (release @ '','' @ c_string msg);
          Some ([take (length msg + release_len) buf], buf) }
        else Some ([msg], buf)
      else case strchr (CHR '';'') msg of
        None \<Rightarrow> Some ([], buf)
      | Some (header, body) \<Rightarrow> do {
          (n, buf) \<leftarrow> (if nt_release nt then scnprintf buf 0 MAX_PRINT_CHUNK (release @ '','') else Some (0, buf));
          buf \<leftarrow> buf_put buf release_len header;
          frag_loop body (length header + release_len) 0 buf [] })"

text \<open>The two console callbacks, over the target list; a target that is enabled without a device faults.\<close>

definition write_ext_target ::
  "(nat \<Rightarrow> bool) \<Rightarrow> string \<Rightarrow> string \<Rightarrow> netconsole_target \<Rightarrow> (netpoll \<times> string) list \<times> string
   \<Rightarrow> ((netpoll \<times> string) list \<times> string) option" where
  "write_ext_target running release msg nt st =
     (if nt_extended nt \<and> nt_enabled nt then
        case np_dev (nt_np nt) of
          None \<Rightarrow> None
        | Some d \<Rightarrow>
            if running d
            then map_option (\<lambda>(ps, buf). (fst st @ map (Pair (nt_np nt)) ps, buf))
                   (send_ext_msg_udp release nt msg (snd st))
            else Some st
      else Some st)"

definition write_ext_msg ::
  "bool \<Rightarrow> bool \<Rightarrow> (nat \<Rightarrow> bool) \<Rightarrow> string \<Rightarrow> netconsole_target list \<Rightarrow> string \<Rightarrow> string
   \<Rightarrow> ((netpoll \<times> string) list \<times> string) option" where
  "write_ext_msg oops_only oops_in_progress running release target_list msg buf =
     (if (oops_only \<and> \<not> oops_in_progress) \<or> target_list = [] then Some ([], buf)
      else fold (\<lambda>nt st. Option.bind st (write_ext_target running release msg nt)) target_list (Some ([], buf)))"

text \<open>The loop \<open>for (left = len; left;)\<close>.\<close>

function msg_frags :: "string \<Rightarrow> string list" where
  "msg_frags msg =
     (if msg = [] then []
      else let frag = min (length msg) MAX_PRINT_CHUNK in take frag msg # msg_frags (drop frag msg))"
  by pat_completeness auto
termination
  by (relation "measure length") (auto simp: MAX_PRINT_CHUNK_def)

declare msg_frags.simps [simp del]

definition write_target ::
  "(nat \<Rightarrow> bool) \<Rightarrow> string \<Rightarrow> netconsole_target \<Rightarrow> (netpoll \<times> string) list \<Rightarrow> (netpoll \<times> string) list option" where
  "write_target running msg nt out =
     (if \<not> nt_extended nt \<and> nt_enabled nt then
        case np_dev (nt_np nt) of
          None \<Rightarrow> None
        | Some d \<Rightarrow> if running d then Some (out @ map (Pair (nt_np nt)) (msg_frags msg)) else Some out
      else Some out)"

definition write_msg ::
  "bool \<Rightarrow> bool \<Rightarrow> (nat \<Rightarrow> bool) \<Rightarrow> netconsole_target list \<Rightarrow> string \<Rightarrow> (netpoll \<times> string) list option" where
  "write_msg oops_only oops_in_progress running target_list msg =
     (if oops_only \<and> \<not> oops_in_progress then Some []
      else if target_list = [] then Some []
      else fold (\<lambda>nt st. Option.bind st (write_target running msg nt)) target_list (Some []))"

section \<open>Specification\<close>

text \<open>The payloads for a body cut into given chunks: each announces its offset and the total length.\<close>

fun frag_packets :: "string \<Rightarrow> nat \<Rightarrow> nat \<Rightarrow> string list \<Rightarrow> string list" where
  "frag_packets H tot off [] = []"
| "frag_packets H tot off (c # cs) = (H @ ncfrag off tot @ c) # frag_packets H tot (off + length c) cs"

text \<open>A splitting of messages into bounded payloads that loses and reorders nothing.\<close>

locale fragmenter =
  fixes split :: "string \<Rightarrow> string list" and limit :: nat
  assumes split_concat: "concat (split m) = m"
    and split_bound: "c \<in> set (split m) \<Longrightarrow> c \<noteq> [] \<and> length c \<le> limit"
begin

lemma split_Nil: "split [] = []"
  using split_concat [of "[]"] split_bound [of _ "[]"] by (cases "split []") auto

lemma split_count: "length (split m) \<le> length m"
proof -
  have "length cs \<le> length (concat cs)" if "\<forall>c \<in> set cs. c \<noteq> []" for cs :: "string list"
    using that by (induction cs) (auto simp: Suc_le_eq add_less_le_mono gr0_conv_Suc neq_Nil_conv)
  then show ?thesis using split_bound split_concat by metis
qed

lemma split_covers: "length m \<le> limit * length (split m)"
proof -
  have "length (concat cs) \<le> limit * length cs" if "\<forall>c \<in> set cs. length c \<le> limit" for cs :: "string list"
    using that by (induction cs) auto
  then show ?thesis using split_bound split_concat by metis
qed

end

section \<open>Lemmas\<close>

lemma msg_frags_simps: "msg_frags [] = []"
  "m \<noteq> [] \<Longrightarrow> msg_frags m = take MAX_PRINT_CHUNK m # msg_frags (drop MAX_PRINT_CHUNK m)"
  by (simp_all add: msg_frags.simps [of m] msg_frags.simps [of "[]"] Let_def min_def)

lemma msg_frags_concat: "concat (msg_frags m) = m"
proof (induction m rule: length_induct)
  case (1 m)
  have "m \<noteq> [] \<Longrightarrow> length (drop MAX_PRINT_CHUNK m) < length m" by (simp add: MAX_PRINT_CHUNK_def)
  then show ?case using 1 by (cases "m = []") (auto simp: msg_frags_simps)
qed

lemma msg_frags_bound: "c \<in> set (msg_frags m) \<Longrightarrow> c \<noteq> [] \<and> length c \<le> MAX_PRINT_CHUNK"
proof (induction m rule: length_induct)
  case (1 m)
  have "m \<noteq> [] \<Longrightarrow> length (drop MAX_PRINT_CHUNK m) < length m" "MAX_PRINT_CHUNK \<noteq> 0"
    by (simp_all add: MAX_PRINT_CHUNK_def)
  then show ?case using 1(1) [rule_format, of "drop MAX_PRINT_CHUNK m"] 1(2)
    by (cases "m = []") (auto simp: msg_frags_simps)
qed

interpretation plain: fragmenter msg_frags MAX_PRINT_CHUNK
  by unfold_locales (simp_all add: msg_frags_concat msg_frags_bound)

lemma fold_bind_None: "fold (\<lambda>x st. Option.bind st (f x)) xs None = None"
  by (induction xs) auto

text \<open>A write into the buffer, read back from its start.\<close>

lemma buf_put_prefix:
  assumes "buf_put buf off data = Some buf'" "take off buf = P"
  shows "take (off + length data) buf' = P @ data" "length buf' = length buf" "off + length data \<le> length buf"
  using assms by (auto simp: buf_put_def split: if_splits)

lemma scnprintf_fits:
  assumes "off + length s < off + sz" "off + sz \<le> length buf" "take off buf = P"
  shows "\<exists>buf'. scnprintf buf off sz s = Some (length s, buf') \<and> take (off + length s) buf' = P @ s
    \<and> length buf' = length buf"
proof -
  let ?b = "take off buf @ (s @ [CHR 0x00]) @ drop (off + length (s @ [CHR 0x00])) buf"
  have "scnprintf buf off sz s = Some (length s, ?b)"
    using assms(1,2) by (simp add: scnprintf_def buf_put_def Let_def)
  moreover have "take (off + length s) ?b = P @ s" "length ?b = length buf" using assms by auto
  ultimately show ?thesis by blast
qed

lemma ncfrag_length: "off \<le> tot \<Longrightarrow> length (ncfrag off tot) \<le> length (ncfrag tot tot)"
  using dec_digits_le [of off tot] by (simp add: ncfrag_def)

text \<open>One round of the loop sends one non-empty fragment and keeps the header at the start of the buffer.\<close>

lemma frag_loop_step:
  assumes len: "length buf = MAX_PRINT_CHUNK" and H: "take hl buf = H" "length H = hl"
    and room: "hl + length (ncfrag (length body) (length body)) < MAX_PRINT_CHUNK" and off: "off < length body"
  obtains k buf' where "0 < k" "off + k \<le> length body" "length buf' = length buf" "take hl buf' = H"
    "length (H @ ncfrag off (length body) @ take k (drop off body)) \<le> MAX_PRINT_CHUNK"
    "\<And>out. frag_loop body hl off buf out
       = frag_loop body hl (off + k) buf' (out @ [H @ ncfrag off (length body) @ take k (drop off body)])"
proof -
  let ?n = "ncfrag off (length body)"
  let ?h = "hl + length ?n"
  define k where "k = min (length body - off) (MAX_PRINT_CHUNK - ?h)"
  have n: "?h < MAX_PRINT_CHUNK" using ncfrag_length [of off "length body"] room off by simp
  have "hl + length ?n < hl + (MAX_PRINT_CHUNK - hl)" "hl + (MAX_PRINT_CHUNK - hl) \<le> length buf"
    using n len by auto
  from scnprintf_fits [OF this H(1)] obtain b1 where
    b1: "scnprintf buf hl (MAX_PRINT_CHUNK - hl) ?n = Some (length ?n, b1)" "take ?h b1 = H @ ?n"
      "length b1 = length buf" by blast
  have k: "0 < k" "off + k \<le> length body" using off n by (auto simp: k_def)
  let ?c = "take k (drop off body)"
  have c: "length ?c = k" using k(2) by simp
  have "?h + length ?c \<le> length b1" unfolding c using b1(3) len n by (simp add: k_def)
  then obtain b2 where b2: "buf_put b1 ?h ?c = Some b2" unfolding buf_put_def by simp
  note p = buf_put_prefix [OF b2 b1(2)]
  have "take hl b2 = take hl (take (?h + length ?c) b2)" by (simp add: min_def)
  also have "\<dots> = H" using p(1) H(2) by simp
  finally have "take hl b2 = H" .
  moreover have "frag_loop body hl off buf out = frag_loop body hl (off + k) b2 (out @ [H @ ?n @ ?c])" for out
    using off b1(1) b2 k(1) p(1) c
    by (subst frag_loop.simps) (simp add: Let_def flip: k_def)
  moreover have "length (H @ ?n @ ?c) \<le> MAX_PRINT_CHUNK" using n c H(2) by (simp add: k_def)
  moreover have "length b2 = length buf" using p(2) b1(3) by simp
  ultimately show ?thesis using that k by blast
qed

lemma frag_loop_chunks:
  assumes "length buf = MAX_PRINT_CHUNK" "take hl buf = H" "length H = hl"
    and "hl + length (ncfrag (length body) (length body)) < MAX_PRINT_CHUNK" "off \<le> length body"
  shows "\<exists>cs buf'. frag_loop body hl off buf out = Some (out @ frag_packets H (length body) off cs, buf')
    \<and> concat cs = drop off body \<and> (\<forall>c \<in> set cs. c \<noteq> [])
    \<and> (\<forall>p \<in> set (frag_packets H (length body) off cs). length p \<le> MAX_PRINT_CHUNK) \<and> length buf' = length buf"
  using assms
proof (induction "length body - off" arbitrary: off buf out rule: less_induct)
  case less
  show ?case
  proof (cases "off < length body")
    case False
    then show ?thesis using less.prems
      by (intro exI [of _ "[]"] exI [of _ buf]) (simp add: frag_loop.simps)
  next
    case True
    from frag_loop_step [OF less.prems(1-4) True] obtain k b where k: "0 < k" "off + k \<le> length body"
      and b: "length b = length buf" "take hl b = H"
      and fits: "length (H @ ncfrag off (length body) @ take k (drop off body)) \<le> MAX_PRINT_CHUNK"
      and step: "\<And>out. frag_loop body hl off buf out
        = frag_loop body hl (off + k) b (out @ [H @ ncfrag off (length body) @ take k (drop off body)])"
      by blast
    let ?c = "take k (drop off body)"
    let ?out = "out @ [H @ ncfrag off (length body) @ ?c]"
    have "length body - (off + k) < length body - off" using True k by simp
    from less.hyps [OF this, of b ?out] obtain cs b' where
      IH: "frag_loop body hl (off + k) b ?out = Some (?out @ frag_packets H (length body) (off + k) cs, b')"
      "concat cs = drop (off + k) body" "\<forall>c \<in> set cs. c \<noteq> []"
      "\<forall>p \<in> set (frag_packets H (length body) (off + k) cs). length p \<le> MAX_PRINT_CHUNK" "length b' = length b"
      using less.prems(1,3,4) b k(2) by auto
    have c: "length ?c = k" "?c \<noteq> []" using k by auto
    have "?c @ drop (off + k) body = drop off body"
      by (metis append_take_drop_id drop_drop add.commute)
    then show ?thesis
      using step IH c fits b(1) by (intro exI [of _ "?c # cs"] exI [of _ b']) simp
  qed
qed

lemma write_fold:
  assumes "\<forall>nt \<in> set nts. nt_enabled nt \<longrightarrow> np_dev (nt_np nt) \<noteq> None"
  shows "fold (\<lambda>nt st. Option.bind st (write_target running msg nt)) nts (Some out)
    = Some (out @ concat (map (\<lambda>nt. if \<not> nt_extended nt \<and> nt_enabled nt \<and> running (the (np_dev (nt_np nt)))
        then map (Pair (nt_np nt)) (msg_frags msg) else []) nts))"
  using assms by (induction nts arbitrary: out) (auto simp: write_target_def split: option.splits)

section \<open>Properties\<close>

text \<open>
  C22: an extended message that is too long for one datagram is sent completely. Whatever the release
  prefix, as long as the header with its fragment field fits the buffer, the payloads are the message's
  header, each with the byte offset and the total length of the body and a non-empty chunk of it; the
  chunks in order are the body, the offsets are the lengths of the preceding chunks, no payload exceeds
  1000 bytes and no write leaves the buffer.
\<close>

theorem ext_msg_fragments:
  fixes nt :: netconsole_target and release :: string
  assumes "length buf = MAX_PRINT_CHUNK" "strchr (CHR '';'') msg = Some (header, body)"
  defines "R \<equiv> if nt_release nt then release @ '','' else []"
  assumes "length msg + length R > MAX_PRINT_CHUNK"
    and "length (R @ header) + length (ncfrag (length body) (length body)) < MAX_PRINT_CHUNK"
  shows "\<exists>cs buf'. send_ext_msg_udp release nt msg buf
      = Some (frag_packets (R @ header) (length body) 0 cs, buf')
    \<and> concat cs = body \<and> (\<forall>c \<in> set cs. c \<noteq> [])
    \<and> (\<forall>p \<in> set (frag_packets (R @ header) (length body) 0 cs). length p \<le> MAX_PRINT_CHUNK)
    \<and> length buf' = MAX_PRINT_CHUNK"
proof -
  have rl: "(if nt_release nt then length release + 1 else 0) = length R" by (simp add: R_def)
  have "\<exists>n b1. (if nt_release nt then scnprintf buf 0 MAX_PRINT_CHUNK (release @ '','') else Some (0, buf)) = Some (n, b1)
      \<and> take (length R) b1 = R \<and> length b1 = MAX_PRINT_CHUNK"
  proof (cases "nt_release nt")
    case True
    then have "0 + length (release @ '','') < 0 + MAX_PRINT_CHUNK" "0 + MAX_PRINT_CHUNK \<le> length buf"
      using assms(1,5) by (auto simp: R_def)
    from scnprintf_fits [OF this, of "[]"] show ?thesis using True assms(1) by (auto simp: R_def)
  next
    case False
    then show ?thesis using assms(1) by (simp add: R_def)
  qed
  then obtain n b1 where b1: "(if nt_release nt then scnprintf buf 0 MAX_PRINT_CHUNK (release @ '','') else Some (0, buf))
      = Some (n, b1)" "take (length R) b1 = R" "length b1 = MAX_PRINT_CHUNK" by blast
  obtain b2 where b2: "buf_put b1 (length R) header = Some b2"
    using b1(3) assms(5) by (auto simp: buf_put_def)
  note p = buf_put_prefix [OF b2 b1(2)]
  have "length b2 = MAX_PRINT_CHUNK" "take (length (R @ header)) b2 = R @ header" using p b1(3) by simp_all
  from frag_loop_chunks [OF this refl assms(5), of 0 "[]"]
  obtain cs b' where "frag_loop body (length (R @ header)) 0 b2 [] = Some (frag_packets (R @ header) (length body) 0 cs, b')"
    "concat cs = body" "\<forall>c \<in> set cs. c \<noteq> []"
    "\<forall>p \<in> set (frag_packets (R @ header) (length body) 0 cs). length p \<le> MAX_PRINT_CHUNK" "length b' = length b2"
    by auto
  moreover have "send_ext_msg_udp release nt msg buf = frag_loop body (length (R @ header)) 0 b2 []"
    unfolding send_ext_msg_udp_def Let_def rl
    using assms(2,4) b1(1) b2 by (simp add: add.commute)
  ultimately show ?thesis using p(2) b1(3) by auto
qed

text \<open>
  C38: an extended message that fits, with the release prepended. The payload is release, comma and
  message, unless the three are exactly 1000 bytes together: then \<open>scnprintf\<close> has room for 999 of them
  and its terminating NUL, and the last byte of the message goes out as NUL.
\<close>

theorem ext_msg_release_prefix:
  assumes "length buf = MAX_PRINT_CHUNK" "nt_release nt" "CHR 0x00 \<notin> set msg" "msg \<noteq> []"
    and "length msg + length release + 1 \<le> MAX_PRINT_CHUNK"
  shows "\<exists>buf'. send_ext_msg_udp release nt msg buf
    = Some ([if length msg + length release + 1 < MAX_PRINT_CHUNK then release @ '','' @ msg
             else release @ '','' @ butlast msg @ [CHR 0x00]], buf')"
proof -
  have c: "c_string msg = msg" using assms(3) by (auto simp: c_string_def takeWhile_eq_all_conv)
  let ?s = "release @ '','' @ msg"
  have send: "send_ext_msg_udp release nt msg buf = do {
      (n, buf) \<leftarrow> scnprintf buf 0 MAX_PRINT_CHUNK ?s; Some ([take (length ?s) buf], buf) }"
    using assms(2,5) by (simp add: send_ext_msg_udp_def c add.commute add.left_commute)
  show ?thesis
  proof (cases "length msg + length release + 1 < MAX_PRINT_CHUNK")
    case True
    then have "0 + length ?s < 0 + MAX_PRINT_CHUNK" "0 + MAX_PRINT_CHUNK \<le> length buf" using assms(1) by auto
    from scnprintf_fits [OF this, of "[]"] show ?thesis using send True by auto
  next
    case False
    then have l: "length ?s = MAX_PRINT_CHUNK" using assms(5) by simp
    have "butlast ?s = release @ '','' @ butlast msg" using assms(4) by (simp add: butlast_append)
    moreover have "take (MAX_PRINT_CHUNK - 1) ?s = butlast ?s" unfolding l [symmetric] by (simp add: butlast_conv_take)
    ultimately have "scnprintf buf 0 MAX_PRINT_CHUNK ?s
        = Some (MAX_PRINT_CHUNK - 1, release @ '','' @ butlast msg @ [CHR 0x00])"
      using assms(1) l by (simp add: scnprintf_def buf_put_def Let_def MAX_PRINT_CHUNK_def)
    moreover have "length msg - (length msg - Suc 0) = Suc 0" using assms(4) by (cases msg) auto
    ultimately show ?thesis using send False l assms(4) by auto
  qed
qed

text \<open>
  A plain console message reaches every enabled plain target whose device runs, in the order of the
  target list, cut into payloads of at most 1000 bytes that concatenate to the message. Nothing faults,
  provided every enabled target has a device; with \<open>oops_only\<close> set and no crash in progress nothing is sent.
\<close>

lemma write_msg_delivers:
  assumes "\<forall>nt \<in> set nts. nt_enabled nt \<longrightarrow> np_dev (nt_np nt) \<noteq> None"
  shows "write_msg oops_only oops_in_progress running nts msg = Some (if oops_only \<and> \<not> oops_in_progress then []
      else concat (map (\<lambda>nt. if \<not> nt_extended nt \<and> nt_enabled nt \<and> running (the (np_dev (nt_np nt)))
        then map (Pair (nt_np nt)) (msg_frags msg) else []) nts))
    \<and> concat (msg_frags msg) = msg \<and> (\<forall>p \<in> set (msg_frags msg). p \<noteq> [] \<and> length p \<le> 1000)
    \<and> length (msg_frags msg) \<le> length msg"
  using write_fold [OF assms, of running msg "[]"] plain.split_concat plain.split_bound plain.split_count
  by (auto simp: write_msg_def MAX_PRINT_CHUNK_def)

section \<open>Witnesses\<close>

definition demo_np :: netpoll where
  "demo_np = \<lparr>np_dev = Some 0, np_dev_name = ''eth0'', np_local_ip = replicate 16 0, np_remote_ip = replicate 16 0,
     np_ipv6 = False, np_local_port = 6665, np_remote_port = 6666, np_remote_mac = replicate 6 255\<rparr>"

definition demo_target :: netconsole_target where
  "demo_target = \<lparr>nt_name = None, nt_enabled = True, nt_extended = True, nt_release = True, nt_np = demo_np\<rparr>"

definition long_msg :: string where
  "long_msg = ''6,1,2,-;'' @ replicate 1500 (CHR ''x'')"

theorem ext_msg_fragments_witness:
  "\<exists>cs buf'. send_ext_msg_udp ''6.6'' demo_target long_msg (replicate 1000 (CHR 0x00))
      = Some (frag_packets ''6.6,6,1,2,-'' 1500 0 cs, buf') \<and> concat cs = replicate 1500 (CHR ''x'')"
proof -
  have s: "strchr (CHR '';'') long_msg = Some (''6,1,2,-'', replicate 1500 (CHR ''x''))"
    using strchr_append [of "CHR '';''" "''6,1,2,-''" "replicate 1500 (CHR ''x'')"] by (simp add: long_msg_def)
  have "length (ncfrag 1500 1500) = 18" by (simp add: ncfrag_def dec_digits.simps)
  then show ?thesis
    using ext_msg_fragments [of "replicate 1000 (CHR 0x00)" long_msg "''6,1,2,-''" "replicate 1500 (CHR ''x'')"
        demo_target "''6.6''"] s
    by (simp add: MAX_PRINT_CHUNK_def demo_target_def long_msg_def) blast
qed

theorem ext_msg_release_prefix_witness:
  "\<exists>buf'. send_ext_msg_udp ''6.6'' demo_target (replicate 996 (CHR ''x'')) (replicate 1000 (CHR 0x00))
    = Some ([''6.6,'' @ replicate 995 (CHR ''x'') @ [CHR 0x00]], buf')"
  using ext_msg_release_prefix [of "replicate 1000 (CHR 0x00)" demo_target "replicate 996 (CHR ''x'')" "''6.6''"]
  by (simp add: MAX_PRINT_CHUNK_def demo_target_def butlast_conv_take)

theorem write_msg_delivers_witness:
  "write_msg False False (\<lambda>_. True) [demo_target, demo_target\<lparr>nt_extended := False\<rparr>] ''hello''
    = Some [(demo_np, ''hello'')]"
  using write_msg_delivers [of "[demo_target, demo_target\<lparr>nt_extended := False\<rparr>]" False False "\<lambda>_. True" "''hello''"]
  by (simp add: demo_target_def demo_np_def msg_frags_simps MAX_PRINT_CHUNK_def)

end
