(* ===== verification/Netcon_Target.thy ===== *)
theory Netcon_Target
  imports Netpoll_Refs Netcon_Msg
begin

text \<open>
  \<open>netcon-port/netconsole.c\<close>, targets: allocation from the option string, the configfs attributes, creation and
  removal through configfs, network device events, module load and unload. Targets live in an explicit heap, so that
  a use of a freed one is visible as \<open>None\<close>; so is a call that never returns or takes the mutex twice.
\<close>

section \<open>State\<close>

text \<open>Build options: \<open>CONFIG_NETCONSOLE_DYNAMIC\<close>, \<open>..._EXTENDED_LOG\<close> and \<open>..._PREPEND_RELEASE\<close>.\<close>

record netcon_cfg =
  cf_dynamic :: bool
  cf_extended_log :: bool
  cf_prepend_release :: bool

text \<open>
  \<open>nc_list\<close> is \<open>target_list\<close> from its head; \<open>nc_refs\<close> counts the references of a target's configfs item.
  The last group is what is registered with the kernel, and the \<open>CON_PRINTBUFFER\<close> flags.
\<close>

record netcon =
  nc_net :: net
  nc_heap :: "nat \<Rightarrow> netconsole_target option"
  nc_list :: "nat list"
  nc_next :: nat
  nc_refs :: "nat \<Rightarrow> nat"
  nc_mutex :: bool
  nc_ext_console :: bool
  nc_console :: bool
  nc_notifier :: bool
  nc_subsys :: bool
  nc_ext_printbuffer :: bool
  nc_printbuffer :: bool

definition strnlen :: "string \<Rightarrow> nat \<Rightarrow> int" where "strnlen s n = int (min (length s) n)"

abbreviation newline :: char where "newline \<equiv> CHR 0x0a"

section \<open>Allocation\<close>

definition alloc_and_init :: "netcon_cfg \<Rightarrow> netconsole_target" where
  "alloc_and_init cfg =
     \<lparr>nt_name = None, nt_enabled = False, nt_extended = cf_extended_log cfg, nt_release = cf_prepend_release cfg,
      nt_np = \<lparr>np_dev = None, np_dev_name = strscpy ''eth0'' IFNAMSIZ, np_local_ip = replicate 16 0,
        np_remote_ip = replicate 16 0, np_ipv6 = False, np_local_port = 6665, np_remote_port = 6666,
        np_remote_mac = replicate 6 0xff\<rparr>\<rparr>"

text \<open>The flags in front of the option string; the release flag needs the extended one.\<close>

definition target_flags :: "netcon_cfg \<Rightarrow> string \<Rightarrow> int + netconsole_target \<times> string" where
  "target_flags cfg target_config =
     (let nt = alloc_and_init cfg;
          (nt, s) = (if target_config \<noteq> [] \<and> hd target_config = CHR ''+''
                     then (nt\<lparr>nt_extended := True\<rparr>, tl target_config) else (nt, target_config))
      in if s \<noteq> [] \<and> hd s = CHR ''r''
         then if \<not> nt_extended nt then Inl (- EINVAL) else Inr (nt\<lparr>nt_release := True\<rparr>, tl s)
         else Inr (nt, s))"

text \<open>
  The new target or the error; on an error the target is freed. \<open>None\<close>: the setup does not return.
\<close>

definition alloc_param_target ::
  "netcon_cfg \<Rightarrow> net_lib \<Rightarrow> setup_env \<Rightarrow> bool \<Rightarrow> string \<Rightarrow> net \<Rightarrow> ((int + netconsole_target) \<times> net) option" where
  "alloc_param_target cfg L E alloc target_config N =
     (if \<not> alloc then Some (Inl (- ENOMEM), N)
      else case target_flags cfg target_config of
             Inl err \<Rightarrow> Some (Inl err, N)
           | Inr (nt, s) \<Rightarrow>
               (let (err, np) = netpoll_parse_options L (nt_np nt) s
                in if err \<noteq> 0 then Some (Inl err, N)
                   else case netpoll_setup E np N of
                          None \<Rightarrow> None
                        | Some (err, np, N) \<Rightarrow>
                            if err \<noteq> 0 then Some (Inl err, N)
                            else Some (Inr (nt\<lparr>nt_np := np, nt_enabled := True\<rparr>), N)))"

definition free_param_target :: "nat \<Rightarrow> netcon \<Rightarrow> netcon option" where
  "free_param_target t S =
     (case nc_heap S t of
        None \<Rightarrow> None
      | Some nt \<Rightarrow>
          (case netpoll_cleanup (nt_np nt) (nc_net S) of
             None \<Rightarrow> None
           | Some (np, N) \<Rightarrow> Some (S\<lparr>nc_net := N, nc_heap := (nc_heap S)(t := None)\<rparr>)))"

text \<open>References on a configfs item; a target without a name has none. The last one frees the target.\<close>

definition netconsole_target_get :: "nat \<Rightarrow> netcon \<Rightarrow> netcon" where
  "netconsole_target_get t S =
     (if map_option nt_name (nc_heap S t) \<in> {None, Some None} then S
      else S\<lparr>nc_refs := (nc_refs S)(t := nc_refs S t + 1)\<rparr>)"

definition config_item_put :: "nat \<Rightarrow> netcon \<Rightarrow> netcon" where
  "config_item_put t S =
     (let S = S\<lparr>nc_refs := (nc_refs S)(t := nc_refs S t - 1)\<rparr>
      in if nc_refs S t = 0 then S\<lparr>nc_heap := (nc_heap S)(t := None)\<rparr> else S)"

definition netconsole_target_put :: "nat \<Rightarrow> netcon \<Rightarrow> netcon" where
  "netconsole_target_put t S =
     (if map_option nt_name (nc_heap S t) \<in> {None, Some None} then S else config_item_put t S)"

section \<open>Attributes\<close>

text \<open>What the attribute files show; the formatter of the kernel is a parameter.\<close>

definition bool_show :: "bool \<Rightarrow> string" where "bool_show b = dec_string (of_bool b) @ [newline]"

definition enabled_show :: "netconsole_target \<Rightarrow> string" where "enabled_show nt = bool_show (nt_enabled nt)"
definition extended_show :: "netconsole_target \<Rightarrow> string" where "extended_show nt = bool_show (nt_extended nt)"
definition release_show :: "netconsole_target \<Rightarrow> string" where "release_show nt = bool_show (nt_release nt)"

definition dev_name_show :: "netconsole_target \<Rightarrow> string" where
  "dev_name_show nt = np_dev_name (nt_np nt) @ [newline]"

definition local_port_show :: "netconsole_target \<Rightarrow> string" where
  "local_port_show nt = dec_string (uint (np_local_port (nt_np nt))) @ [newline]"

definition remote_port_show :: "netconsole_target \<Rightarrow> string" where
  "remote_port_show nt = dec_string (uint (np_remote_port (nt_np nt))) @ [newline]"

definition ip_show :: "net_fmt \<Rightarrow> bool \<Rightarrow> bytes \<Rightarrow> string" where
  "ip_show F ipv6 a = fmt_ip F ipv6 (if ipv6 then a else take 4 a) @ [newline]"

definition local_ip_show :: "net_fmt \<Rightarrow> netconsole_target \<Rightarrow> string" where
  "local_ip_show F nt = ip_show F (np_ipv6 (nt_np nt)) (np_local_ip (nt_np nt))"

definition remote_ip_show :: "net_fmt \<Rightarrow> netconsole_target \<Rightarrow> string" where
  "remote_ip_show F nt = ip_show F (np_ipv6 (nt_np nt)) (np_remote_ip (nt_np nt))"

definition local_mac_show :: "net_fmt \<Rightarrow> net \<Rightarrow> netconsole_target \<Rightarrow> string" where
  "local_mac_show F N nt =
     fmt_mac F (case np_dev (nt_np nt) of None \<Rightarrow> replicate 6 0xff | Some d \<Rightarrow> nd_addr (net_devs N ! d)) @ [newline]"

definition remote_mac_show :: "net_fmt \<Rightarrow> netconsole_target \<Rightarrow> string" where
  "remote_mac_show F nt = fmt_mac F (np_remote_mac (nt_np nt)) @ [newline]"

text \<open>
  Every parameter is stored under the mutex and only while the target is disabled. \<open>f\<close> computes the return
  value and the target it leaves; its \<open>None\<close> is an access outside an object.
\<close>

definition param_store ::
  "nat \<Rightarrow> (netconsole_target \<Rightarrow> (int \<times> netconsole_target) option) \<Rightarrow> netcon \<Rightarrow> (int \<times> netcon) option" where
  "param_store t f S =
     (if nc_mutex S then None
      else case nc_heap S t of
             None \<Rightarrow> None
           | Some nt \<Rightarrow>
               (let S = S\<lparr>nc_mutex := True\<rparr>
                in if nt_enabled nt then Some (- EINVAL, S\<lparr>nc_mutex := False\<rparr>)
                   else case f nt of
                          None \<Rightarrow> None
                        | Some (rv, nt) \<Rightarrow> Some (rv, S\<lparr>nc_heap := (nc_heap S)(t \<mapsto> nt), nc_mutex := False\<rparr>)))"

definition release_store :: "net_lib \<Rightarrow> nat \<Rightarrow> string \<Rightarrow> nat \<Rightarrow> netcon \<Rightarrow> (int \<times> netcon) option" where
  "release_store L t buf count =
     param_store t (\<lambda>nt. case kstrtobool L buf of
         Inl err \<Rightarrow> Some (err, nt)
       | Inr release \<Rightarrow> Some (strnlen buf count, nt\<lparr>nt_release := release\<rparr>))"

definition extended_store :: "net_lib \<Rightarrow> nat \<Rightarrow> string \<Rightarrow> nat \<Rightarrow> netcon \<Rightarrow> (int \<times> netcon) option" where
  "extended_store L t buf count =
     param_store t (\<lambda>nt. case kstrtobool L buf of
         Inl err \<Rightarrow> Some (err, nt)
       | Inr extended \<Rightarrow> Some (strnlen buf count, nt\<lparr>nt_extended := extended\<rparr>))"

text \<open>The last character of an empty name is read outside the array.\<close>

definition dev_name_store :: "nat \<Rightarrow> string \<Rightarrow> nat \<Rightarrow> netcon \<Rightarrow> (int \<times> netcon) option" where
  "dev_name_store t buf count =
     param_store t (\<lambda>nt.
       (let name = strscpy buf IFNAMSIZ
        in if name = [] then None
           else
             (let name = (if last name = newline then butlast name else name)
              in Some (strnlen buf count, nt\<lparr>nt_np := (nt_np nt)\<lparr>np_dev_name := name\<rparr>\<rparr>))))"

definition local_port_store :: "net_lib \<Rightarrow> nat \<Rightarrow> string \<Rightarrow> nat \<Rightarrow> netcon \<Rightarrow> (int \<times> netcon) option" where
  "local_port_store L t buf count =
     param_store t (\<lambda>nt. case kstrtou16 L buf of
         Inl rv \<Rightarrow> Some (rv, nt)
       | Inr port \<Rightarrow> Some (strnlen buf count, nt\<lparr>nt_np := (nt_np nt)\<lparr>np_local_port := port\<rparr>\<rparr>))"

definition remote_port_store :: "net_lib \<Rightarrow> nat \<Rightarrow> string \<Rightarrow> nat \<Rightarrow> netcon \<Rightarrow> (int \<times> netcon) option" where
  "remote_port_store L t buf count =
     param_store t (\<lambda>nt. case kstrtou16 L buf of
         Inl rv \<Rightarrow> Some (rv, nt)
       | Inr port \<Rightarrow> Some (strnlen buf count, nt\<lparr>nt_np := (nt_np nt)\<lparr>np_remote_port := port\<rparr>\<rparr>))"

text \<open>
  The address given to a target whose current address is \<open>old\<close>: the return value is negative on a
  rejection, and the address union and IP version are as the code leaves them then.
\<close>

definition ip_store_value :: "net_lib \<Rightarrow> string \<Rightarrow> nat \<Rightarrow> bool \<Rightarrow> bytes \<Rightarrow> int \<times> bool \<times> bytes" where
  "ip_store_value L buf count ipv6 old =
     (if CHR '':'' \<in> set (take count buf) then
        (case in6_pton L (take count buf) of
           None \<Rightarrow> (- EINVAL, ipv6, old)
         | Some (a, rest) \<Rightarrow>
             if rest \<noteq> [] \<and> hd rest \<noteq> newline then (- EINVAL, ipv6, a) else (strnlen buf count, True, a))
      else if \<not> ipv6 then (strnlen buf count, ipv6, put_ip4 (in_aton L buf) old)
      else (- EINVAL, ipv6, old))"

definition local_ip_store :: "net_lib \<Rightarrow> nat \<Rightarrow> string \<Rightarrow> nat \<Rightarrow> netcon \<Rightarrow> (int \<times> netcon) option" where
  "local_ip_store L t buf count =
     param_store t (\<lambda>nt.
       (let (rv, ipv6, a) = ip_store_value L buf count (np_ipv6 (nt_np nt)) (np_local_ip (nt_np nt))
        in Some (rv, nt\<lparr>nt_np := (nt_np nt)\<lparr>np_local_ip := a, np_ipv6 := ipv6\<rparr>\<rparr>)))"

definition remote_ip_store :: "net_lib \<Rightarrow> nat \<Rightarrow> string \<Rightarrow> nat \<Rightarrow> netcon \<Rightarrow> (int \<times> netcon) option" where
  "remote_ip_store L t buf count =
     param_store t (\<lambda>nt.
       (let (rv, ipv6, a) = ip_store_value L buf count (np_ipv6 (nt_np nt)) (np_remote_ip (nt_np nt))
        in Some (rv, nt\<lparr>nt_np := (nt_np nt)\<lparr>np_remote_ip := a, np_ipv6 := ipv6\<rparr>\<rparr>)))"

definition remote_mac_store :: "net_lib \<Rightarrow> nat \<Rightarrow> string \<Rightarrow> nat \<Rightarrow> netcon \<Rightarrow> (int \<times> netcon) option" where
  "remote_mac_store L t buf count =
     param_store t (\<lambda>nt. case mac_pton L buf of
         None \<Rightarrow> Some (- EINVAL, nt)
       | Some remote_mac \<Rightarrow>
           if length buf > 3 * 6 - 1 \<and> buf ! (3 * 6 - 1) \<noteq> newline then Some (- EINVAL, nt)
           else Some (strnlen buf count, nt\<lparr>nt_np := (nt_np nt)\<lparr>np_remote_mac := remote_mac\<rparr>\<rparr>))"

definition enabled_store :: "net_lib \<Rightarrow> setup_env \<Rightarrow> nat \<Rightarrow> string \<Rightarrow> nat \<Rightarrow> netcon \<Rightarrow> (int \<times> netcon) option" where
  "enabled_store L E t buf count S =
     (if nc_mutex S then None
      else case nc_heap S t of
             None \<Rightarrow> None
           | Some nt \<Rightarrow>
               (let S = S\<lparr>nc_mutex := True\<rparr>
                in case kstrtobool L buf of
                     Inl err \<Rightarrow> Some (err, S\<lparr>nc_mutex := False\<rparr>)
                   | Inr enabled \<Rightarrow>
                       if enabled = nt_enabled nt then Some (- EINVAL, S\<lparr>nc_mutex := False\<rparr>)
                       else if enabled then
                         if nt_release nt \<and> \<not> nt_extended nt then Some (- EINVAL, S\<lparr>nc_mutex := False\<rparr>)
                         else
                           (let S = (if nt_extended nt \<and> \<not> nc_ext_console S then S\<lparr>nc_ext_console := True\<rparr> else S)
                            in case netpoll_setup E (nt_np nt) (nc_net S) of
                                 None \<Rightarrow> None
                               | Some (err, np, N) \<Rightarrow>
                                   if err \<noteq> 0
                                   then Some (err, S\<lparr>nc_net := N, nc_heap := (nc_heap S)(t \<mapsto> nt\<lparr>nt_np := np\<rparr>),
                                          nc_mutex := False\<rparr>)
                                   else Some (strnlen buf count, S\<lparr>nc_net := N,
                                          nc_heap := (nc_heap S)(t \<mapsto> nt\<lparr>nt_np := np, nt_enabled := True\<rparr>),
                                          nc_mutex := False\<rparr>))
                       else
                         (case netpoll_cleanup (nt_np nt) (nc_net S) of
                            None \<Rightarrow> None
                          | Some (np, N) \<Rightarrow>
                              Some (strnlen buf count, S\<lparr>nc_net := N,
                                nc_heap := (nc_heap S)(t \<mapsto> nt\<lparr>nt_np := np, nt_enabled := False\<rparr>), nc_mutex := False\<rparr>))))"

section \<open>Creation and removal through configfs\<close>

definition make_netconsole_target :: "netcon_cfg \<Rightarrow> bool \<Rightarrow> string \<Rightarrow> netcon \<Rightarrow> int \<times> netcon" where
  "make_netconsole_target cfg alloc name S =
     (if \<not> alloc then (- ENOMEM, S)
      else
        (let t = nc_next S
         in (0, S\<lparr>nc_next := t + 1, nc_heap := (nc_heap S)(t \<mapsto> (alloc_and_init cfg)\<lparr>nt_name := Some name\<rparr>),
                nc_refs := (nc_refs S)(t := 1), nc_list := t # nc_list S\<rparr>)))"

definition drop_netconsole_target :: "nat \<Rightarrow> netcon \<Rightarrow> netcon option" where
  "drop_netconsole_target t S =
     (case nc_heap S t of
        None \<Rightarrow> None
      | Some nt \<Rightarrow>
          (let S = S\<lparr>nc_list := remove1 t (nc_list S)\<rparr>
           in if nt_enabled nt then
                (case netpoll_cleanup (nt_np nt) (nc_net S) of
                   None \<Rightarrow> None
                 | Some (np, N) \<Rightarrow>
                     Some (config_item_put t (S\<lparr>nc_net := N, nc_heap := (nc_heap S)(t \<mapsto> nt\<lparr>nt_np := np\<rparr>)\<rparr>)))
              else Some (config_item_put t S)))"

section \<open>Network device events\<close>

datatype netdev_event = NETDEV_CHANGENAME | NETDEV_UNREGISTER | NETDEV_RELEASE | NETDEV_JOIN | NETDEV_OTHER

text \<open>The device a target uses, if the target exists.\<close>

definition tdev :: "netcon \<Rightarrow> nat \<Rightarrow> nat option" where
  "tdev S t = Option.bind (nc_heap S t) (\<lambda>nt. np_dev (nt_np nt))"

lemma target_refs_simps [simp]:
  "nc_list (netconsole_target_get t S) = nc_list S" "nc_heap (netconsole_target_get t S) = nc_heap S"
  "nc_net (netconsole_target_get t S) = nc_net S"
  "nc_list (netconsole_target_put t S) = nc_list S" "nc_net (netconsole_target_put t S) = nc_net S"
  by (simp_all add: netconsole_target_get_def netconsole_target_put_def config_item_put_def Let_def)

lemma put_tdev: "tdev (netconsole_target_put t S) x = Some d \<Longrightarrow> tdev S x = Some d"
  by (auto simp: netconsole_target_put_def config_item_put_def tdev_def Let_def split: if_splits Option.bind_splits)

text \<open>The users of a device among the targets still to come and those of the list: the measure of the walk below, which loses one at each restart.\<close>

definition event_users :: "nat \<Rightarrow> nat list \<Rightarrow> netcon \<Rightarrow> nat set" where
  "event_users d ts S = {t \<in> set ts \<union> set (nc_list S). tdev S t = Some d}"

lemma event_users_finite: "finite (event_users d ts S)"
  by (simp add: event_users_def)

lemma event_users_mono:
  assumes "nc_list S' = nc_list S" "set ts' \<subseteq> set ts \<union> set (nc_list S)" "\<And>x. tdev S' x = Some d \<Longrightarrow> tdev S x = Some d"
  shows "card (event_users d ts' S') \<le> card (event_users d ts S)"
  by (rule card_mono [OF event_users_finite]) (use assms in \<open>auto simp: event_users_def\<close>)

lemma event_users_less:
  assumes "nc_list S' = nc_list S" "set ts' \<subseteq> set ts \<union> set (nc_list S)" "\<And>x. tdev S' x = Some d \<Longrightarrow> tdev S x = Some d"
    and "t \<in> set ts" "tdev S t = Some d" "tdev S' t \<noteq> Some d"
  shows "card (event_users d ts' S') < card (event_users d ts S)"
  by (rule psubset_card_mono [OF event_users_finite]) (use assms in \<open>auto simp: event_users_def\<close>)

text \<open>
  The walk over the rest of the list; after a target has been detached it starts again from the
  head. The result says whether any was.
\<close>

function event_scan :: "netdev_event \<Rightarrow> nat \<Rightarrow> nat list \<Rightarrow> bool \<Rightarrow> netcon \<Rightarrow> (bool \<times> netcon) option" where
  "event_scan ev dev [] stopped S = Some (stopped, S)"
| "event_scan ev dev (t # ts) stopped S =
     (case nc_heap S t of
        None \<Rightarrow> None
      | Some nt \<Rightarrow>
          if np_dev (nt_np nt) \<noteq> Some dev then event_scan ev dev ts stopped (netconsole_target_put t (netconsole_target_get t S))
          else if ev = NETDEV_CHANGENAME then
            (let S = netconsole_target_get t S;
                 np = (nt_np nt)\<lparr>np_dev_name := strscpy (nd_name (net_devs (nc_net S) ! dev)) IFNAMSIZ\<rparr>
             in event_scan ev dev ts stopped (netconsole_target_put t (S\<lparr>nc_heap := (nc_heap S)(t \<mapsto> nt\<lparr>nt_np := np\<rparr>)\<rparr>)))
          else
            (let S = netconsole_target_get t S
             in case netpoll_cleanup_dev (nt_np nt) (nc_net S) of
                  None \<Rightarrow> None
                | Some N \<Rightarrow>
                    (let S = netconsole_target_put t
                               (S\<lparr>nc_net := dev_update dev (nd_refs_update (\<lambda>r. r - 1)) N,
                                  nc_heap := (nc_heap S)(t \<mapsto> nt\<lparr>nt_np := (nt_np nt)\<lparr>np_dev := None\<rparr>, nt_enabled := False\<rparr>)\<rparr>)
                     in event_scan ev dev (nc_list S) True S)))"
  by pat_completeness auto

termination
proof (relation "measures [\<lambda>(ev, dev, ts, stopped, S). card (event_users dev ts S), \<lambda>(ev, dev, ts, stopped, S). length ts]",
    goal_cases)
  case (2 ev dev t ts stopped S nt)
  have "tdev S x = Some dev" if "tdev (netconsole_target_put t (netconsole_target_get t S)) x = Some dev" for x
    using put_tdev [OF that] by (simp add: tdev_def)
  then show ?case using event_users_mono [of "netconsole_target_put t (netconsole_target_get t S)" S ts "t # ts" dev]
    by (auto simp: le_less)
next
  case (3 ev dev t ts stopped S nt S1 np)
  let ?S = "S1\<lparr>nc_heap := (nc_heap S1)(t \<mapsto> nt\<lparr>nt_np := np\<rparr>)\<rparr>"
  have "tdev S x = Some dev" if "tdev (netconsole_target_put t ?S) x = Some dev" for x
    using put_tdev [OF that] 3 by (auto simp: tdev_def split: if_splits)
  then show ?case using event_users_mono [of "netconsole_target_put t ?S" S ts "t # ts" dev] 3 by (auto simp: le_less)
next
  case (4 ev dev t ts stopped S nt S1 N S2)
  let ?S = "S1\<lparr>nc_net := dev_update dev (nd_refs_update (\<lambda>r. r - 1)) N,
    nc_heap := (nc_heap S1)(t \<mapsto> nt\<lparr>nt_np := (nt_np nt)\<lparr>np_dev := None\<rparr>, nt_enabled := False\<rparr>)\<rparr>"
  have "tdev S x = Some dev \<and> x \<noteq> t" if "tdev S2 x = Some dev" for x
  proof -
    have "tdev ?S x = Some dev" using that 4 put_tdev [of t ?S x dev] by simp
    then show ?thesis using 4 by (auto simp: tdev_def split: if_splits)
  qed
  then show ?case using event_users_less [of S2 S "nc_list S2" "t # ts" dev t] 4 by (auto simp: tdev_def)
qed simp

definition netconsole_netdev_event :: "netdev_event \<Rightarrow> nat \<Rightarrow> netcon \<Rightarrow> netcon option" where
  "netconsole_netdev_event ev dev S =
     (if ev = NETDEV_OTHER then Some S else map_option snd (event_scan ev dev (nc_list S) False S))"

section \<open>Module load and unload\<close>

text \<open>What the kernel answers during a load: allocation and setup of the targets in turn, and the two registrations.\<close>

record init_env =
  ie_alloc :: "nat \<Rightarrow> bool"
  ie_setup :: "nat \<Rightarrow> setup_env"
  ie_notifier :: int
  ie_subsys :: int

text \<open>\<open>strsep\<close> until the input is used up.\<close>

fun strsep_all :: "char \<Rightarrow> string \<Rightarrow> string list" where
  "strsep_all c [] = [[]]"
| "strsep_all c (x # xs) =
     (if x = c then [] # strsep_all c xs
      else case strsep_all c xs of [] \<Rightarrow> [[x]] | w # ws \<Rightarrow> (x # w) # ws)"

text \<open>The loop over the option string, target \<open>k\<close> first: the error and whether a target is extended.\<close>

fun init_targets ::
  "netcon_cfg \<Rightarrow> net_lib \<Rightarrow> init_env \<Rightarrow> nat \<Rightarrow> string list \<Rightarrow> bool \<Rightarrow> netcon \<Rightarrow> (int \<times> bool \<times> netcon) option" where
  "init_targets cfg L I k [] extended S = Some (0, extended, S)"
| "init_targets cfg L I k (w # ws) extended S =
     (case alloc_param_target cfg L (ie_setup I k) (ie_alloc I k) w (nc_net S) of
        None \<Rightarrow> None
      | Some (Inl err, N) \<Rightarrow> Some (err, extended, S\<lparr>nc_net := N\<rparr>)
      | Some (Inr nt, N) \<Rightarrow>
          (let t = nc_next S;
               S = S\<lparr>nc_net := N, nc_next := t + 1, nc_heap := (nc_heap S)(t \<mapsto> nt),
                     nc_ext_printbuffer := (nc_ext_printbuffer S \<or> nt_extended nt),
                     nc_printbuffer := (nc_printbuffer S \<or> \<not> nt_extended nt),
                     nc_list := t # nc_list S\<rparr>
           in init_targets cfg L I (k + 1) ws (extended \<or> nt_extended nt) S))"

text \<open>\<open>list_for_each_entry_safe\<close> with \<open>list_del\<close> and \<open>free_param_target\<close>.\<close>

fun free_targets :: "nat list \<Rightarrow> netcon \<Rightarrow> netcon option" where
  "free_targets [] S = Some S"
| "free_targets (t # ts) S =
     (case free_param_target t (S\<lparr>nc_list := remove1 t (nc_list S)\<rparr>) of
        None \<Rightarrow> None
      | Some S \<Rightarrow> free_targets ts S)"

definition dynamic_netconsole_init :: "netcon_cfg \<Rightarrow> init_env \<Rightarrow> netcon \<Rightarrow> int \<times> netcon" where
  "dynamic_netconsole_init cfg I S =
     (if cf_dynamic cfg then (ie_subsys I, if ie_subsys I = 0 then S\<lparr>nc_subsys := True\<rparr> else S) else (0, S))"

definition init_netconsole :: "netcon_cfg \<Rightarrow> net_lib \<Rightarrow> init_env \<Rightarrow> string \<Rightarrow> netcon \<Rightarrow> (int \<times> netcon) option" where
  "init_netconsole cfg L I config S = do {
     (err, extended, S) \<leftarrow> (if config \<noteq> [] then init_targets cfg L I 0 (strsep_all (CHR '';'') config) False S
                             else Some (0, False, S));
     let (err, S) =
       (if err \<noteq> 0 then (err, S)
        else if ie_notifier I \<noteq> 0 then (ie_notifier I, S)
        else
          (let S = S\<lparr>nc_notifier := True\<rparr>;
               (err, S) = dynamic_netconsole_init cfg I S
           in if err \<noteq> 0 then (err, S\<lparr>nc_notifier := False\<rparr>)
              else (0, S\<lparr>nc_ext_console := (nc_ext_console S \<or> extended), nc_console := True\<rparr>)));
     if err = 0 then Some (0, S) else map_option (Pair err) (free_targets (nc_list S) S) }"

definition cleanup_netconsole :: "netcon_cfg \<Rightarrow> netcon \<Rightarrow> netcon option" where
  "cleanup_netconsole cfg S =
     (let S = S\<lparr>nc_ext_console := False, nc_console := False, nc_notifier := False,
                nc_subsys := (if cf_dynamic cfg then False else nc_subsys S)\<rparr>
      in free_targets (nc_list S) S)"

end
