(* ===== verification/Netcon_Life.thy ===== *)
theory Netcon_Life
  imports Netcon_Target
begin

text \<open>
  The invariant of the netconsole targets: the enabled flag mirrors the use of a device, every reference
  netconsole holds on a device belongs to one listed target, and no target leaks. Every operation keeps it, and
  load and unload establish and dissolve it.
\<close>

section \<open>Invariant\<close>

text \<open>How many listed targets use device \<open>d\<close>.\<close>

definition users :: "netcon \<Rightarrow> nat \<Rightarrow> int" where
  "users S d = (\<Sum>t \<in> set (nc_list S). of_bool (tdev S t = Some d))"

definition target_ok :: "nat \<Rightarrow> netconsole_target \<Rightarrow> bool" where
  "target_ok n nt \<longleftrightarrow> (nt_enabled nt \<longleftrightarrow> np_dev (nt_np nt) \<noteq> None) \<and> (\<forall>d. np_dev (nt_np nt) = Some d \<longrightarrow> d < n)"

text \<open>\<open>b\<close> is the number of references on each device that netconsole does not hold.\<close>

definition netcon_inv :: "int list \<Rightarrow> netcon \<Rightarrow> bool" where
  "netcon_inv b S \<longleftrightarrow> net_inv (nc_net S) \<and> distinct (nc_list S) \<and> dom (nc_heap S) = set (nc_list S)
     \<and> (\<forall>t \<in> set (nc_list S). t < nc_next S) \<and> \<not> nc_mutex S
     \<and> (\<forall>t nt. nc_heap S t = Some nt \<longrightarrow> target_ok (length b) nt \<and> (nt_name nt \<noteq> None \<longrightarrow> nc_refs S t = 1))
     \<and> length (net_devs (nc_net S)) = length b \<and> (\<forall>d < length b. nd_refs (net_devs (nc_net S) ! d) = b ! d + users S d)"

section \<open>Lemmas\<close>

lemma inv_target:
  assumes "netcon_inv b S" "nc_heap S t = Some nt"
  shows "target_ok (length (net_devs (nc_net S))) nt" "nt_name nt \<noteq> None \<Longrightarrow> nc_refs S t = 1" "t \<in> set (nc_list S)"
  using assms unfolding netcon_inv_def by auto

lemma inv_listed: "netcon_inv b S \<Longrightarrow> t \<in> set (nc_list S) \<Longrightarrow> \<exists>nt. nc_heap S t = Some nt"
  unfolding netcon_inv_def by blast

lemma tdev_listed: "netcon_inv b S \<Longrightarrow> tdev S t = Some d \<Longrightarrow> t \<in> set (nc_list S)"
  by (auto simp: tdev_def dest: inv_target(3) split: Option.bind_splits)

lemma users_update:
  assumes "nc_list S' = nc_list S" "nc_heap S' = (nc_heap S)(t \<mapsto> nt')" "nc_heap S t = Some nt" "t \<in> set (nc_list S)"
  shows "users S' d = users S d - of_bool (np_dev (nt_np nt) = Some d) + of_bool (np_dev (nt_np nt') = Some d)"
proof -
  have "(\<Sum>x \<in> set (nc_list S) - {t}. of_bool (tdev S' x = Some d)) = (\<Sum>x \<in> set (nc_list S) - {t}. of_bool (tdev S x = Some d) :: int)"
    by (rule sum.cong) (use assms(2) in \<open>auto simp: tdev_def\<close>)
  moreover have "tdev S t = np_dev (nt_np nt)" "tdev S' t = np_dev (nt_np nt')" using assms(2,3) by (simp_all add: tdev_def)
  ultimately show ?thesis
    unfolding users_def assms(1) sum.remove [OF finite_set assms(4)] by (simp del: sum_of_bool_eq)
qed

text \<open>A target is replaced, and the references on the devices follow its use of them.\<close>

lemma inv_update:
  assumes inv: "netcon_inv b S" and t: "nc_heap S t = Some nt"
    and S': "nc_list S' = nc_list S" "nc_next S' = nc_next S" "nc_refs S' = nc_refs S" "\<not> nc_mutex S'"
      "nc_heap S' = (nc_heap S)(t \<mapsto> nt')"
    and nt': "target_ok (length (net_devs (nc_net S))) nt'" "nt_name nt' = nt_name nt"
    and N: "net_inv (nc_net S')" "length (net_devs (nc_net S')) = length (net_devs (nc_net S))"
      "\<And>d. d < length (net_devs (nc_net S)) \<Longrightarrow> dev_refs (nc_net S') ! d = dev_refs (nc_net S) ! d
        - of_bool (np_dev (nt_np nt) = Some d) + of_bool (np_dev (nt_np nt') = Some d)"
  shows "netcon_inv b S'"
proof -
  have l: "t \<in> set (nc_list S)" by (rule inv_target(3) [OF inv t])
  have d: "dom (nc_heap S') = set (nc_list S')" using inv l S' unfolding netcon_inv_def by auto
  have h: "target_ok (length (net_devs (nc_net S'))) x \<and> (nt_name x \<noteq> None \<longrightarrow> nc_refs S' u = 1)"
    if "nc_heap S' u = Some x" for u x
    using that inv_target(1,2) [OF inv] inv_target(1,2) [OF inv t] S' nt' N(2) by (cases "u = t") auto
  have "nd_refs (net_devs (nc_net S') ! d) = b ! d + users S' d" if "d < length b" for d
    using that N(2) N(3) [of d] users_update [OF S'(1,5) t l, of d] inv unfolding netcon_inv_def by simp
  then show ?thesis using inv S' N(1,2) d h unfolding netcon_inv_def by simp
qed

lemma inv_mutex: "netcon_inv b S \<Longrightarrow> netcon_inv b (S\<lparr>nc_mutex := False\<rparr>)"
  by (simp add: netcon_inv_def users_def tdev_def)

lemma inv_flags: "netcon_inv b S \<Longrightarrow> netcon_inv b (S\<lparr>nc_ext_console := e, nc_console := c, nc_notifier := n, nc_subsys := s\<rparr>)"
  by (simp add: netcon_inv_def users_def tdev_def)

lemma inv_unlocked: "netcon_inv b S \<Longrightarrow> \<not> nc_mutex S"
  by (simp add: netcon_inv_def)

lemma inv_net: "netcon_inv b S \<Longrightarrow> net_inv (nc_net S)"
  by (simp add: netcon_inv_def)

lemma inv_same_refs:
  assumes "netcon_inv b S" "net_inv N" "dev_refs N = dev_refs (nc_net S)"
  shows "netcon_inv b (S\<lparr>nc_net := N\<rparr>)"
proof -
  have l: "length (net_devs N) = length (net_devs (nc_net S))" using assms(3) by (metis length_map)
  have "nd_refs (net_devs N ! d) = nd_refs (net_devs (nc_net S) ! d)" if "d < length (net_devs N)" for d
    using that l assms(3) by (metis nth_map)
  then show ?thesis using assms(1,2) l by (simp add: netcon_inv_def users_def tdev_def)
qed

text \<open>The parameters are stored without touching what the invariant is about.\<close>

definition keeps_use :: "netconsole_target \<Rightarrow> netconsole_target \<Rightarrow> bool" where
  "keeps_use nt nt' \<longleftrightarrow> nt_name nt' = nt_name nt \<and> nt_enabled nt' = nt_enabled nt \<and> np_dev (nt_np nt') = np_dev (nt_np nt)"

lemma param_store_inv:
  assumes inv: "netcon_inv b S" and t: "nc_heap S t = Some nt"
    and f: "\<exists>rv nt'. f nt = Some (rv, nt') \<and> keeps_use nt nt'"
  shows "\<exists>rv S'. param_store t f S = Some (rv, S') \<and> netcon_inv b S'"
proof (cases "nt_enabled nt")
  case True
  then show ?thesis using t inv_unlocked [OF inv] inv_mutex [OF inv] by (simp add: param_store_def Let_def)
next
  case False
  obtain rv nt' where nt': "f nt = Some (rv, nt')" "keeps_use nt nt'" using f by blast
  have "netcon_inv b (S\<lparr>nc_heap := (nc_heap S)(t \<mapsto> nt'), nc_mutex := False\<rparr>)"
    by (rule inv_update [OF inv t, where nt' = nt']) (use nt' inv_net [OF inv] inv_target(1) [OF inv t] in \<open>auto simp: target_ok_def keeps_use_def\<close>)
  then show ?thesis using False t nt' inv_unlocked [OF inv] by (simp add: param_store_def Let_def)
qed

text \<open>A target lets go of its device.\<close>

definition detached :: "netconsole_target \<Rightarrow> netconsole_target" where
  "detached nt = nt\<lparr>nt_np := (nt_np nt)\<lparr>np_dev := None\<rparr>, nt_enabled := False\<rparr>"

lemma inv_detach:
  assumes inv: "netcon_inv b S" and t: "nc_heap S t = Some nt" and d: "np_dev (nt_np nt) = Some d"
    and S': "nc_list S' = nc_list S" "nc_next S' = nc_next S" "nc_refs S' = nc_refs S" "\<not> nc_mutex S'"
      "nc_heap S' = (nc_heap S)(t \<mapsto> detached nt)"
    and M: "net_inv (nc_net S')" "dev_refs (nc_net S') = (dev_refs (nc_net S))[d := dev_refs (nc_net S) ! d - 1]"
  shows "netcon_inv b S'"
proof (rule inv_update [OF inv t S' _ _ M(1)])
  show "length (net_devs (nc_net S')) = length (net_devs (nc_net S))" using M(2) by (metis length_list_update length_map)
  show "dev_refs (nc_net S') ! e = dev_refs (nc_net S) ! e - of_bool (np_dev (nt_np nt) = Some e)
      + of_bool (np_dev (nt_np (detached nt)) = Some e)" if "e < length (net_devs (nc_net S))" for e
    using that M(2) d by (auto simp: detached_def nth_list_update simp del: nth_map)
qed (simp_all add: detached_def target_ok_def)

lemma enabled_store_inv:
  assumes inv: "netcon_inv b S" and t: "nc_heap S t = Some nt" and E: "clock_runs (se_jiffies E)" "attach_ok E (nc_net S)"
  shows "\<exists>rv S'. enabled_store L E t buf count S = Some (rv, S') \<and> netcon_inv b S'"
proof -
  have m: "\<not> nc_mutex S" by (rule inv_unlocked [OF inv])
  note ok = inv_target [OF inv t]
  consider (err) e where "kstrtobool L buf = Inl e" | (same) "kstrtobool L buf = Inr (nt_enabled nt)"
    | (release) "kstrtobool L buf = Inr True" "\<not> nt_enabled nt" "nt_release nt \<and> \<not> nt_extended nt"
    | (start) "kstrtobool L buf = Inr True" "\<not> nt_enabled nt" "\<not> (nt_release nt \<and> \<not> nt_extended nt)"
    | (stop) "kstrtobool L buf = Inr False" "nt_enabled nt"
    by (cases "kstrtobool L buf") (metis (full_types))+
  then show ?thesis
  proof cases
    case start
    obtain err np N where s: "netpoll_setup E (nt_np nt) (nc_net S) = Some (err, np, N)"
      using setup_returns [OF E(1)] by blast
    note c = setup_contract [OF inv_net [OF inv] s]
    define nt' where "nt' = (if err = 0 then nt\<lparr>nt_np := np, nt_enabled := True\<rparr> else nt\<lparr>nt_np := np\<rparr>)"
    define S' where "S' = (if nt_extended nt \<and> \<not> nc_ext_console S then S\<lparr>nc_ext_console := True\<rparr> else S)\<lparr>nc_net := N,
      nc_heap := (nc_heap S)(t \<mapsto> nt'), nc_mutex := False\<rparr>"
    have dev: "np_dev (nt_np nt) = None" using ok(1) start(2) by (simp add: target_ok_def)
    have "netcon_inv b S'"
    proof (rule inv_update [OF inv t])
      show "target_ok (length (net_devs (nc_net S))) nt'" using c dev start(2) E(2) by (auto simp: target_ok_def nt'_def)
      show "dev_refs (nc_net S') ! d = dev_refs (nc_net S) ! d - of_bool (np_dev (nt_np nt) = Some d)
        + of_bool (np_dev (nt_np nt') = Some d)" if "d < length (net_devs (nc_net S))" for d
        using that c dev E(2) by (cases "err = 0") (auto simp: S'_def nt'_def nth_list_update simp del: nth_map)
    qed (use c in \<open>simp_all add: S'_def nt'_def\<close>)
    moreover have "enabled_store L E t buf count S = Some (if err \<noteq> 0 then err else strnlen buf count, S')"
      using start m t s by (auto simp: enabled_store_def Let_def S'_def nt'_def)
    ultimately show ?thesis by blast
  next
    case stop
    obtain d where d: "np_dev (nt_np nt) = Some d" "d < length (net_devs (nc_net S))"
      using ok(1) stop(2) by (auto simp: target_ok_def)
    obtain M where M: "netpoll_cleanup (nt_np nt) (nc_net S) = Some ((nt_np nt)\<lparr>np_dev := None\<rparr>, M)" "net_inv M"
      "dev_refs M = (dev_refs (nc_net S))[d := dev_refs (nc_net S) ! d - 1]"
      using cleanup_contract [OF inv_net [OF inv] d] by blast
    have "netcon_inv b (S\<lparr>nc_net := M, nc_heap := (nc_heap S)(t \<mapsto> detached nt), nc_mutex := False\<rparr>)"
      by (rule inv_detach [OF inv t d(1)]) (use M in simp_all)
    then show ?thesis using stop m t M(1) by (simp add: enabled_store_def detached_def Let_def)
  qed (use m t inv_mutex [OF inv] in \<open>simp_all add: enabled_store_def Let_def\<close>)
qed

text \<open>Taking and dropping a reference on a target leaves no trace.\<close>

lemma get_put:
  assumes "nc_heap S t = Some nt" "nt_name nt \<noteq> None \<Longrightarrow> nc_refs S t = 1" "nt_name nt' = nt_name nt"
  shows "netconsole_target_put t (netconsole_target_get t S) = S"
    "netconsole_target_put t ((netconsole_target_get t S)\<lparr>nc_heap := H(t \<mapsto> nt')\<rparr>) = S\<lparr>nc_heap := H(t \<mapsto> nt')\<rparr>"
    "netconsole_target_put t ((netconsole_target_get t S)\<lparr>nc_net := N, nc_heap := H(t \<mapsto> nt')\<rparr>)
      = S\<lparr>nc_net := N, nc_heap := H(t \<mapsto> nt')\<rparr>"
proof -
  have r: "nt_name nt = Some n \<Longrightarrow> (nc_refs S)(t := Suc 0) = nc_refs S \<and> nc_refs S t = Suc 0" for n
    using assms(2) by (simp add: fun_upd_idem)
  show "netconsole_target_put t (netconsole_target_get t S) = S"
    "netconsole_target_put t ((netconsole_target_get t S)\<lparr>nc_heap := H(t \<mapsto> nt')\<rparr>) = S\<lparr>nc_heap := H(t \<mapsto> nt')\<rparr>"
    "netconsole_target_put t ((netconsole_target_get t S)\<lparr>nc_net := N, nc_heap := H(t \<mapsto> nt')\<rparr>)
      = S\<lparr>nc_net := N, nc_heap := H(t \<mapsto> nt')\<rparr>"
    using assms(1,3) r
    by (cases "nt_name nt"; simp add: netconsole_target_get_def netconsole_target_put_def config_item_put_def)+
qed

text \<open>What the users of a device become when it goes away.\<close>

definition detach_users :: "nat \<Rightarrow> netcon \<Rightarrow> nat \<Rightarrow> netconsole_target option" where
  "detach_users dev S t = (if tdev S t = Some dev then map_option detached (nc_heap S t) else nc_heap S t)"

definition detaching :: "netdev_event \<Rightarrow> bool" where
  "detaching ev \<longleftrightarrow> ev \<in> {NETDEV_UNREGISTER, NETDEV_RELEASE, NETDEV_JOIN}"

lemma event_scan_detach:
  assumes "netcon_inv b S" "set ts \<subseteq> set (nc_list S)" "detaching ev"
    and "\<And>t. t \<in> set (nc_list S) \<Longrightarrow> tdev S t = Some dev \<Longrightarrow> t \<in> set ts"
  shows "\<exists>x S'. event_scan ev dev ts stopped S = Some (x, S') \<and> netcon_inv b S' \<and> nc_heap S' = detach_users dev S
    \<and> nc_list S' = nc_list S"
  using assms
proof (induction ev dev ts stopped S rule: event_scan.induct)
  case (1 ev dev stopped S)
  then have "detach_users dev S = nc_heap S" using tdev_listed [OF "1.prems"(1)] by (auto simp: detach_users_def fun_eq_iff)
  then show ?case using 1 by simp
next
  case (2 ev dev t ts stopped S)
  obtain nt where nt: "nc_heap S t = Some nt" using inv_listed [OF "2.prems"(1), of t] "2.prems"(2) by auto
  note ok = inv_target [OF "2.prems"(1) nt]
  have ev: "ev \<noteq> NETDEV_CHANGENAME" using "2.prems"(3) by (auto simp: detaching_def)
  show ?case
  proof (cases "np_dev (nt_np nt) = Some dev")
    case False
    then have "\<And>u. u \<in> set (nc_list S) \<Longrightarrow> tdev S u = Some dev \<Longrightarrow> u \<in> set ts"
      using "2.prems"(4) nt by (force simp: tdev_def)
    then show ?thesis using False "2.IH"(1) [OF nt False] "2.prems"(1-3) nt get_put(1) [OF nt ok(2) refl] by simp
  next
    case True
    have dl: "dev < length (net_devs (nc_net S))" using ok(1) True by (simp add: target_ok_def)
    obtain M where M: "netpoll_cleanup_dev (nt_np nt) (nc_net S) = Some M" "net_inv M" "dev_refs M = dev_refs (nc_net S)"
      using cleanup_dev_contract [OF inv_net [OF "2.prems"(1)] True dl] by blast
    define S1 where "S1 = S\<lparr>nc_net := dev_update dev (nd_refs_update (\<lambda>r. r - 1)) M, nc_heap := (nc_heap S)(t \<mapsto> detached nt)\<rparr>"
    have put: "netconsole_target_put t ((netconsole_target_get t S)\<lparr>nc_net := dev_update dev (nd_refs_update (\<lambda>r. r - 1)) M,
        nc_heap := (nc_heap S)(t \<mapsto> detached nt)\<rparr>) = S1"
      unfolding S1_def by (rule get_put(3) [OF nt ok(2)]) (simp_all add: detached_def)
    have Ml: "dev < length (net_devs M)" using M(3) dl by (metis length_map)
    then have "nd_refs (net_devs M ! dev) = nd_refs (net_devs (nc_net S) ! dev)" using M(3) dl by (metis nth_map)
    then have inv1: "netcon_inv b S1"
      using M Ml dl inv_unlocked [OF "2.prems"(1)]
      by (intro inv_detach [OF "2.prems"(1) nt True])
        (simp_all add: S1_def refs_update net_inv_def npinfo_refs_update)
    have "\<exists>x S'. event_scan ev dev (nc_list S1) True S1 = Some (x, S') \<and> netcon_inv b S'
        \<and> nc_heap S' = detach_users dev S1 \<and> nc_list S' = nc_list S1"
      using "2.IH"(3) [OF nt _ ev refl _ refl, of M] True M(1) put inv1 "2.prems"(3)
      by (simp add: detached_def S1_def [THEN arg_cong, of nc_list])
    moreover have "detach_users dev S1 = detach_users dev S"
      using nt True by (auto simp: detach_users_def S1_def tdev_def detached_def fun_eq_iff)
    moreover have "event_scan ev dev (t # ts) stopped S = event_scan ev dev (nc_list S1) True S1"
      using nt True ev M(1) put by (simp add: detached_def)
    ultimately show ?thesis by (simp add: S1_def)
  qed
qed

text \<open>A renamed device keeps its users.\<close>

lemma event_scan_rename:
  assumes "netcon_inv b S" "set ts \<subseteq> set (nc_list S)"
  shows "\<exists>x S'. event_scan NETDEV_CHANGENAME dev ts stopped S = Some (x, S') \<and> netcon_inv b S' \<and> nc_list S' = nc_list S"
  using assms
proof (induction ts arbitrary: S)
  case (Cons t ts)
  obtain nt where nt: "nc_heap S t = Some nt" using inv_listed [OF Cons.prems(1), of t] Cons.prems(2) by auto
  note ok = inv_target [OF Cons.prems(1) nt]
  show ?case
  proof (cases "np_dev (nt_np nt) = Some dev")
    case False
    then show ?thesis using Cons nt get_put(1) [OF nt ok(2) refl] by simp
  next
    case True
    define nt' where "nt' = nt\<lparr>nt_np := (nt_np nt)\<lparr>np_dev_name := strscpy (nd_name (net_devs (nc_net S) ! dev)) IFNAMSIZ\<rparr>\<rparr>"
    have "netcon_inv b (S\<lparr>nc_heap := (nc_heap S)(t \<mapsto> nt')\<rparr>)"
      by (rule inv_update [OF Cons.prems(1) nt, where nt' = nt'])
        (use ok(1) inv_net [OF Cons.prems(1)] inv_unlocked [OF Cons.prems(1)] in \<open>auto simp: nt'_def target_ok_def\<close>)
    then show ?thesis
      using Cons.IH [of "S\<lparr>nc_heap := (nc_heap S)(t \<mapsto> nt')\<rparr>"] Cons.prems(2) nt True
        get_put(2) [OF nt ok(2), of nt' "nc_heap S"] by (simp add: nt'_def)
  qed
qed simp

lemma event_inv:
  assumes "netcon_inv b S"
  shows "\<exists>S'. netconsole_netdev_event ev dev S = Some S' \<and> netcon_inv b S' \<and> nc_list S' = nc_list S
    \<and> (detaching ev \<longrightarrow> nc_heap S' = detach_users dev S)"
proof (cases ev)
  case NETDEV_CHANGENAME
  then show ?thesis using event_scan_rename [OF assms order_refl, of dev False]
    by (auto simp: netconsole_netdev_event_def detaching_def)
next
  case NETDEV_OTHER
  then show ?thesis using assms by (simp add: netconsole_netdev_event_def detaching_def)
qed (use event_scan_detach [OF assms order_refl, of ev dev False] in \<open>auto simp: netconsole_netdev_event_def detaching_def\<close>)

text \<open>Targets come and go.\<close>

lemma inv_add:
  assumes inv: "netcon_inv b S" and t: "t = nc_next S" and nt: "target_ok (length (net_devs (nc_net S))) nt"
    and S': "nc_list S' = t # nc_list S" "nc_next S' = t + 1" "nc_heap S' = (nc_heap S)(t \<mapsto> nt)"
      "nc_refs S' = (if nt_name nt = None then nc_refs S else (nc_refs S)(t := 1))" "\<not> nc_mutex S'"
    and N: "net_inv (nc_net S')" "length (net_devs (nc_net S')) = length (net_devs (nc_net S))"
      "\<And>d. d < length (net_devs (nc_net S)) \<Longrightarrow> dev_refs (nc_net S') ! d = dev_refs (nc_net S) ! d
        + of_bool (np_dev (nt_np nt) = Some d)"
  shows "netcon_inv b S'"
proof -
  have new: "t \<notin> set (nc_list S)" using inv t unfolding netcon_inv_def by blast
  then have old: "nc_heap S t = None" using inv unfolding netcon_inv_def by blast
  have "(\<Sum>x \<in> set (nc_list S). of_bool (tdev S' x = Some d)) = users S d" for d
    unfolding users_def by (rule sum.cong) (use new S'(3) in \<open>auto simp: tdev_def\<close>)
  then have "users S' d = of_bool (np_dev (nt_np nt) = Some d) + users S d" for d
    using new S' by (simp add: users_def tdev_def del: sum_of_bool_eq)
  then have refs: "nd_refs (net_devs (nc_net S') ! d) = b ! d + users S' d" if "d < length b" for d
    using that N(2) N(3) [of d] inv unfolding netcon_inv_def by simp
  have h: "target_ok (length (net_devs (nc_net S'))) x \<and> (nt_name x \<noteq> None \<longrightarrow> nc_refs S' u = 1)"
    if "nc_heap S' u = Some x" for u x
    using that inv_target(1,2) [OF inv, of u x] S' nt N(2) by (cases "u = t") (auto split: if_splits)
  have "dom (nc_heap S') = set (nc_list S')" "\<forall>u \<in> set (nc_list S'). u < nc_next S'" "distinct (nc_list S')"
    using inv S' new t unfolding netcon_inv_def by auto
  then show ?thesis using inv S'(5) N(1,2) h refs unfolding netcon_inv_def by simp
qed

lemma inv_del:
  assumes inv: "netcon_inv b S" and t: "nc_heap S t = Some nt"
    and S': "nc_list S' = remove1 t (nc_list S)" "nc_next S' = nc_next S" "nc_heap S' = (nc_heap S)(t := None)"
      "\<And>u. u \<noteq> t \<Longrightarrow> nc_refs S' u = nc_refs S u" "\<not> nc_mutex S'"
    and N: "net_inv (nc_net S')" "length (net_devs (nc_net S')) = length (net_devs (nc_net S))"
      "\<And>d. d < length (net_devs (nc_net S)) \<Longrightarrow> dev_refs (nc_net S') ! d = dev_refs (nc_net S) ! d
        - of_bool (np_dev (nt_np nt) = Some d)"
  shows "netcon_inv b S'"
proof -
  have l: "t \<in> set (nc_list S)" "distinct (nc_list S)" using inv_target(3) [OF inv t] inv by (auto simp: netcon_inv_def)
  have set': "set (nc_list S') = set (nc_list S) - {t}" using l(2) S'(1) by simp
  have "(\<Sum>x \<in> set (nc_list S) - {t}. of_bool (tdev S' x = Some d)) = (\<Sum>x \<in> set (nc_list S) - {t}. of_bool (tdev S x = Some d) :: int)" for d
    by (rule sum.cong) (use S'(3) in \<open>auto simp: tdev_def\<close>)
  moreover have "tdev S t = np_dev (nt_np nt)" using t by (simp add: tdev_def)
  ultimately have "users S' d = users S d - of_bool (np_dev (nt_np nt) = Some d)" for d
    unfolding users_def set' sum.remove [OF finite_set l(1)] by (simp del: sum_of_bool_eq)
  then have refs: "nd_refs (net_devs (nc_net S') ! d) = b ! d + users S' d" if "d < length b" for d
    using that N(2) N(3) [of d] inv unfolding netcon_inv_def by simp
  have h: "target_ok (length (net_devs (nc_net S'))) x \<and> (nt_name x \<noteq> None \<longrightarrow> nc_refs S' u = 1)"
    if "nc_heap S' u = Some x" for u x
    using that inv_target(1,2) [OF inv, of u x] S' N(2) by (cases "u = t") auto
  have "dom (nc_heap S') = set (nc_list S')" "\<forall>u \<in> set (nc_list S'). u < nc_next S'" "distinct (nc_list S')"
    using inv S' set' unfolding netcon_inv_def by auto
  then show ?thesis using inv S'(5) N(1,2) h refs unfolding netcon_inv_def by simp
qed

lemma make_inv:
  assumes inv: "netcon_inv b S"
  shows "netcon_inv b (snd (make_netconsole_target cfg alloc name S))"
proof (cases alloc)
  case True
  define nt where "nt = (alloc_and_init cfg)\<lparr>nt_name := Some name\<rparr>"
  have "netcon_inv b (S\<lparr>nc_next := nc_next S + 1, nc_heap := (nc_heap S)(nc_next S \<mapsto> nt),
      nc_refs := (nc_refs S)(nc_next S := 1), nc_list := nc_next S # nc_list S\<rparr>)"
    by (rule inv_add [OF inv refl, of nt])
      (use inv_net [OF inv] inv_unlocked [OF inv] in \<open>simp_all add: nt_def alloc_and_init_def target_ok_def\<close>)
  then show ?thesis using True by (simp add: make_netconsole_target_def nt_def Let_def)
qed (simp add: make_netconsole_target_def inv)

text \<open>\<open>netpoll_cleanup\<close> of any target drops the reference it holds, if it holds one.\<close>

lemma cleanup_target:
  assumes inv: "net_inv N" and ok: "target_ok (length (net_devs N)) nt"
  shows "\<exists>np M. netpoll_cleanup (nt_np nt) N = Some (np, M) \<and> net_inv M \<and> length (net_devs M) = length (net_devs N)
    \<and> (\<forall>d < length (net_devs N). dev_refs M ! d = dev_refs N ! d - of_bool (np_dev (nt_np nt) = Some d))"
  using netdevs.detach_refs [OF inv, of "nt_np nt"] ok unfolding target_ok_def length_map by blast

lemma drop_inv:
  assumes inv: "netcon_inv b S" and t: "nc_heap S t = Some nt" "nt_name nt \<noteq> None"
  shows "\<exists>S'. drop_netconsole_target t S = Some S' \<and> netcon_inv b S'"
proof -
  note ok = inv_target [OF inv t(1)]
  obtain np M where M: "netpoll_cleanup (nt_np nt) (nc_net S) = Some (np, M)" "net_inv M"
    "length (net_devs M) = length (net_devs (nc_net S))"
    "\<And>d. d < length (net_devs (nc_net S)) \<Longrightarrow> dev_refs M ! d = dev_refs (nc_net S) ! d - of_bool (np_dev (nt_np nt) = Some d)"
    using cleanup_target [OF inv_net [OF inv] ok(1)] by blast
  define S' where "S' = S\<lparr>nc_list := remove1 t (nc_list S), nc_net := (if nt_enabled nt then M else nc_net S),
    nc_refs := (nc_refs S)(t := 0), nc_heap := (nc_heap S)(t := None)\<rparr>"
  have "netcon_inv b S'"
    by (rule inv_del [OF inv t(1)])
      (use M ok(1) inv_net [OF inv] inv_unlocked [OF inv] in \<open>auto simp: S'_def target_ok_def simp del: nth_map\<close>)
  moreover have "drop_netconsole_target t S = Some S'"
    using t ok(2) M(1) by (auto simp: drop_netconsole_target_def config_item_put_def S'_def Let_def)
  ultimately show ?thesis by blast
qed

lemma free_targets_inv:
  assumes "netcon_inv b S" "nc_list S = ts"
  shows "\<exists>S'. free_targets ts S = Some S' \<and> netcon_inv b S' \<and> nc_list S' = [] \<and> nc_ext_console S' = nc_ext_console S
    \<and> nc_console S' = nc_console S \<and> nc_notifier S' = nc_notifier S \<and> nc_subsys S' = nc_subsys S"
  using assms
proof (induction ts arbitrary: S)
  case (Cons t ts)
  obtain nt where t: "nc_heap S t = Some nt" using inv_listed [OF Cons.prems(1), of t] Cons.prems(2) by auto
  obtain np M where M: "netpoll_cleanup (nt_np nt) (nc_net S) = Some (np, M)" "net_inv M"
    "length (net_devs M) = length (net_devs (nc_net S))"
    "\<And>d. d < length (net_devs (nc_net S)) \<Longrightarrow> dev_refs M ! d = dev_refs (nc_net S) ! d - of_bool (np_dev (nt_np nt) = Some d)"
    using cleanup_target [OF inv_net [OF Cons.prems(1)] inv_target(1) [OF Cons.prems(1) t]] by blast
  define S1 where "S1 = S\<lparr>nc_list := remove1 t (nc_list S), nc_net := M, nc_heap := (nc_heap S)(t := None)\<rparr>"
  have "netcon_inv b S1"
    by (rule inv_del [OF Cons.prems(1) t]) (use M inv_unlocked [OF Cons.prems(1)] in \<open>simp_all add: S1_def del: nth_map\<close>)
  moreover have "free_param_target t (S\<lparr>nc_list := remove1 t (nc_list S)\<rparr>) = Some S1"
    using t M(1) by (simp add: free_param_target_def S1_def)
  moreover have "nc_list S1 = ts" using Cons.prems(2) by (simp add: S1_def)
  ultimately show ?case using Cons.IH [of S1] Cons.prems(2) by (simp add: S1_def)
qed simp

text \<open>A target from the option string is enabled and holds one reference; an error holds none.\<close>

lemma alloc_param_contract:
  assumes inv: "net_inv N" and E: "clock_runs (se_jiffies E)"
  shows "\<exists>r M. alloc_param_target cfg L E alloc w N = Some (r, M) \<and> net_inv M \<and> length (net_devs M) = length (net_devs N)
    \<and> (case r of Inl err \<Rightarrow> err \<noteq> 0 \<and> dev_refs M = dev_refs N
       | Inr nt \<Rightarrow> nt_name nt = None \<and> nt_enabled nt \<and> target_ok (length (net_devs N)) nt
           \<and> (\<forall>d < length (net_devs N). dev_refs M ! d = dev_refs N ! d + of_bool (np_dev (nt_np nt) = Some d)))"
proof -
  have s: "\<exists>err np' M. netpoll_setup E np N = Some (err, np', M) \<and> net_inv M \<and> length (net_devs M) = length (net_devs N)
      \<and> (err \<noteq> 0 \<longrightarrow> dev_refs M = dev_refs N) \<and> (err = 0 \<longrightarrow> (\<exists>d < length (net_devs N). np_dev np' = Some d
          \<and> (\<forall>e < length (net_devs N). dev_refs M ! e = dev_refs N ! e + of_bool (np_dev np' = Some e))))" for np
  proof -
    obtain err np' M where "netpoll_setup E np N = Some (err, np', M)" using setup_returns [OF E] by blast
    then show ?thesis using netdevs.attach_refs [OF inv] netdevs.attach_fail [OF inv] unfolding length_map
      by (intro exI [of _ err] exI [of _ np'] exI [of _ M]) (cases "err = 0"; fastforce simp del: nth_map)
  qed
  have tail: ?thesis if "alloc_param_target cfg L E alloc w N = (case netpoll_setup E np N of None \<Rightarrow> None
      | Some (err, np, M) \<Rightarrow> if err \<noteq> 0 then Some (Inl err, M) else Some (Inr (nt\<lparr>nt_np := np, nt_enabled := True\<rparr>), M))"
    and "nt_name nt = None" for np nt
    using that s [of np] by (fastforce simp: target_ok_def)
  have flags: "case target_flags cfg w of Inl err \<Rightarrow> err \<noteq> 0 | Inr (nt, s) \<Rightarrow> nt_name nt = None"
    by (simp add: target_flags_def alloc_and_init_def Let_def)
  show ?thesis
  proof (cases "\<not> alloc \<or> (\<exists>e. target_flags cfg w = Inl e)")
    case True
    then show ?thesis using inv flags by (auto simp: alloc_param_target_def)
  next
    case False
    then obtain nt s1 where w: "target_flags cfg w = Inr (nt, s1)" "alloc" by (cases "target_flags cfg w") auto
    obtain err np where p: "netpoll_parse_options L (nt_np nt) s1 = (err, np)" by (cases "netpoll_parse_options L (nt_np nt) s1")
    show ?thesis
    proof (cases "err = 0")
      case True
      then show ?thesis by (intro tail [of nt np]) (use w p flags in \<open>simp_all add: alloc_param_target_def\<close>)
    qed (use w p inv in \<open>simp add: alloc_param_target_def\<close>)
  qed
qed

text \<open>The part of the state that says what is registered with the kernel.\<close>

definition same_regs :: "netcon \<Rightarrow> netcon \<Rightarrow> bool" where
  "same_regs S S' \<longleftrightarrow> nc_ext_console S' = nc_ext_console S \<and> nc_console S' = nc_console S
     \<and> nc_notifier S' = nc_notifier S \<and> nc_subsys S' = nc_subsys S"

lemma init_targets_inv:
  assumes "netcon_inv b S" "\<And>k. clock_runs (se_jiffies (ie_setup I k))"
    and "\<forall>t nt. nc_heap S t = Some nt \<longrightarrow> nt_enabled nt"
  shows "\<exists>err e S'. init_targets cfg L I k ws extended S = Some (err, e, S') \<and> netcon_inv b S' \<and> same_regs S S'
    \<and> (\<forall>t nt. nc_heap S' t = Some nt \<longrightarrow> nt_enabled nt)
    \<and> (err = 0 \<longrightarrow> length (nc_list S') = length (nc_list S) + length ws)"
  using assms
proof (induction ws arbitrary: k extended S)
  case (Cons w ws)
  obtain r N where a: "alloc_param_target cfg L (ie_setup I k) (ie_alloc I k) w (nc_net S) = Some (r, N)" "net_inv N"
    "length (net_devs N) = length (net_devs (nc_net S))"
    "case r of Inl err \<Rightarrow> err \<noteq> 0 \<and> dev_refs N = dev_refs (nc_net S)
       | Inr nt \<Rightarrow> nt_name nt = None \<and> nt_enabled nt \<and> target_ok (length (net_devs (nc_net S))) nt
           \<and> (\<forall>d < length (net_devs (nc_net S)). dev_refs N ! d = dev_refs (nc_net S) ! d + of_bool (np_dev (nt_np nt) = Some d))"
    using alloc_param_contract [OF inv_net [OF Cons.prems(1)] Cons.prems(2)] by blast
  show ?case
  proof (cases r)
    case (Inl err)
    then have "netcon_inv b (S\<lparr>nc_net := N\<rparr>)" using a(2,4) inv_same_refs [OF Cons.prems(1)] by simp
    then show ?thesis using Inl a(1,4) Cons.prems(3) by (simp add: same_regs_def)
  next
    case (Inr nt)
    define S1 where "S1 = S\<lparr>nc_net := N, nc_next := nc_next S + 1, nc_heap := (nc_heap S)(nc_next S \<mapsto> nt),
      nc_ext_printbuffer := (nc_ext_printbuffer S \<or> nt_extended nt), nc_printbuffer := (nc_printbuffer S \<or> \<not> nt_extended nt),
      nc_list := nc_next S # nc_list S\<rparr>"
    have "netcon_inv b S1"
      by (rule inv_add [OF Cons.prems(1) refl, of nt])
        (use a(2-4) Inr inv_unlocked [OF Cons.prems(1)] in \<open>simp_all add: S1_def del: nth_map\<close>)
    moreover have "\<forall>t nt. nc_heap S1 t = Some nt \<longrightarrow> nt_enabled nt" using Cons.prems(3) a(4) Inr by (simp add: S1_def)
    ultimately show ?thesis
      using Cons.IH [of S1 "k + 1" "extended \<or> nt_extended nt"] Cons.prems(2) a(1) Inr
      by (simp add: S1_def same_regs_def Let_def)
  qed
qed (simp add: same_regs_def)

section \<open>The operations as a transition system\<close>

text \<open>Everything that happens to the targets of a loaded module.\<close>

datatype netcon_op =
    Store_enabled setup_env nat string nat
  | Store_release nat string nat
  | Store_extended nat string nat
  | Store_dev_name nat string nat
  | Store_local_port nat string nat
  | Store_remote_port nat string nat
  | Store_local_ip nat string nat
  | Store_remote_ip nat string nat
  | Store_remote_mac nat string nat
  | Make_target bool string
  | Drop_target nat
  | Netdev_event netdev_event nat

fun nc_exec :: "netcon_cfg \<Rightarrow> net_lib \<Rightarrow> netcon_op \<Rightarrow> netcon \<Rightarrow> (int \<times> netcon) option" where
  "nc_exec cfg L (Store_enabled E t buf n) S = enabled_store L E t buf n S"
| "nc_exec cfg L (Store_release t buf n) S = release_store L t buf n S"
| "nc_exec cfg L (Store_extended t buf n) S = extended_store L t buf n S"
| "nc_exec cfg L (Store_dev_name t buf n) S = dev_name_store t buf n S"
| "nc_exec cfg L (Store_local_port t buf n) S = local_port_store L t buf n S"
| "nc_exec cfg L (Store_remote_port t buf n) S = remote_port_store L t buf n S"
| "nc_exec cfg L (Store_local_ip t buf n) S = local_ip_store L t buf n S"
| "nc_exec cfg L (Store_remote_ip t buf n) S = remote_ip_store L t buf n S"
| "nc_exec cfg L (Store_remote_mac t buf n) S = remote_mac_store L t buf n S"
| "nc_exec cfg L (Make_target alloc name) S = Some (make_netconsole_target cfg alloc name S)"
| "nc_exec cfg L (Drop_target t) S = map_option (Pair 0) (drop_netconsole_target t S)"
| "nc_exec cfg L (Netdev_event ev dev) S = map_option (Pair 0) (netconsole_netdev_event ev dev S)"

text \<open>
  What configfs and the kernel guarantee: an attribute or a removal is for an existing target, a removed target was
  made through configfs; and for the cases the code does not handle: a name that is not empty, and an
  attachment that does not fail late.
\<close>

fun op_ok :: "netcon_op \<Rightarrow> netcon \<Rightarrow> bool" where
  "op_ok (Store_enabled E t buf n) S \<longleftrightarrow> nc_heap S t \<noteq> None \<and> clock_runs (se_jiffies E) \<and> attach_ok E (nc_net S)"
| "op_ok (Store_dev_name t buf n) S \<longleftrightarrow> nc_heap S t \<noteq> None \<and> buf \<noteq> []"
| "op_ok (Store_release t buf n) S \<longleftrightarrow> nc_heap S t \<noteq> None"
| "op_ok (Store_extended t buf n) S \<longleftrightarrow> nc_heap S t \<noteq> None"
| "op_ok (Store_local_port t buf n) S \<longleftrightarrow> nc_heap S t \<noteq> None"
| "op_ok (Store_remote_port t buf n) S \<longleftrightarrow> nc_heap S t \<noteq> None"
| "op_ok (Store_local_ip t buf n) S \<longleftrightarrow> nc_heap S t \<noteq> None"
| "op_ok (Store_remote_ip t buf n) S \<longleftrightarrow> nc_heap S t \<noteq> None"
| "op_ok (Store_remote_mac t buf n) S \<longleftrightarrow> nc_heap S t \<noteq> None"
| "op_ok (Make_target alloc name) S \<longleftrightarrow> True"
| "op_ok (Drop_target t) S \<longleftrightarrow> (\<exists>nt. nc_heap S t = Some nt \<and> nt_name nt \<noteq> None)"
| "op_ok (Netdev_event ev dev) S \<longleftrightarrow> True"

lemma strscpy_name: "buf \<noteq> [] \<Longrightarrow> strscpy buf IFNAMSIZ \<noteq> []"
  by (cases buf) (simp_all add: strscpy_def IFNAMSIZ_def)

lemmas store_defs = release_store_def extended_store_def dev_name_store_def local_port_store_def remote_port_store_def
  local_ip_store_def remote_ip_store_def remote_mac_store_def

lemma exec_inv:
  assumes inv: "netcon_inv b S" and ok: "op_ok op S"
  shows "\<exists>rv S'. nc_exec cfg L op S = Some (rv, S') \<and> netcon_inv b S'"
proof (cases op)
  case (Store_enabled E t buf n)
  then show ?thesis using enabled_store_inv [OF inv] ok by auto
next
  case (Make_target alloc name)
  then show ?thesis using make_inv [OF inv, of cfg alloc name] by (cases "make_netconsole_target cfg alloc name S") simp
next
  case (Drop_target t)
  then show ?thesis using drop_inv [OF inv] ok by fastforce
next
  case (Netdev_event ev dev)
  then show ?thesis using event_inv [OF inv, of ev dev] by auto
next
  case (Store_dev_name t buf n)
  then show ?thesis using ok strscpy_name [of buf]
    by (auto simp: store_defs keeps_use_def Let_def intro!: param_store_inv [OF inv])
qed (use ok in \<open>auto simp: store_defs keeps_use_def split: sum.split option.split prod.split intro!: param_store_inv [OF inv]\<close>)

definition nc_step :: "netcon_cfg \<Rightarrow> net_lib \<Rightarrow> netcon \<Rightarrow> netcon \<Rightarrow> bool" where
  "nc_step cfg L S S' \<longleftrightarrow> (\<exists>op rv. op_ok op S \<and> nc_exec cfg L op S = Some (rv, S'))"

text \<open>The module before it is loaded, and the states a successful load can lead to.\<close>

definition netcon_boot :: "netcon \<Rightarrow> bool" where
  "netcon_boot S \<longleftrightarrow> net_inv (nc_net S) \<and> nc_list S = [] \<and> nc_heap S = (\<lambda>_. None) \<and> \<not> nc_mutex S
     \<and> \<not> nc_ext_console S \<and> \<not> nc_console S \<and> \<not> nc_notifier S \<and> \<not> nc_subsys S"

definition loads_from :: "netcon_cfg \<Rightarrow> net_lib \<Rightarrow> netcon \<Rightarrow> netcon \<Rightarrow> bool" where
  "loads_from cfg L S0 S \<longleftrightarrow> (\<exists>I config. (\<forall>k. clock_runs (se_jiffies (ie_setup I k)))
     \<and> init_netconsole cfg L I config S0 = Some (0, S))"

lemma boot_inv: "netcon_boot S \<Longrightarrow> netcon_inv (dev_refs (nc_net S)) S"
  by (simp add: netcon_boot_def netcon_inv_def users_def dom_def)

text \<open>A state without targets holds nothing.\<close>

lemma inv_empty:
  assumes "netcon_inv b S" "nc_list S = []"
  shows "nc_heap S = (\<lambda>_. None)" "dev_refs (nc_net S) = b"
proof -
  show "nc_heap S = (\<lambda>_. None)" using assms by (auto simp: netcon_inv_def dom_def fun_eq_iff)
  show "dev_refs (nc_net S) = b" by (rule nth_equalityI) (use assms in \<open>auto simp: netcon_inv_def users_def\<close>)
qed

lemma init_result:
  assumes boot: "netcon_boot S" and clock: "\<And>k. clock_runs (se_jiffies (ie_setup I k))"
  shows "\<exists>err S'. init_netconsole cfg L I config S = Some (err, S') \<and> netcon_inv (dev_refs (nc_net S)) S'
    \<and> (if err = 0 then nc_console S' \<and> nc_notifier S' \<and> nc_subsys S' = cf_dynamic cfg
         \<and> length (nc_list S') = (if config = [] then 0 else length (strsep_all (CHR '';'') config))
         \<and> (\<forall>t nt. nc_heap S' t = Some nt \<longrightarrow> nt_enabled nt)
       else nc_list S' = [] \<and> same_regs S S')"
proof -
  let ?b = "dev_refs (nc_net S)"
  have heap: "\<forall>t nt. nc_heap S t = Some nt \<longrightarrow> nt_enabled nt" using boot by (simp add: netcon_boot_def)
  obtain err e S1 where i: "(if config \<noteq> [] then init_targets cfg L I 0 (strsep_all (CHR '';'') config) False S
      else Some (0, False, S)) = Some (err, e, S1)" "netcon_inv ?b S1" "same_regs S S1" "\<forall>t nt. nc_heap S1 t = Some nt \<longrightarrow> nt_enabled nt"
    "err = 0 \<Longrightarrow> length (nc_list S1) = (if config = [] then 0 else length (strsep_all (CHR '';'') config))"
    using init_targets_inv [OF boot_inv [OF boot] clock heap, of cfg L 0 "strsep_all (CHR '';'') config" False] boot boot_inv [OF boot]
    by (cases "config = []") (auto simp: same_regs_def netcon_boot_def)
  have undo: "\<exists>S'. free_targets (nc_list S2) S2 = Some S' \<and> netcon_inv ?b S' \<and> nc_list S' = [] \<and> same_regs S S'"
    if "netcon_inv ?b S2" "same_regs S S2" for S2
    using free_targets_inv [OF that(1) refl] that(2) by (auto simp: same_regs_def)
  define S2 where "S2 = S1\<lparr>nc_notifier := True\<rparr>"
  have flags: "netcon_inv ?b (S1\<lparr>nc_notifier := n\<rparr>)" "netcon_inv ?b (S1\<lparr>nc_notifier := n, nc_subsys := v\<rparr>)"
    "netcon_inv ?b (S1\<lparr>nc_notifier := n, nc_ext_console := x, nc_console := c\<rparr>)"
    "netcon_inv ?b (S1\<lparr>nc_notifier := n, nc_subsys := v, nc_ext_console := x, nc_console := c\<rparr>)" for n v x c
    using i(2) by (simp_all add: netcon_inv_def users_def tdev_def)
  have off: "\<not> nc_notifier S1" "\<not> nc_subsys S1" using i(3) boot by (simp_all add: same_regs_def netcon_boot_def)
  consider "err \<noteq> 0" | "err = 0" "ie_notifier I \<noteq> 0" | "err = 0" "ie_notifier I = 0" "cf_dynamic cfg" "ie_subsys I \<noteq> 0"
    | "err = 0" "ie_notifier I = 0" "cf_dynamic cfg \<Longrightarrow> ie_subsys I = 0" by blast
  then show ?thesis
  proof cases
    case 1
    then show ?thesis using i undo [OF i(2,3)] by (auto simp: init_netconsole_def)
  next
    case 2
    then show ?thesis using i undo [OF i(2,3)] by (auto simp: init_netconsole_def)
  next
    case 3
    have "same_regs S (S1\<lparr>nc_notifier := False\<rparr>)" using i(3) off by (simp add: same_regs_def)
    then show ?thesis using 3 i(1) undo [OF flags(1)] by (auto simp: init_netconsole_def dynamic_netconsole_init_def)
  next
    case 4
    define S3 where "S3 = (if cf_dynamic cfg then S1\<lparr>nc_notifier := True, nc_subsys := True\<rparr> else S1\<lparr>nc_notifier := True\<rparr>)
      \<lparr>nc_ext_console := (nc_ext_console S1 \<or> e), nc_console := True\<rparr>"
    have "init_netconsole cfg L I config S = Some (0, S3)"
      unfolding init_netconsole_def i(1) using 4 by (simp add: dynamic_netconsole_init_def S3_def)
    then show ?thesis using i(4,5) 4(1) off flags(3,4) by (simp add: S3_def)
  qed
qed

interpretation targets: invariant_system "\<lambda>S. netcon_boot S0 \<and> loads_from cfg L S0 S" "nc_step cfg L" "netcon_inv (dev_refs (nc_net S0))"
  for cfg L S0
proof unfold_locales
  show "netcon_inv (dev_refs (nc_net S0)) S" if "netcon_boot S0 \<and> loads_from cfg L S0 S" for S
    using that init_result [of S0] unfolding loads_from_def by (metis option.inject prod.inject)
  show "netcon_inv (dev_refs (nc_net S0)) S'" if "netcon_inv (dev_refs (nc_net S0)) S" "nc_step cfg L S S'" for S S'
    using that(2) exec_inv [OF that(1), of _ cfg L] unfolding nc_step_def by (metis option.inject prod.inject)
qed

section \<open>Properties\<close>



lemma users_detach:
  assumes "netcon_inv b S" "nc_list S' = nc_list S" "nc_heap S' = detach_users dev S"
  shows "users S' d = (if d = dev then 0 else users S d)"
proof -
  have "tdev S' t = (if tdev S t = Some dev then None else tdev S t)" for t
    using assms(3) by (cases "nc_heap S t") (auto simp: tdev_def detach_users_def detached_def)
  then have "(\<Sum>t \<in> set (nc_list S). of_bool (tdev S' t = Some d) :: int)
      = (\<Sum>t \<in> set (nc_list S). if d = dev then 0 else of_bool (tdev S t = Some d))"
    by (intro sum.cong) auto
  then show ?thesis by (simp add: users_def assms(2) del: sum_of_bool_eq)
qed

text \<open>
  C19: a device that goes away is let go by all its targets. The walk of \<open>netconsole_netdev_event\<close>, which
  starts again after every target it detaches, ends and equals the one-pass update that detaches and disables each
  target of the device and leaves the others alone; the device loses exactly the references of those targets.\<close>

theorem netdev_event_detaches:
  assumes "netcon_inv b S" "detaching ev"
  shows "\<exists>S'. netconsole_netdev_event ev dev S = Some S' \<and> nc_list S' = nc_list S
    \<and> nc_heap S' = (\<lambda>t. if tdev S t = Some dev then map_option detached (nc_heap S t) else nc_heap S t)
    \<and> (\<forall>d < length (net_devs (nc_net S)). nd_refs (net_devs (nc_net S') ! d)
         = nd_refs (net_devs (nc_net S) ! d) - (if d = dev then users S dev else 0))"
proof -
  obtain S' where S': "netconsole_netdev_event ev dev S = Some S'" "netcon_inv b S'" "nc_list S' = nc_list S"
    "nc_heap S' = detach_users dev S" using event_inv [OF assms(1), of ev dev] assms(2) by blast
  have "nd_refs (net_devs (nc_net S') ! d) = nd_refs (net_devs (nc_net S) ! d) - (if d = dev then users S dev else 0)"
    if "d < length (net_devs (nc_net S))" for d
    using that S'(2) assms(1) users_detach [OF assms(1) S'(3,4), of d] unfolding netcon_inv_def by simp
  then show ?thesis using S' by (simp add: detach_users_def fun_eq_iff)
qed

section \<open>Witnesses\<close>

definition boot_state :: netcon where
  "boot_state = \<lparr>nc_net = demo_net, nc_heap = (\<lambda>_. None), nc_list = [], nc_next = 0, nc_refs = (\<lambda>_. 0), nc_mutex = False,
     nc_ext_console = False, nc_console = False, nc_notifier = False, nc_subsys = False, nc_ext_printbuffer = False,
     nc_printbuffer = False\<rparr>"

definition demo_cfg :: netcon_cfg where
  "demo_cfg = \<lparr>cf_dynamic = True, cf_extended_log = False, cf_prepend_release = False\<rparr>"

definition demo_init :: init_env where
  "demo_init = \<lparr>ie_alloc = (\<lambda>_. True), ie_setup = (\<lambda>_. demo_setup_env), ie_notifier = 0, ie_subsys = 0\<rparr>"

definition yes_lib :: net_lib where "yes_lib = nib_lib\<lparr>kstrtobool := (\<lambda>_. Inr True)\<rparr>"

lemma boot_state_boot: "netcon_boot boot_state"
  by (simp add: netcon_boot_def boot_state_def net_inv_def links_inv_def demo_net_def demo_dev_def)

lemma demo_setup_clock: "clock_runs (se_jiffies demo_setup_env)"
  using demo_clock by (simp add: demo_setup_env_def)

lemma demo_attach: "attach_ok demo_setup_env demo_net"
  by (simp add: attach_ok_def demo_setup_env_def demo_net_def demo_dev_def)



text \<open>One target on \<open>eth0\<close>, and one that is disabled.\<close>

definition eth_state :: netcon where
  "eth_state = boot_state\<lparr>nc_net := demo_net\<lparr>net_devs := [demo_dev\<lparr>nd_npinfo := Some 7, nd_refs := 4\<rparr>],
       net_infos := [7 \<mapsto> \<lparr>ni_refcnt = 1, ni_dev_lock = 1, ni_txq = [], ni_tx_work = None, ni_netpoll = ''eth0''\<rparr>], net_next := 8\<rparr>,
     nc_heap := [0 \<mapsto> (alloc_and_init demo_cfg)\<lparr>nt_enabled := True, nt_np := eth_np\<lparr>np_dev := Some 0\<rparr>\<rparr>,
       1 \<mapsto> alloc_and_init demo_cfg], nc_list := [1, 0], nc_next := 2\<rparr>"

lemma eth_state_inv: "netcon_inv [3] eth_state"
  by (auto simp: netcon_inv_def eth_state_def boot_state_def net_inv_def links_inv_def demo_dev_def target_ok_def
      alloc_and_init_def users_def tdev_def)

theorem netdev_event_detaches_witness:
  "\<exists>S'. netconsole_netdev_event NETDEV_UNREGISTER 0 eth_state = Some S' \<and> map_option nt_enabled (nc_heap S' 0) = Some False
     \<and> nc_heap S' 1 = nc_heap eth_state 1 \<and> nd_refs (net_devs (nc_net S') ! 0) = 3"
proof -
  have "detaching NETDEV_UNREGISTER" by (simp add: detaching_def)
  from netdev_event_detaches [OF eth_state_inv this, of 0] show ?thesis
    by (auto simp: eth_state_def boot_state_def tdev_def alloc_and_init_def demo_dev_def detached_def users_def)
qed

end
