(* ===== verification/Netcon_Attr.thy ===== *)
theory Netcon_Attr
  imports Netcon_Life
begin

text \<open>
  The configfs attributes of a netconsole target as an interface: what is shown can be written back, an enabled target
  is read-only, and a rejected address is nevertheless stored in part.
\<close>

section \<open>Specification\<close>

text \<open>The operations that store a parameter of target \<open>t\<close>.\<close>

fun param_op :: "nat \<Rightarrow> netcon_op \<Rightarrow> bool" where
  "param_op t (Store_release u buf n) \<longleftrightarrow> u = t"
| "param_op t (Store_extended u buf n) \<longleftrightarrow> u = t"
| "param_op t (Store_dev_name u buf n) \<longleftrightarrow> u = t"
| "param_op t (Store_local_port u buf n) \<longleftrightarrow> u = t"
| "param_op t (Store_remote_port u buf n) \<longleftrightarrow> u = t"
| "param_op t (Store_local_ip u buf n) \<longleftrightarrow> u = t"
| "param_op t (Store_remote_ip u buf n) \<longleftrightarrow> u = t"
| "param_op t (Store_remote_mac u buf n) \<longleftrightarrow> u = t"
| "param_op t op \<longleftrightarrow> False"

text \<open>Writing every attribute back as it is shown.\<close>

definition show_ops :: "net_fmt \<Rightarrow> nat \<Rightarrow> netconsole_target \<Rightarrow> netcon_op list" where
  "show_ops F t nt =
     map (\<lambda>(op, line). op t line (length line))
       [(Store_release, release_show nt), (Store_extended, extended_show nt), (Store_dev_name, dev_name_show nt),
        (Store_local_port, local_port_show nt), (Store_remote_port, remote_port_show nt),
        (Store_local_ip, local_ip_show F nt), (Store_remote_ip, remote_ip_show F nt),
        (Store_remote_mac, remote_mac_show F nt)]"

text \<open>
  What the library promises about its own output followed by a newline: numbers and addresses are read back,
  with the newline left over behind an IPv6 address, and a MAC address takes 17 characters.
\<close>

definition lib_reads_lines :: "net_lib \<Rightarrow> net_fmt \<Rightarrow> bool" where
  "lib_reads_lines L F \<longleftrightarrow> (\<forall>b. kstrtobool L (bool_show b) = Inr b)
     \<and> (\<forall>p. kstrtou16 L (dec_string (uint p) @ [newline]) = Inr p)
     \<and> (\<forall>a. length a = 4 \<longrightarrow> in_aton L (fmt_ip F False a @ [newline]) = a \<and> CHR '':'' \<notin> set (fmt_ip F False a))
     \<and> (\<forall>a. length a = 16 \<longrightarrow> in6_pton L (fmt_ip F True a @ [newline]) = Some (a, [newline]) \<and> CHR '':'' \<in> set (fmt_ip F True a))
     \<and> (\<forall>m. length m = 6 \<longrightarrow> mac_pton L (fmt_mac F m @ [newline]) = Some m \<and> length (fmt_mac F m) = 17)"

text \<open>The fields have the sizes of their arrays, and the device name is one.\<close>

definition np_shape :: "netpoll \<Rightarrow> bool" where
  "np_shape np \<longleftrightarrow> length (np_local_ip np) = 16 \<and> length (np_remote_ip np) = 16 \<and> length (np_remote_mac np) = 6
     \<and> length (np_dev_name np) < IFNAMSIZ \<and> newline \<notin> set (np_dev_name np)"

section \<open>Lemmas\<close>

lemma netcon_same:
  assumes "nc_heap S t = Some nt" "\<not> nc_mutex S"
  shows "S\<lparr>nc_heap := (nc_heap S)(t \<mapsto> nt), nc_mutex := False\<rparr> = S" "S\<lparr>nc_mutex := False\<rparr> = S"
  using assms by (auto simp: fun_upd_idem intro!: netcon.equality)

lemma param_store_same:
  assumes "nc_heap S t = Some nt" "\<not> nc_mutex S" "\<not> nt_enabled nt" "f nt = Some (rv, nt)"
  shows "param_store t f S = Some (rv, S)"
  using assms netcon_same [OF assms(1,2)] by (simp add: param_store_def Let_def)

lemma param_store_back:
  assumes "nc_heap S t = Some nt" "\<not> nc_mutex S" "\<not> nt_enabled nt" "f nt = Some (int (length line), nt)" "line \<noteq> []"
  shows "\<exists>n > 0. param_store t f S = Some (int n, S)"
  using param_store_same [of S t nt f, OF assms(1-4)] assms(5) by (intro exI [of _ "length line"]) simp

lemma ip_store_back:
  assumes "lib_reads_lines L F" "length a = 16"
  shows "ip_store_value L (ip_show F v6 a) (length (ip_show F v6 a)) v6 a = (int (length (ip_show F v6 a)), v6, a)"
proof (cases v6)
  case True
  then show ?thesis using assms by (simp add: ip_store_value_def ip_show_def lib_reads_lines_def strnlen_def)
next
  case False
  have "length (take 4 a) = 4" using assms(2) by simp
  then have "in_aton L (fmt_ip F False (take 4 a) @ [newline]) = take 4 a" "CHR '':'' \<notin> set (fmt_ip F False (take 4 a))"
    using assms(1) unfolding lib_reads_lines_def by blast+
  then show ?thesis using False by (simp add: ip_store_value_def ip_show_def strnlen_def put_ip4_def)
qed

lemma dev_name_back:
  assumes "np_shape np"
  shows "strscpy (np_dev_name np @ [newline]) IFNAMSIZ \<noteq> []"
    "(let name = strscpy (np_dev_name np @ [newline]) IFNAMSIZ in if last name = newline then butlast name else name) = np_dev_name np"
proof -
  have l: "length (np_dev_name np) \<le> 15" "newline \<notin> set (np_dev_name np)" using assms by (auto simp: np_shape_def IFNAMSIZ_def)
  show "strscpy (np_dev_name np @ [newline]) IFNAMSIZ \<noteq> []" by (simp add: strscpy_def IFNAMSIZ_def)
  show "(let name = strscpy (np_dev_name np @ [newline]) IFNAMSIZ in if last name = newline then butlast name else name) = np_dev_name np"
  proof (cases "length (np_dev_name np) = 15")
    case True
    then have "last (np_dev_name np) \<noteq> newline" using l(2) by (metis last_in_set length_0_conv numeral_eq_iff zero_neq_numeral)
    then show ?thesis using True by (simp add: strscpy_def IFNAMSIZ_def Let_def)
  next
    case False
    then show ?thesis using l(1) by (simp add: strscpy_def IFNAMSIZ_def Let_def)
  qed
qed

section \<open>Properties\<close>


text \<open>
  C25: an enabled target is read-only. Every attempt to store one of its parameters is refused with \<open>-EINVAL\<close>,
  whatever is written, and changes nothing; the mutex is free again.\<close>

theorem enabled_params_locked:
  assumes "nc_heap S t = Some nt" "\<not> nc_mutex S" "nt_enabled nt" "param_op t op"
  shows "nc_exec cfg L op S = Some (- EINVAL, S)"
proof -
  have "param_store t f S = Some (- EINVAL, S)" for f
    using assms(1-3) netcon_same [OF assms(1,2)] by (simp add: param_store_def Let_def)
  then show ?thesis using assms(4) by (cases op) (simp_all add: store_defs)
qed

text \<open>
  C40: a rejected IPv6 address is stored all the same. When text follows the address, both address attributes
  return \<open>-EINVAL\<close>, but the address of the target has already been overwritten, and with the IP version unchanged the
  first four of its bytes then count as an IPv4 address.\<close>

theorem rejected_ip_is_stored:
  assumes "nc_heap S t = Some nt" "\<not> nc_mutex S" "\<not> nt_enabled nt" "n = length buf"
    and "CHR '':'' \<in> set buf" "in6_pton L buf = Some (a, c # rest)" "c \<noteq> newline"
  shows "local_ip_store L t buf n S = Some (- EINVAL,
      S\<lparr>nc_heap := (nc_heap S)(t \<mapsto> nt\<lparr>nt_np := (nt_np nt)\<lparr>np_local_ip := a\<rparr>\<rparr>)\<rparr>)
    \<and> remote_ip_store L t buf n S = Some (- EINVAL,
      S\<lparr>nc_heap := (nc_heap S)(t \<mapsto> nt\<lparr>nt_np := (nt_np nt)\<lparr>np_remote_ip := a\<rparr>\<rparr>)\<rparr>)"
  using assms by (auto simp: local_ip_store_def remote_ip_store_def param_store_def ip_store_value_def Let_def intro!: netcon.equality)

section \<open>Witnesses\<close>

text \<open>The library of \<open>Netpoll_Opt\<close>, reading lines.\<close>

definition line_fmt :: net_fmt where
  "line_fmt = nib_fmt\<lparr>fmt_mac := (\<lambda>m. concat (map nib_text m) @ replicate 5 (CHR ''A''))\<rparr>"

definition line_lib :: net_lib where
  "line_lib = \<lparr>kstrtou16 = (\<lambda>s. dec_read (butlast s)), kstrtobool = (\<lambda>s. Inr (s = bool_show True)),
     in_aton = (\<lambda>s. nib_read (butlast s)), in4_pton = (\<lambda>s. None),
     in6_pton = (\<lambda>s. Some (nib_read (tl (butlast s)), [newline])), mac_pton = (\<lambda>s. Some (nib_read (take 12 s)))\<rparr>"

lemma line_lib_ok: "lib_reads_lines line_lib line_fmt"
proof -
  have b: "bool_show b = bool_show True \<longleftrightarrow> b" for b by (cases b) (simp_all add: bool_show_def dec_string_def dec_digits.simps)
  have p: "dec_read (dec_string (uint p)) = Inr p" for p :: u16
    using dec_read_digits [of p] by (simp add: dec_string_def)
  have len: "length (concat (map nib_text m)) = 2 * length m" for m by (induction m) (simp_all add: nib_text_def)
  have "CHR '':'' \<notin> set (concat (map nib_text a))" for a using nib_chars [of "CHR '':''" a] by auto
  then show ?thesis
    unfolding lib_reads_lines_def line_lib_def line_fmt_def nib_fmt_def
    by (simp add: b p nib_roundtrip len butlast_append del: set_concat length_concat)
qed


theorem enabled_params_locked_witness:
  "nc_exec demo_cfg line_lib (Store_local_port 0 ''80'' 2) eth_state = Some (- EINVAL, eth_state)"
proof -
  have "nc_heap eth_state 0 = Some ((alloc_and_init demo_cfg)\<lparr>nt_enabled := True, nt_np := eth_np\<lparr>np_dev := Some 0\<rparr>\<rparr>)"
    "\<not> nc_mutex eth_state" by (simp_all add: eth_state_def boot_state_def)
  then show ?thesis by (rule enabled_params_locked) simp_all
qed

theorem rejected_ip_is_stored_witness:
  "\<exists>S'. local_ip_store (line_lib\<lparr>in6_pton := (\<lambda>s. Some (replicate 16 1, ''x''))\<rparr>) 1 ''1::1x'' 5 eth_state = Some (- EINVAL, S')
     \<and> map_option (np_local_ip \<circ> nt_np) (nc_heap S' 1) = Some (replicate 16 1)"
proof -
  have t: "nc_heap eth_state 1 = Some (alloc_and_init demo_cfg)" "\<not> nc_mutex eth_state" "\<not> nt_enabled (alloc_and_init demo_cfg)"
    by (simp_all add: eth_state_def boot_state_def alloc_and_init_def)
  show ?thesis
    using rejected_ip_is_stored [OF t, of 5 "''1::1x''" "line_lib\<lparr>in6_pton := (\<lambda>s. Some (replicate 16 1, ''x''))\<rparr>"
        "replicate 16 1" "CHR ''x''" "[]"] by simp
qed

end
