(* ===== verification/Netpoll_Tx.thy ===== *)
theory Netpoll_Tx
  imports Netpoll_Dev
begin

text \<open>
  \<open>netcon-port/netpoll.c\<close>, transmission: the attempt to hand a frame to the driver, the queue of frames the
  driver did not take, the worker that drains it, polling under the device semaphore, and the buffer search. What the driver and the allocator answer is indexed by a tick that every question advances.
\<close>

section \<open>State\<close>

text \<open>
  \<open>tx_wire\<close> is what the driver accepted, oldest first; \<open>tx_polls\<close> the calls into the driver, with the napi
  instance or \<open>None\<close> for its poll controller; \<open>tx_compl\<close> the completion queue of this CPU, each entry with
  \<open>skb_irq_freeable\<close>; \<open>tx_freed\<close> the buffers given back.
\<close>

record tx =
  tx_net :: net
  tx_wire :: "skb list"
  tx_polls :: "(nat \<times> nat option) list"
  tx_compl :: "(skb \<times> bool) list"
  tx_freed :: "skb list"
  tx_tick :: nat
  ip_ident :: u32

text \<open>
  \<open>te_reap\<close>: what the driver's poll puts on the completion queue. The checksums of the kernel are taken
  over the two addresses and the UDP segment, and over the IPv4 header.
\<close>

record tx_env =
  te_cpu :: int
  te_irqs_off :: bool
  te_vlan_offload :: "skb \<Rightarrow> bool"
  te_vlan_push :: "skb \<Rightarrow> skb option"
  te_xmit :: "nat \<Rightarrow> int"
  te_stopped :: "nat \<Rightarrow> bool"
  te_frozen :: "nat \<Rightarrow> bool"
  te_trylock :: "nat \<Rightarrow> bool"
  te_pick :: "skb \<Rightarrow> nat"
  te_alloc :: "nat \<Rightarrow> bool"
  te_refill :: "nat \<Rightarrow> nat"
  te_reap :: "nat \<Rightarrow> (skb \<times> bool) list"
  te_udp_csum :: "bytes \<Rightarrow> bytes \<Rightarrow> bytes \<Rightarrow> u16"
  te_ip_csum :: "bytes \<Rightarrow> u16"

abbreviation tick :: "tx \<Rightarrow> tx" where "tick T \<equiv> T\<lparr>tx_tick := Suc (tx_tick T)\<rparr>"

abbreviation the_dev :: "nat \<Rightarrow> tx \<Rightarrow> net_device" where "the_dev d T \<equiv> net_devs (tx_net T) ! d"

abbreviation tx_dev_update :: "nat \<Rightarrow> (net_device \<Rightarrow> net_device) \<Rightarrow> tx \<Rightarrow> tx" where
  "tx_dev_update d f T \<equiv> T\<lparr>tx_net := dev_update d f (tx_net T)\<rparr>"

definition info_update :: "nat \<Rightarrow> (netpoll_info \<Rightarrow> netpoll_info) \<Rightarrow> tx \<Rightarrow> tx" where
  "info_update p f T = T\<lparr>tx_net := (tx_net T)\<lparr>net_infos := (net_infos (tx_net T))(p := map_option f (net_infos (tx_net T) p))\<rparr>\<rparr>"

definition NETDEV_TX_OK :: int where "NETDEV_TX_OK = 0x00"
definition NETDEV_TX_BUSY :: int where "NETDEV_TX_BUSY = 0x10"
definition NET_XMIT_DROP :: int where "NET_XMIT_DROP = 0x01"

definition dev_xmit_complete :: "int \<Rightarrow> bool" where "dev_xmit_complete rc \<longleftrightarrow> rc < 0x0f"

definition jiffies_to_usecs :: "nat \<Rightarrow> nat" where "jiffies_to_usecs j = (1000000 div unat HZ) * j"

definition USEC_PER_POLL :: nat where "USEC_PER_POLL = 50"

text \<open>\<open>schedule_delayed_work\<close> leaves work that is already pending as it is.\<close>

definition schedule_work :: "nat \<Rightarrow> netpoll_info \<Rightarrow> netpoll_info" where
  "schedule_work delay i = i\<lparr>ni_tx_work := (case ni_tx_work i of None \<Rightarrow> Some delay | Some w \<Rightarrow> Some w)\<rparr>"

section \<open>Handing a frame to the driver\<close>

text \<open>
  A tag the hardware cannot insert is pushed into the frame first; when that fails the frame is gone and the
  status is a success. The frame is on the wire when the driver says it took it.
\<close>

definition netpoll_start_xmit :: "tx_env \<Rightarrow> skb \<Rightarrow> tx \<Rightarrow> int \<times> skb \<times> tx" where
  "netpoll_start_xmit E skb T =
     (case (if skb_vlan skb \<noteq> None \<and> \<not> te_vlan_offload E skb then te_vlan_push E skb else Some skb) of
        None \<Rightarrow> (NETDEV_TX_OK, skb, T\<lparr>tx_freed := tx_freed T @ [skb]\<rparr>)
      | Some skb \<Rightarrow>
          (let status = te_xmit E (tx_tick T)
           in (status, skb, tick (if dev_xmit_complete status then T\<lparr>tx_wire := tx_wire T @ [skb]\<rparr> else T))))"

text \<open>
  The loop of \<open>queue_process\<close> on what is still queued: the frames left, and whether it stopped early.
\<close>

fun queue_loop :: "tx_env \<Rightarrow> skb list \<Rightarrow> tx \<Rightarrow> skb list \<times> bool \<times> tx" where
  "queue_loop E [] T = ([], False, T)"
| "queue_loop E (skb # q) T =
     (let dev = the_dev (skb_dev skb) T
      in if \<not> nd_present dev \<or> \<not> nd_running dev
         then queue_loop E q (T\<lparr>tx_freed := tx_freed T @ [skb]\<rparr>)
         else
           (let q_index = skb_queue_mapping skb;
                skb = (if nd_real_num_tx_queues dev \<le> q_index
                       then skb\<lparr>skb_queue_mapping := q_index mod nd_real_num_tx_queues dev\<rparr> else skb)
            in if te_frozen E (tx_tick T) then (skb # q, True, tick T)
               else
                 (let (status, skb, T) = netpoll_start_xmit E skb T
                  in if \<not> dev_xmit_complete status then (skb # q, True, T) else queue_loop E q T)))"

text \<open>The worker; \<open>None\<close> is a block that no longer exists.\<close>

definition queue_process :: "tx_env \<Rightarrow> nat \<Rightarrow> tx \<Rightarrow> tx option" where
  "queue_process E p T =
     (case net_infos (tx_net T) p of
        None \<Rightarrow> None
      | Some i \<Rightarrow>
          (let (q, again, T') = queue_loop E (ni_txq i) T
           in Some (info_update p (\<lambda>i. i\<lparr>ni_txq := q, ni_tx_work := (if again then Some (unat (HZ div 10)) else None)\<rparr>) T')))"

section \<open>Polling\<close>

definition netif_local_xmit_active :: "tx_env \<Rightarrow> net_device \<Rightarrow> bool" where
  "netif_local_xmit_active E dev \<longleftrightarrow> (\<exists>ow \<in> set (nd_xmit_owner dev). ow = te_cpu E)"

abbreviation napi_set :: "nat \<Rightarrow> nat \<Rightarrow> (napi \<Rightarrow> napi) \<Rightarrow> tx \<Rightarrow> tx" where
  "napi_set d n f T \<equiv> tx_dev_update d (\<lambda>dev. dev\<lparr>nd_napis := (nd_napis dev)[n := f (nd_napis dev ! n)]\<rparr>) T"

definition driver_poll :: "tx_env \<Rightarrow> nat \<Rightarrow> nat option \<Rightarrow> tx \<Rightarrow> tx" where
  "driver_poll E d n T = tick (T\<lparr>tx_polls := tx_polls T @ [(d, n)], tx_compl := te_reap E (tx_tick T) @ tx_compl T\<rparr>)"

definition poll_one_napi :: "tx_env \<Rightarrow> nat \<Rightarrow> nat \<Rightarrow> tx \<Rightarrow> tx" where
  "poll_one_napi E d n T =
     (if napi_npsvc (nd_napis (the_dev d T) ! n) then T
      else napi_set d n (napi_npsvc_update (\<lambda>_. False))
             (driver_poll E d (Some n) (napi_set d n (napi_npsvc_update (\<lambda>_. True)) T)))"

definition poll_napi :: "tx_env \<Rightarrow> nat \<Rightarrow> tx \<Rightarrow> tx" where
  "poll_napi E d T =
     fold (\<lambda>n T. if napi_owner (nd_napis (the_dev d T) ! n) = -1
                 then napi_set d n (napi_owner_update (\<lambda>_. -1))
                        (poll_one_napi E d n (napi_set d n (napi_owner_update (\<lambda>_. te_cpu E)) T))
                 else T)
       [0..<length (nd_napis (the_dev d T))] T"

text \<open>
  Buffers that must not be freed with interrupts off go back to the completion queue, each at its head.
\<close>

definition zap_completion_queue :: "tx_env \<Rightarrow> tx \<Rightarrow> tx" where
  "zap_completion_queue E T =
     T\<lparr>tx_compl := (if te_irqs_off E then rev (filter (\<lambda>c. \<not> snd c) (tx_compl T)) else []),
       tx_freed := tx_freed T @ map fst (filter (\<lambda>c. snd c \<or> \<not> te_irqs_off E) (tx_compl T))\<rparr>"

definition netpoll_poll_dev :: "tx_env \<Rightarrow> nat \<Rightarrow> tx \<Rightarrow> tx" where
  "netpoll_poll_dev E d T =
     (case nd_npinfo (the_dev d T) of
        None \<Rightarrow> T
      | Some p \<Rightarrow>
          (case net_infos (tx_net T) p of
             None \<Rightarrow> T
           | Some i \<Rightarrow>
               if ni_dev_lock i = 0 then T
               else
                 (let T = info_update p (ni_dev_lock_update (\<lambda>c. c - 1)) T
                  in if \<not> nd_running (the_dev d T) \<or> netif_local_xmit_active E (the_dev d T)
                     then info_update p (ni_dev_lock_update Suc) T
                     else
                       (let T = (if nd_poll_controller (the_dev d T) then driver_poll E d None T else T);
                            T = poll_napi E d T;
                            T = info_update p (ni_dev_lock_update Suc) T
                        in zap_completion_queue E T))))"

text \<open>\<open>None\<close>: the semaphore is held and the caller sleeps.\<close>

definition netpoll_poll_disable :: "nat \<Rightarrow> tx \<Rightarrow> tx option" where
  "netpoll_poll_disable d T =
     (case nd_npinfo (the_dev d T) of
        None \<Rightarrow> Some T
      | Some p \<Rightarrow>
          (case net_infos (tx_net T) p of
             None \<Rightarrow> None
           | Some i \<Rightarrow> if ni_dev_lock i = 0 then None else Some (info_update p (ni_dev_lock_update (\<lambda>c. c - 1)) T)))"

definition netpoll_poll_enable :: "nat \<Rightarrow> tx \<Rightarrow> tx" where
  "netpoll_poll_enable d T =
     (case nd_npinfo (the_dev d T) of None \<Rightarrow> T | Some p \<Rightarrow> info_update p (ni_dev_lock_update Suc) T)"

section \<open>Finding a buffer\<close>

text \<open>The result says whether the buffer comes from the pool; \<open>None\<close> is no buffer.\<close>

function find_skb_try :: "tx_env \<Rightarrow> nat \<Rightarrow> nat \<Rightarrow> tx \<Rightarrow> bool option \<times> tx" where
  "find_skb_try E d count T =
     (if te_alloc E (tx_tick T) then (Some False, tick T)
      else if skb_pool (tx_net T) \<noteq> 0
      then (Some True, T\<lparr>tx_net := (tx_net T)\<lparr>skb_pool := skb_pool (tx_net T) - 1\<rparr>, tx_tick := Suc (tx_tick T)\<rparr>)
      else if count + 1 < 10 then find_skb_try E d (count + 1) (netpoll_poll_dev E d (tick T))
      else (None, tick T))"
  by pat_completeness auto
termination by (relation "measure (\<lambda>(E, d, count, T). 10 - count)") auto

declare find_skb_try.simps [simp del]

definition find_skb :: "tx_env \<Rightarrow> nat \<Rightarrow> tx \<Rightarrow> bool option \<times> tx" where
  "find_skb E d T =
     (let T = zap_completion_queue E T;
          T = T\<lparr>tx_net := (tx_net T)\<lparr>skb_pool := refill_skbs (te_refill E (tx_tick T)) (skb_pool (tx_net T))\<rparr>\<rparr>
      in find_skb_try E d 0 T)"

section \<open>Sending\<close>

definition netpoll_owner_active :: "tx_env \<Rightarrow> net_device \<Rightarrow> bool" where
  "netpoll_owner_active E dev \<longleftrightarrow> (\<exists>n \<in> set (nd_napis dev). napi_owner n = te_cpu E)"

fun send_tries :: "tx_env \<Rightarrow> nat \<Rightarrow> nat \<Rightarrow> int \<Rightarrow> skb \<Rightarrow> tx \<Rightarrow> int \<times> skb \<times> tx" where
  "send_tries E d 0 status skb T = (status, skb, T)"
| "send_tries E d (Suc tries) status skb T =
     (let (status, skb, T) =
            (if te_trylock E (tx_tick T)
             then if te_stopped E (tx_tick T) then (status, skb, tick T) else netpoll_start_xmit E skb T
             else (status, skb, tick T))
      in if dev_xmit_complete status then (status, skb, T)
         else send_tries E d tries status skb (netpoll_poll_dev E d T))"

text \<open>\<open>__netpoll_send_skb\<close>; \<open>None\<close> is the use of a device pointer that is NULL.\<close>

definition netpoll_send_skb_dev :: "tx_env \<Rightarrow> netpoll \<Rightarrow> skb \<Rightarrow> tx \<Rightarrow> (int \<times> tx) option" where
  "netpoll_send_skb_dev E np skb T =
     (case np_dev np of
        None \<Rightarrow> None
      | Some d \<Rightarrow>
          (case nd_npinfo (the_dev d T) of
             None \<Rightarrow> Some (NET_XMIT_DROP, T\<lparr>tx_freed := tx_freed T @ [skb]\<rparr>)
           | Some p \<Rightarrow>
               if \<not> nd_running (the_dev d T) \<or> \<not> nd_present (the_dev d T)
               then Some (NET_XMIT_DROP, T\<lparr>tx_freed := tx_freed T @ [skb]\<rparr>)
               else
                 (case net_infos (tx_net T) p of
                    None \<Rightarrow> None
                  | Some i \<Rightarrow>
                      (let (status, skb, T) =
                             (if ni_txq i = [] \<and> \<not> netpoll_owner_active E (the_dev d T)
                              then send_tries E d (jiffies_to_usecs 1 div USEC_PER_POLL) NETDEV_TX_BUSY
                                     (skb\<lparr>skb_queue_mapping := te_pick E skb\<rparr>) T
                              else (NETDEV_TX_BUSY, skb, T));
                           T = (if \<not> dev_xmit_complete status
                                then info_update p (schedule_work 0 \<circ> ni_txq_update (\<lambda>q. q @ [skb])) T else T)
                       in Some (NETDEV_TX_OK, T)))))"

definition netpoll_send_skb :: "tx_env \<Rightarrow> netpoll option \<Rightarrow> skb \<Rightarrow> tx \<Rightarrow> (int \<times> tx) option" where
  "netpoll_send_skb E np skb T =
     (case np of
        None \<Rightarrow> Some (NET_XMIT_DROP, T\<lparr>tx_freed := tx_freed T @ [skb]\<rparr>)
      | Some np \<Rightarrow> netpoll_send_skb_dev E np skb T)"

section \<open>Specifications\<close>

text \<open>The frames that wait for the worker.\<close>

abbreviation tx_waiting :: "nat \<Rightarrow> tx \<Rightarrow> skb list" where "tx_waiting p T \<equiv> ni_txq (the (net_infos (tx_net T) p))"

abbreviation plain_skb :: "nat \<Rightarrow> skb \<Rightarrow> bool" where "plain_skb d s \<equiv> skb_vlan s = None \<and> skb_dev s = d"

text \<open>Device \<open>d\<close> is up with block \<open>p\<close>, its queue holds untagged frames, and a queue that is not empty has its worker scheduled.\<close>

definition tx_up :: "nat \<Rightarrow> nat \<Rightarrow> tx \<Rightarrow> bool" where
  "tx_up d p T \<longleftrightarrow> d < length (net_devs (tx_net T)) \<and> nd_npinfo (the_dev d T) = Some p \<and> nd_present (the_dev d T)
     \<and> nd_running (the_dev d T) \<and> (\<exists>i. net_infos (tx_net T) p = Some i \<and> (\<forall>s \<in> set (ni_txq i). plain_skb d s)
       \<and> (ni_txq i \<noteq> [] \<longrightarrow> ni_tx_work i \<noteq> None))"

text \<open>Everything ever accepted, in order: what the driver took and what still waits.\<close>

definition accepted :: "nat \<Rightarrow> tx \<Rightarrow> bytes list" where
  "accepted p T = map skb_data (tx_wire T @ tx_waiting p T)"

datatype tx_event = Send_skb skb | Tx_work | Poll_dev

definition tx_step :: "tx_env \<Rightarrow> netpoll \<Rightarrow> nat \<Rightarrow> nat \<Rightarrow> tx_event \<Rightarrow> tx \<Rightarrow> tx option" where
  "tx_step E np d p ev T =
     (case ev of
        Send_skb s \<Rightarrow> map_option snd (netpoll_send_skb E (Some np) s T)
      | Tx_work \<Rightarrow> queue_process E p T
      | Poll_dev \<Rightarrow> Some (netpoll_poll_dev E d T))"

fun tx_run :: "tx_env \<Rightarrow> netpoll \<Rightarrow> nat \<Rightarrow> nat \<Rightarrow> tx_event list \<Rightarrow> tx \<Rightarrow> tx option" where
  "tx_run E np d p [] T = Some T"
| "tx_run E np d p (ev # evs) T = do { T \<leftarrow> tx_step E np d p ev T; tx_run E np d p evs T }"

definition sent_data :: "tx_event \<Rightarrow> bytes list" where
  "sent_data ev = (case ev of Send_skb s \<Rightarrow> [skb_data s] | _ \<Rightarrow> [])"

section \<open>Lemmas\<close>

lemma info_update_simps [simp]:
  "tx_wire (info_update p f T) = tx_wire T" "tx_polls (info_update p f T) = tx_polls T"
  "tx_compl (info_update p f T) = tx_compl T" "net_devs (tx_net (info_update p f T)) = net_devs (tx_net T)"
  "net_infos (tx_net (info_update p f T)) p = map_option f (net_infos (tx_net T) p)"
  "ip_ident (info_update p f T) = ip_ident T"
  by (simp_all add: info_update_def)

lemma info_update_back:
  assumes "tx_net U = tx_net (info_update p g T)" "\<And>i. net_infos (tx_net T) p = Some i \<Longrightarrow> f (g i) = i"
  shows "tx_net (info_update p f U) = tx_net T"
proof -
  have "(map_option f (map_option g (net_infos (tx_net T) p))) = net_infos (tx_net T) p"
    using assms(2) by (cases "net_infos (tx_net T) p") auto
  then show ?thesis using assms(1) by (simp add: info_update_def option.map_comp)
qed

text \<open>Polling puts back every mark it sets: the devices and their blocks are unchanged.\<close>

lemma napi_set_back:
  assumes "tx_net U = tx_net (napi_set d n g T)" "f (g (nd_napis (the_dev d T) ! n)) = nd_napis (the_dev d T) ! n"
  shows "tx_net (napi_set d n f U) = tx_net T"
proof (cases "d < length (net_devs (tx_net T))")
  case True
  have "(nd_napis (the_dev d T))[n := f ((nd_napis (the_dev d T))[n := g (nd_napis (the_dev d T) ! n)] ! n)] = nd_napis (the_dev d T)"
    using assms(2) by (cases "n < length (nd_napis (the_dev d T))") (simp_all add: list_update_beyond)
  then show ?thesis using assms(1) True by (simp add: list_update_same_conv)
qed (use assms(1) in \<open>simp add: list_update_beyond\<close>)

lemma driver_poll_simps [simp]: "tx_net (driver_poll E d n T) = tx_net T" "tx_wire (driver_poll E d n T) = tx_wire T"
  "ip_ident (driver_poll E d n T) = ip_ident T"
  by (simp_all add: driver_poll_def)

definition same_tx :: "tx \<Rightarrow> tx \<Rightarrow> bool" where
  "same_tx T U \<longleftrightarrow> tx_net U = tx_net T \<and> tx_wire U = tx_wire T \<and> ip_ident U = ip_ident T"

lemma same_tx_simps [simp]: "same_tx T T" "same_tx T (tick U) = same_tx T U" "same_tx T (driver_poll E d n U) = same_tx T U"
  by (simp_all add: same_tx_def)

lemma poll_one_napi_same: "same_tx T (poll_one_napi E d n T)"
  unfolding same_tx_def poll_one_napi_def
  using napi_set_back [where U = "driver_poll E d (Some n) (napi_set d n (napi_npsvc_update (\<lambda>_. True)) T)" and d = d and n = n
      and g = "napi_npsvc_update (\<lambda>_. True)" and T = T and f = "napi_npsvc_update (\<lambda>_. False)"]
  by auto

lemma poll_napi_same: "same_tx T (poll_napi E d T)"
proof -
  define turn where "turn = (\<lambda>n T. if napi_owner (nd_napis (the_dev d T) ! n) = -1
                 then napi_set d n (napi_owner_update (\<lambda>_. -1))
                        (poll_one_napi E d n (napi_set d n (napi_owner_update (\<lambda>_. te_cpu E)) T))
                 else T)"
  have "same_tx T (turn n T)" for n T
    using poll_one_napi_same [of "napi_set d n (napi_owner_update (\<lambda>_. te_cpu E)) T" E d n]
      napi_set_back [where U = "poll_one_napi E d n (napi_set d n (napi_owner_update (\<lambda>_. te_cpu E)) T)" and d = d and n = n
        and g = "napi_owner_update (\<lambda>_. te_cpu E)" and T = T and f = "napi_owner_update (\<lambda>_. -1)"]
    by (auto simp: turn_def same_tx_def)
  then have "same_tx T (fold turn ns T)" for ns
    by (induction ns arbitrary: T) (auto simp: same_tx_def)
  then show ?thesis by (simp add: poll_napi_def turn_def)
qed

lemma poll_dev_same: "same_tx T (netpoll_poll_dev E d T)"
proof (cases "nd_npinfo (the_dev d T)")
  case (Some p)
  show ?thesis
  proof (cases "net_infos (tx_net T) p")
    case None
    then show ?thesis using Some by (simp add: netpoll_poll_dev_def)
  next
    case i: (Some i)
    define U where "U = info_update p (ni_dev_lock_update (\<lambda>c. c - 1)) T"
    define V where "V = poll_napi E d (if nd_poll_controller (the_dev d U) then driver_poll E d None U else U)"
    have "same_tx U V" using poll_napi_same [of "if nd_poll_controller (the_dev d U) then driver_poll E d None U else U" E d]
      by (auto simp: V_def same_tx_def split: if_splits)
    then have "same_tx T (info_update p (ni_dev_lock_update Suc) W)" if "W \<in> {U, V}" "ni_dev_lock i \<noteq> 0" for W
      using that i info_update_back [of W p "ni_dev_lock_update (\<lambda>c. c - 1)" T "ni_dev_lock_update Suc"]
      by (auto simp: same_tx_def U_def info_update_def)
    moreover have "netpoll_poll_dev E d T = (if ni_dev_lock i = 0 then T
      else if \<not> nd_running (the_dev d T) \<or> netif_local_xmit_active E (the_dev d T) then info_update p (ni_dev_lock_update Suc) U
      else zap_completion_queue E (info_update p (ni_dev_lock_update Suc) V))"
      using Some i by (simp add: netpoll_poll_dev_def U_def V_def Let_def)
    ultimately show ?thesis by (simp add: zap_completion_queue_def same_tx_def)
  qed
qed (simp add: netpoll_poll_dev_def)

text \<open>No call into the driver while the semaphore is held.\<close>

lemma poll_dev_locked:
  "nd_npinfo (the_dev d T) = Some p \<Longrightarrow> ni_dev_lock (the (net_infos (tx_net T) p)) = 0 \<Longrightarrow> netpoll_poll_dev E d T = T"
  by (auto simp: netpoll_poll_dev_def split: option.split)

lemma start_xmit_untagged:
  assumes "netpoll_start_xmit E s T = (status, s', T')" "skb_vlan s = None"
  shows "s' = s" "tx_net T' = tx_net T" "tx_polls T' = tx_polls T" "ip_ident T' = ip_ident T"
    "tx_wire T' = tx_wire T @ (if dev_xmit_complete status then [s] else [])"
  using assms by (auto simp: netpoll_start_xmit_def Let_def)

text \<open>An attempt keeps the frame until the driver takes it.\<close>

lemma send_tries_untagged:
  assumes "send_tries E d n status s T = (status', s', T')" "skb_vlan s = None" "\<not> dev_xmit_complete status"
  shows "s' = s \<and> tx_net T' = tx_net T \<and> tx_wire T' = tx_wire T @ (if dev_xmit_complete status' then [s] else [])
    \<and> ip_ident T' = ip_ident T
    \<and> (nd_npinfo (the_dev d T) = Some p \<and> ni_dev_lock (the (net_infos (tx_net T) p)) = 0 \<longrightarrow> tx_polls T' = tx_polls T)"
  using assms
proof (induction n arbitrary: status T)
  case (Suc n)
  define r where "r = (if te_trylock E (tx_tick T)
     then if te_stopped E (tx_tick T) then (status, s, tick T) else netpoll_start_xmit E s T else (status, s, tick T))"
  obtain st u U where r: "r = (st, u, U)" by (cases r)
  have U: "u = s" "tx_net U = tx_net T" "tx_polls U = tx_polls T" "ip_ident U = ip_ident T"
    "tx_wire U = tx_wire T @ (if dev_xmit_complete st then [s] else [])"
    using r start_xmit_untagged [of E s T st u U] Suc.prems(2,3) by (auto simp: r_def split: if_splits)
  show ?case
  proof (cases "dev_xmit_complete st")
    case True
    then show ?thesis using Suc.prems(1) r U by (auto simp: r_def [symmetric])
  next
    case False
    have "send_tries E d n st s (netpoll_poll_dev E d U) = (status', s', T')"
      using Suc.prems(1) r U False by (simp add: r_def [symmetric])
    from Suc.IH [OF this Suc.prems(2) False] show ?thesis
      using U False poll_dev_same [of U E d] poll_dev_locked [where T = U and d = d and p = p and E = E] by (auto simp: same_tx_def)
  qed
qed auto

text \<open>The worker neither loses nor reorders, and stops early exactly when something is left.\<close>

lemma queue_loop_untagged:
  assumes "queue_loop E q T = (q', again, T')" "\<forall>s \<in> set q. plain_skb d s" "nd_present (the_dev d T)" "nd_running (the_dev d T)"
  shows "map skb_data (tx_wire T' @ q') = map skb_data (tx_wire T @ q) \<and> (again \<longleftrightarrow> q' \<noteq> [])
    \<and> tx_net T' = tx_net T \<and> tx_polls T' = tx_polls T \<and> (\<forall>s \<in> set q'. plain_skb d s)"
  using assms
proof (induction q arbitrary: T)
  case (Cons s q)
  define u where "u = (if nd_real_num_tx_queues (the_dev d T) \<le> skb_queue_mapping s
     then s\<lparr>skb_queue_mapping := skb_queue_mapping s mod nd_real_num_tx_queues (the_dev d T)\<rparr> else s)"
  have u: "plain_skb d u" "skb_data u = skb_data s" using Cons.prems(2) by (auto simp: u_def)
  obtain st v U where x: "netpoll_start_xmit E u T = (st, v, U)" by (cases "netpoll_start_xmit E u T")
  note U = start_xmit_untagged [OF x u(1) [THEN conjunct1]]
  have "queue_loop E (s # q) T = (if te_frozen E (tx_tick T) then (u # q, True, tick T)
     else if \<not> dev_xmit_complete st then (u # q, True, U) else queue_loop E q U)"
    using Cons.prems(2-4) x U(1) by (simp add: Let_def u_def [symmetric])
  with Cons.prems(1) consider "(q', again, T') = (u # q, True, tick T)"
    | "\<not> dev_xmit_complete st" "(q', again, T') = (u # q, True, U)"
    | "dev_xmit_complete st" "queue_loop E q U = (q', again, T')" by (auto split: if_splits)
  then show ?case
  proof cases
    case 3
    then show ?thesis using Cons.IH [OF 3(2)] Cons.prems(2-4) U u by simp
  qed (use Cons.prems(2) U u in simp_all)
qed simp

text \<open>One operation on a device that is up.\<close>

lemma up_info:
  assumes "tx_up d p T"
  obtains i where "net_infos (tx_net T) p = Some i" "\<forall>s \<in> set (ni_txq i). plain_skb d s"
    "ni_txq i \<noteq> [] \<longrightarrow> ni_tx_work i \<noteq> None"
  using assms unfolding tx_up_def by blast

text \<open>
  What an operation of the transmit path keeps: the device stays up, frames are appended at the end of what was
  accepted, the semaphore is as before, and it polls only if the semaphore is free.
\<close>

definition tx_keeps :: "nat \<Rightarrow> nat \<Rightarrow> bytes list \<Rightarrow> tx \<Rightarrow> tx \<Rightarrow> bool" where
  "tx_keeps d p sent T T' \<longleftrightarrow> tx_up d p T' \<and> accepted p T' = accepted p T @ sent
     \<and> ni_dev_lock (the (net_infos (tx_net T') p)) = ni_dev_lock (the (net_infos (tx_net T) p))
     \<and> net_devs (tx_net T') = net_devs (tx_net T)
     \<and> (ni_dev_lock (the (net_infos (tx_net T) p)) = 0 \<longrightarrow> tx_polls T' = tx_polls T)"

lemma tx_keeps_trans: "tx_keeps d p a T U \<Longrightarrow> tx_keeps d p b U V \<Longrightarrow> tx_keeps d p (a @ b) T V"
  by (auto simp: tx_keeps_def)

lemma send_keeps:
  assumes up: "tx_up d p T" and np: "np_dev np = Some d" and s: "plain_skb d s"
  shows "\<exists>T'. netpoll_send_skb E (Some np) s T = Some (NETDEV_TX_OK, T') \<and> tx_keeps d p [skb_data s] T T'"
proof -
  obtain i where i: "net_infos (tx_net T) p = Some i" "\<forall>s \<in> set (ni_txq i). plain_skb d s"
    "ni_txq i \<noteq> [] \<longrightarrow> ni_tx_work i \<noteq> None" by (rule up_info [OF up])
  define direct where "direct \<longleftrightarrow> ni_txq i = [] \<and> \<not> netpoll_owner_active E (the_dev d T)"
  define r where "r = (if direct then send_tries E d (jiffies_to_usecs 1 div USEC_PER_POLL) NETDEV_TX_BUSY
    (s\<lparr>skb_queue_mapping := te_pick E s\<rparr>) T else (NETDEV_TX_BUSY, s, T))"
  obtain st u U where r: "r = (st, u, U)" by (cases r)
  define T' where "T' = (if \<not> dev_xmit_complete st
    then info_update p (schedule_work 0 \<circ> ni_txq_update (\<lambda>q. q @ [u])) U else U)"
  have busy: "\<not> dev_xmit_complete NETDEV_TX_BUSY" by (simp add: dev_xmit_complete_def NETDEV_TX_BUSY_def)
  have U: "skb_data u = skb_data s" "plain_skb d u" "tx_net U = tx_net T"
    "map skb_data (tx_wire U) = map skb_data (tx_wire T) @ (if dev_xmit_complete st then [skb_data s] else [])"
    "dev_xmit_complete st \<Longrightarrow> ni_txq i = []" "ni_dev_lock i = 0 \<Longrightarrow> tx_polls U = tx_polls T"
    using r s busy up i(1) send_tries_untagged [of E d "jiffies_to_usecs 1 div USEC_PER_POLL" NETDEV_TX_BUSY
        "s\<lparr>skb_queue_mapping := te_pick E s\<rparr>" T st u U p]
    by (auto simp: r_def direct_def tx_up_def split: if_splits)
  have "netpoll_send_skb E (Some np) s T = Some (NETDEV_TX_OK, T')"
    using up i(1) np r
    by (simp add: netpoll_send_skb_def netpoll_send_skb_dev_def tx_up_def direct_def [symmetric] r_def [symmetric] T'_def Let_def)
  moreover have "tx_keeps d p [skb_data s] T T'"
    using up i U unfolding tx_keeps_def T'_def
    by (auto simp: tx_up_def accepted_def schedule_work_def split: option.splits)
  ultimately show ?thesis by blast
qed

lemma work_keeps:
  assumes up: "tx_up d p T"
  shows "\<exists>T'. queue_process E p T = Some T' \<and> tx_keeps d p [] T T'"
proof -
  obtain i where i: "net_infos (tx_net T) p = Some i" "\<forall>s \<in> set (ni_txq i). plain_skb d s"
    "ni_txq i \<noteq> [] \<longrightarrow> ni_tx_work i \<noteq> None" by (rule up_info [OF up])
  obtain q again U where q: "queue_loop E (ni_txq i) T = (q, again, U)" by (cases "queue_loop E (ni_txq i) T")
  have "nd_present (the_dev d T)" "nd_running (the_dev d T)" using up by (simp_all add: tx_up_def)
  note U = queue_loop_untagged [OF q i(2) this]
  have "queue_process E p T = Some (info_update p
      (\<lambda>i. i\<lparr>ni_txq := q, ni_tx_work := (if again then Some (unat (HZ div 10)) else None)\<rparr>) U)"
    using i(1) q by (simp add: queue_process_def)
  moreover have "tx_keeps d p [] T (info_update p
      (\<lambda>i. i\<lparr>ni_txq := q, ni_tx_work := (if again then Some (unat (HZ div 10)) else None)\<rparr>) U)"
    using up i U by (auto simp: tx_keeps_def tx_up_def accepted_def)
  ultimately show ?thesis by blast
qed

lemma poll_keeps: "tx_up d p T \<Longrightarrow> tx_keeps d p [] T (netpoll_poll_dev E d T)"
  using poll_dev_same [of T E d] poll_dev_locked [where d = d and p = p and T = T and E = E]
  by (auto simp: tx_keeps_def same_tx_def tx_up_def accepted_def)

lemma step_keeps:
  assumes "tx_up d p T" "np_dev np = Some d" "\<And>s. ev = Send_skb s \<Longrightarrow> plain_skb d s"
  shows "\<exists>T'. tx_step E np d p ev T = Some T' \<and> tx_keeps d p (sent_data ev) T T'"
proof (cases ev)
  case (Send_skb s)
  then show ?thesis using send_keeps [OF assms(1,2) assms(3) [OF Send_skb], of E] by (auto simp: tx_step_def sent_data_def)
next
  case Tx_work
  then show ?thesis using work_keeps [OF assms(1), of E] by (auto simp: tx_step_def sent_data_def)
next
  case Poll_dev
  then show ?thesis using poll_keeps [OF assms(1), of E] by (auto simp: tx_step_def sent_data_def)
qed

lemma run_keeps:
  assumes "tx_up d p T" "np_dev np = Some d" "\<forall>s. Send_skb s \<in> set evs \<longrightarrow> plain_skb d s"
  shows "\<exists>T'. tx_run E np d p evs T = Some T' \<and> tx_keeps d p (concat (map sent_data evs)) T T'"
  using assms
proof (induction evs arbitrary: T)
  case Nil
  then show ?case by (simp add: tx_keeps_def)
next
  case (Cons ev evs)
  obtain U where U: "tx_step E np d p ev T = Some U" "tx_keeps d p (sent_data ev) T U"
    using step_keeps [OF Cons.prems(1,2), of ev E] Cons.prems(3) by auto
  moreover have "tx_up d p U" using U(2) by (simp add: tx_keeps_def)
  ultimately show ?case
    using Cons.IH [of U] Cons.prems(2,3) tx_keeps_trans [OF U(2)] by fastforce
qed

section \<open>Properties\<close>


text \<open>
  C26: the device semaphore shuts the driver off from polling. After \<open>netpoll_poll_disable\<close> returned, no
  sequence of sends, worker runs and polls calls into the driver's poll hooks, the semaphore stays taken so
  that a second \<open>netpoll_poll_disable\<close> blocks, and \<open>netpoll_poll_enable\<close> gives back the count.\<close>

theorem poll_disable_excludes:
  assumes up: "tx_up d p T" and lock: "ni_dev_lock (the (net_infos (tx_net T) p)) = 1"
    and evs: "np_dev np = Some d" "\<forall>s. Send_skb s \<in> set evs \<longrightarrow> plain_skb d s"
  shows "\<exists>T1 T2. netpoll_poll_disable d T = Some T1 \<and> tx_run E np d p evs T1 = Some T2
    \<and> tx_polls T2 = tx_polls T \<and> netpoll_poll_disable d T2 = None
    \<and> ni_dev_lock (the (net_infos (tx_net (netpoll_poll_enable d T2)) p)) = 1"
proof -
  obtain i where i: "net_infos (tx_net T) p = Some i" using up by (auto simp: tx_up_def)
  define T1 where "T1 = info_update p (ni_dev_lock_update (\<lambda>c. c - 1)) T"
  have "netpoll_poll_disable d T = Some T1" using up i lock by (simp add: netpoll_poll_disable_def tx_up_def T1_def)
  moreover have up1: "tx_up d p T1" "ni_dev_lock (the (net_infos (tx_net T1) p)) = 0" "tx_polls T1 = tx_polls T"
    using up i lock by (auto simp: tx_up_def T1_def)
  moreover obtain T2 where "tx_run E np d p evs T1 = Some T2" "tx_keeps d p (concat (map sent_data evs)) T1 T2"
    using run_keeps [OF up1(1) evs] by blast
  ultimately show ?thesis
    by (auto simp: tx_keeps_def tx_up_def netpoll_poll_disable_def netpoll_poll_enable_def intro!: exI [of _ T1] exI [of _ T2])
qed

section \<open>Witnesses\<close>

text \<open>A device whose driver takes every second frame it is offered.\<close>

definition demo_tx :: tx where
  "demo_tx = \<lparr>tx_net = demo_net\<lparr>net_devs := [demo_dev\<lparr>nd_running := True, nd_npinfo := Some 7\<rparr>],
       net_infos := [7 \<mapsto> \<lparr>ni_refcnt = 1, ni_dev_lock = 1, ni_txq = [], ni_tx_work = None, ni_netpoll = ''eth0''\<rparr>]\<rparr>,
     tx_wire = [], tx_polls = [], tx_compl = [], tx_freed = [], tx_tick = 0, ip_ident = 0\<rparr>"

definition demo_tx_env :: tx_env where
  "demo_tx_env = \<lparr>te_cpu = 0, te_irqs_off = True, te_vlan_offload = (\<lambda>_. True), te_vlan_push = (\<lambda>_. None),
     te_xmit = (\<lambda>t. if even t then NETDEV_TX_OK else NETDEV_TX_BUSY), te_stopped = (\<lambda>_. False), te_frozen = (\<lambda>_. False),
     te_trylock = (\<lambda>_. True), te_pick = (\<lambda>_. 0), te_alloc = even, te_refill = (\<lambda>_. 0), te_reap = (\<lambda>_. []),
     te_udp_csum = (\<lambda>_ _ _. 0), te_ip_csum = (\<lambda>_. 0x1234)\<rparr>"

definition demo_skb :: "u8 \<Rightarrow> skb" where
  "demo_skb b = \<lparr>skb_data = [b], skb_dev = 0, skb_queue_mapping = 0, skb_vlan = None\<rparr>"

lemma demo_tx_up: "tx_up 0 7 demo_tx"
  by (simp add: tx_up_def demo_tx_def demo_net_def demo_dev_def)

lemma demo_events_plain:
  "\<forall>s. Send_skb s \<in> set [Send_skb (demo_skb 1), Poll_dev, Send_skb (demo_skb 2), Tx_work] \<longrightarrow> plain_skb 0 s"
  by (auto simp: demo_skb_def)


theorem poll_disable_excludes_witness:
  "\<exists>T1 T2. netpoll_poll_disable 0 demo_tx = Some T1
     \<and> tx_run demo_tx_env (eth_np\<lparr>np_dev := Some 0\<rparr>) 0 7 [Send_skb (demo_skb 1), Poll_dev, Send_skb (demo_skb 2), Tx_work] T1 = Some T2
     \<and> tx_polls T2 = []"
proof -
  have "np_dev (eth_np\<lparr>np_dev := Some 0\<rparr>) = Some 0" "ni_dev_lock (the (net_infos (tx_net demo_tx) 7)) = 1"
    by (simp_all add: demo_tx_def)
  from poll_disable_excludes [OF demo_tx_up this(2,1) demo_events_plain, of demo_tx_env]
  show ?thesis by (auto simp: demo_tx_def)
qed

end
