(* ===== verification/Netpoll_Udp.thy ===== *)
theory Netpoll_Udp
  imports Netpoll_Tx
begin

text \<open>
  \<open>netcon-port/netpoll.c\<close>, \<open>netpoll_send_udp\<close>: the Ethernet, IP and UDP headers around a message, in a
  buffer that is allocated or taken from the pool. A receiver's parser is the specification.
\<close>

section \<open>The UDP frame\<close>

definition be16 :: "u16 \<Rightarrow> bytes" where "be16 w = [ucast (drop_bit 8 w), ucast w]"

definition ETH_HLEN :: nat where "ETH_HLEN = 14"

text \<open>The largest frame the pool's buffers are made for: \<open>MAX_SKB_SIZE\<close>.\<close>

definition MAX_SKB_SIZE :: nat where "MAX_SKB_SIZE = 14 + 20 + 8 + 1460"

definition udp_check :: "u16 \<Rightarrow> u16" where "udp_check c = (if c = 0 then 0xffff else c)"

definition udp_segment :: "tx_env \<Rightarrow> netpoll \<Rightarrow> bytes \<Rightarrow> bytes \<Rightarrow> bytes \<Rightarrow> bytes" where
  "udp_segment E np saddr daddr msg =
     (let hdr = be16 (np_local_port np) @ be16 (np_remote_port np) @ be16 (of_nat (length msg + 8));
          check = udp_check (te_udp_csum E saddr daddr (hdr @ [0, 0] @ msg))
      in hdr @ be16 check @ msg)"

definition ipv6_header :: "bytes \<Rightarrow> bytes \<Rightarrow> nat \<Rightarrow> bytes" where
  "ipv6_header saddr daddr len = [0x60, 0, 0, 0] @ be16 (of_nat (8 + len)) @ [17, 32] @ saddr @ daddr"

definition ipv4_header :: "tx_env \<Rightarrow> bytes \<Rightarrow> bytes \<Rightarrow> nat \<Rightarrow> u32 \<Rightarrow> bytes" where
  "ipv4_header E saddr daddr ip_len ident =
     (let pre = [0x45, 0] @ be16 (of_nat ip_len) @ be16 (ucast ident) @ [0, 0, 64, 17]
      in pre @ be16 (te_ip_csum E (pre @ [0, 0] @ saddr @ daddr)) @ saddr @ daddr)"

text \<open>
  The frame as it leaves; the identification counter moves only with IPv4. The local address of an IPv4
  target is the first four bytes of the address union.
\<close>

definition udp_frame :: "tx_env \<Rightarrow> netpoll \<Rightarrow> net_device \<Rightarrow> bytes \<Rightarrow> u32 \<Rightarrow> bytes \<times> u32" where
  "udp_frame E np dev msg ident =
     (if np_ipv6 np
      then (np_remote_mac np @ nd_addr dev @ be16 0x86dd
             @ ipv6_header (np_local_ip np) (np_remote_ip np) (length msg)
             @ udp_segment E np (np_local_ip np) (np_remote_ip np) msg, ident)
      else (np_remote_mac np @ nd_addr dev @ be16 0x0800
             @ ipv4_header E (take 4 (np_local_ip np)) (take 4 (np_remote_ip np)) (length msg + 8 + 20) (ident + 1)
             @ udp_segment E np (take 4 (np_local_ip np)) (take 4 (np_remote_ip np)) msg, ident + 1))"

text \<open>
  \<open>None\<close> is a missing device, or a frame that does not fit: the headers and the message are laid out from the
  reserved space on, in a buffer of the size asked for, or of \<open>MAX_SKB_SIZE\<close> when it comes from the pool.
\<close>

definition netpoll_send_udp :: "tx_env \<Rightarrow> netpoll \<Rightarrow> bytes \<Rightarrow> tx \<Rightarrow> tx option" where
  "netpoll_send_udp E np msg T =
     (case np_dev np of
        None \<Rightarrow> None
      | Some d \<Rightarrow>
          (let len = length msg;
               udp_len = len + 8;
               ip_len = (if np_ipv6 np then udp_len + 40 else udp_len + 20);
               total_len = ip_len + nd_ll_reserved (the_dev d T);
               (found, T) = find_skb E d T
           in case found of
                None \<Rightarrow> Some T
              | Some pooled \<Rightarrow>
                  (let room = (if pooled then MAX_SKB_SIZE else total_len + nd_tailroom (the_dev d T));
                       reserve = total_len - len;
                       (frame, ident) = udp_frame E np (the_dev d T) msg (ip_ident T)
                   in if room < reserve + len \<or> reserve < (if np_ipv6 np then 40 else 20) + 8 + ETH_HLEN then None
                      else map_option snd (netpoll_send_skb E (Some np)
                        \<lparr>skb_data = frame, skb_dev = d, skb_queue_mapping = 0, skb_vlan = None\<rparr> (T\<lparr>ip_ident := ident\<rparr>)))))"

section \<open>Specification\<close>

text \<open>What a receiver reads from a frame; \<open>None\<close> is a malformed one.\<close>

record datagram =
  dg_dst_mac :: bytes
  dg_src_mac :: bytes
  dg_ipv6 :: bool
  dg_src :: bytes
  dg_dst :: bytes
  dg_sport :: u16
  dg_dport :: u16
  dg_payload :: bytes

definition be16_at :: "bytes \<Rightarrow> nat \<Rightarrow> u16" where
  "be16_at bs k = push_bit 8 (ucast (bs ! k)) OR ucast (bs ! Suc k)"

definition parse_segment :: "bytes \<Rightarrow> bytes \<Rightarrow> bool \<Rightarrow> bytes \<Rightarrow> bytes \<Rightarrow> bytes \<Rightarrow> datagram option" where
  "parse_segment dmac smac v6 src dst seg =
     (if length seg < 8 \<or> unat (be16_at seg 4) \<noteq> length seg then None
      else Some \<lparr>dg_dst_mac = dmac, dg_src_mac = smac, dg_ipv6 = v6, dg_src = src, dg_dst = dst,
        dg_sport = be16_at seg 0, dg_dport = be16_at seg 2, dg_payload = drop 8 seg\<rparr>)"

definition parse_frame :: "bytes \<Rightarrow> datagram option" where
  "parse_frame f =
     (let dmac = take 6 f; smac = take 6 (drop 6 f); pkt = drop 14 f
      in if length f < 14 then None
         else if be16_at f 12 = 0x0800 then
           if length pkt < 20 \<or> pkt ! 0 \<noteq> 0x45 \<or> pkt ! 9 \<noteq> 17 \<or> unat (be16_at pkt 2) \<noteq> length pkt then None
           else parse_segment dmac smac False (take 4 (drop 12 pkt)) (take 4 (drop 16 pkt)) (drop 20 pkt)
         else if be16_at f 12 = 0x86dd then
           if length pkt < 40 \<or> pkt ! 0 \<noteq> 0x60 \<or> pkt ! 6 \<noteq> 17 \<or> unat (be16_at pkt 4) + 40 \<noteq> length pkt then None
           else parse_segment dmac smac True (take 16 (drop 8 pkt)) (take 16 (drop 24 pkt)) (drop 40 pkt)
         else None)"

text \<open>What the target and the device say the datagram must be.\<close>

definition target_datagram :: "netpoll \<Rightarrow> net_device \<Rightarrow> bytes \<Rightarrow> datagram" where
  "target_datagram np dev msg =
     \<lparr>dg_dst_mac = np_remote_mac np, dg_src_mac = nd_addr dev, dg_ipv6 = np_ipv6 np,
      dg_src = take (if np_ipv6 np then 16 else 4) (np_local_ip np),
      dg_dst = take (if np_ipv6 np then 16 else 4) (np_remote_ip np),
      dg_sport = np_local_port np, dg_dport = np_remote_port np, dg_payload = msg\<rparr>"

definition np_wf :: "netpoll \<Rightarrow> bool" where
  "np_wf np \<longleftrightarrow> length (np_local_ip np) = 16 \<and> length (np_remote_ip np) = 16 \<and> length (np_remote_mac np) = 6"

section \<open>Lemmas\<close>

lemma be16_length [simp]: "length (be16 w) = 2"
  by (simp add: be16_def)

lemma be16_value: "push_bit 8 (ucast (ucast (drop_bit 8 w) :: u8)) OR ucast (ucast w :: u8) = (w :: u16)"
  by (rule bit_word_eqI) (auto simp: bit_simps)

lemma be16_at_append: "length a = k \<Longrightarrow> be16_at (a @ be16 w @ b) k = w"
  by (simp add: be16_at_def be16_def nth_append be16_value)

lemma be16_at_drop: "be16_at (drop n f) k = be16_at f (n + k)" if "n + k < length f" "n + Suc k < length f"
  using that by (simp add: be16_at_def)

lemma nth_append_at: "length a = k \<Longrightarrow> (a @ x # b) ! k = x"
  by (simp add: nth_append)

lemma unat_of_nat_u16: "n < 2 ^ 16 \<Longrightarrow> unat (of_nat n :: u16) = n"
  by (simp add: unsigned_of_nat take_bit_nat_eq_self)

lemma segment_length: "length (udp_segment E np src dst msg) = length msg + 8"
  by (simp add: udp_segment_def Let_def)

lemma parse_udp_segment:
  assumes "length msg + 8 < 2 ^ 16"
  shows "parse_segment dmac smac v6 src dst (udp_segment E np s d msg) =
    Some \<lparr>dg_dst_mac = dmac, dg_src_mac = smac, dg_ipv6 = v6, dg_src = src, dg_dst = dst,
      dg_sport = np_local_port np, dg_dport = np_remote_port np, dg_payload = msg\<rparr>"
proof -
  define check where "check = udp_check (te_udp_csum E s d (be16 (np_local_port np) @ be16 (np_remote_port np)
    @ be16 (of_nat (length msg + 8)) @ [0, 0] @ msg))"
  have seg: "udp_segment E np s d msg = be16 (np_local_port np) @ be16 (np_remote_port np)
    @ be16 (of_nat (length msg + 8)) @ be16 check @ msg"
    by (simp add: udp_segment_def Let_def check_def)
  have "be16_at (udp_segment E np s d msg) 0 = np_local_port np" using be16_at_append [of "[]"] by (simp add: seg)
  moreover have "be16_at (udp_segment E np s d msg) 2 = np_remote_port np"
    unfolding seg by (rule be16_at_append) simp
  moreover have "be16_at (udp_segment E np s d msg) 4 = of_nat (length msg + 8)"
    unfolding seg append_assoc [symmetric]
    using be16_at_append [of "be16 (np_local_port np) @ be16 (np_remote_port np)" 4 "of_nat (length msg + 8)" "be16 check @ msg"]
    by simp
  moreover have "drop 8 (udp_segment E np s d msg) = msg" by (simp add: seg)
  ultimately show ?thesis
    using unat_of_nat_u16 [OF assms] by (simp add: parse_segment_def segment_length)
qed

lemma frame_parts:
  assumes "length a = 6" "length b = 6"
  shows "take 6 (a @ b @ be16 w @ r) = a" "take 6 (drop 6 (a @ b @ be16 w @ r)) = b" "drop 14 (a @ b @ be16 w @ r) = r"
    "be16_at (a @ b @ be16 w @ r) 12 = w" "\<not> length (a @ b @ be16 w @ r) < 14"
  using assms be16_at_append [of "a @ b" 12 w r] by simp_all

lemma ipv4_parts:
  assumes "length s = 4" "length d = 4" "n < 2 ^ 16"
  shows "length (ipv4_header E s d n ident) = 20" "(ipv4_header E s d n ident @ seg) ! 0 = 0x45"
    "(ipv4_header E s d n ident @ seg) ! 9 = 17" "unat (be16_at (ipv4_header E s d n ident @ seg) 2) = n"
    "take 4 (drop 12 (ipv4_header E s d n ident @ seg)) = s" "take 4 (drop 16 (ipv4_header E s d n ident @ seg)) = d"
    "drop 20 (ipv4_header E s d n ident @ seg) = seg"
proof -
  define c where "c = te_ip_csum E ([0x45, 0] @ be16 (of_nat n) @ be16 (ucast ident) @ [0, 0, 64, 17] @ [0, 0] @ s @ d)"
  have h: "ipv4_header E s d n ident @ seg
    = [0x45, 0] @ be16 (of_nat n) @ be16 (ucast ident) @ [0, 0, 64, 17] @ be16 c @ s @ d @ seg"
    by (simp add: ipv4_header_def Let_def c_def)
  show "length (ipv4_header E s d n ident) = 20" using assms by (simp add: ipv4_header_def Let_def)
  show "(ipv4_header E s d n ident @ seg) ! 0 = 0x45" "(ipv4_header E s d n ident @ seg) ! 9 = 17"
    "take 4 (drop 12 (ipv4_header E s d n ident @ seg)) = s" "take 4 (drop 16 (ipv4_header E s d n ident @ seg)) = d"
    "drop 20 (ipv4_header E s d n ident @ seg) = seg"
    using assms by (simp_all add: h nth_append nth_Cons' be16_def)
  have "be16_at (ipv4_header E s d n ident @ seg) 2 = of_nat n" unfolding h by (rule be16_at_append) simp
  then show "unat (be16_at (ipv4_header E s d n ident @ seg) 2) = n" using unat_of_nat_u16 [OF assms(3)] by simp
qed

lemma ipv6_parts:
  assumes "length s = 16" "length d = 16" "8 + n < 2 ^ 16"
  shows "length (ipv6_header s d n) = 40" "(ipv6_header s d n @ seg) ! 0 = 0x60"
    "(ipv6_header s d n @ seg) ! 6 = 17" "unat (be16_at (ipv6_header s d n @ seg) 4) = 8 + n"
    "take 16 (drop 8 (ipv6_header s d n @ seg)) = s" "take 16 (drop 24 (ipv6_header s d n @ seg)) = d"
    "drop 40 (ipv6_header s d n @ seg) = seg"
proof -
  have h: "ipv6_header s d n @ seg = [0x60, 0, 0, 0] @ be16 (of_nat (8 + n)) @ [17, 32] @ s @ d @ seg"
    by (simp add: ipv6_header_def)
  show "length (ipv6_header s d n) = 40" using assms by (simp add: ipv6_header_def)
  show "(ipv6_header s d n @ seg) ! 0 = 0x60" "(ipv6_header s d n @ seg) ! 6 = 17"
    "take 16 (drop 8 (ipv6_header s d n @ seg)) = s" "take 16 (drop 24 (ipv6_header s d n @ seg)) = d"
    "drop 40 (ipv6_header s d n @ seg) = seg"
    using assms by (simp_all add: h nth_append nth_Cons' be16_def)
  have "be16_at (ipv6_header s d n @ seg) 4 = of_nat (8 + n)" unfolding h by (rule be16_at_append) simp
  then show "unat (be16_at (ipv6_header s d n @ seg) 4) = 8 + n" using unat_of_nat_u16 [OF assms(3)] by simp
qed

text \<open>The frame is read back, in both versions of IP.\<close>

lemma parse_udp_frame:
  assumes "np_wf np" "length (nd_addr dev) = 6" "length msg + 28 < 2 ^ 16"
  shows "parse_frame (fst (udp_frame E np dev msg ident)) = Some (target_datagram np dev msg)"
proof (cases "np_ipv6 np")
  case True
  have "length (np_local_ip np) = 16" "length (np_remote_ip np) = 16" "8 + length msg < 2 ^ 16" "length msg + 8 < 2 ^ 16"
    "length (np_remote_mac np) = 6" using assms by (simp_all add: np_wf_def)
  then show ?thesis using True assms(2) ipv6_parts [of "np_local_ip np" "np_remote_ip np" "length msg"]
    by (simp add: parse_frame_def udp_frame_def frame_parts parse_udp_segment segment_length target_datagram_def Let_def)
next
  case False
  have "length (take 4 (np_local_ip np)) = 4" "length (take 4 (np_remote_ip np)) = 4" "length msg + 8 + 20 < 2 ^ 16"
    "length msg + 8 < 2 ^ 16" "length (np_remote_mac np) = 6" using assms by (simp_all add: np_wf_def)
  note ipv4_parts [OF this(1-3), of E "ident + 1"] this
  then show ?thesis using False assms(2)
    by (simp add: parse_frame_def udp_frame_def frame_parts parse_udp_segment segment_length target_datagram_def Let_def)
qed

text \<open>The search for a buffer touches the pool only, and gives up only on an empty pool.\<close>

lemma find_skb_try_result:
  assumes "find_skb_try E d c T = (r, T')"
  shows "tx_wire T' = tx_wire T \<and> ip_ident T' = ip_ident T \<and> (\<exists>q. tx_net T' = (tx_net T)\<lparr>skb_pool := q\<rparr>)
    \<and> (r = None \<longrightarrow> skb_pool (tx_net T) = 0)"
  using assms
proof (induction E d c T rule: find_skb_try.induct)
  case (1 E d c T)
  have same: "same_tx T (netpoll_poll_dev E d (tick T))" using poll_dev_same [of "tick T" E d] by (simp add: same_tx_def)
  consider "te_alloc E (tx_tick T)" | "\<not> te_alloc E (tx_tick T)" "skb_pool (tx_net T) \<noteq> 0"
    | "\<not> te_alloc E (tx_tick T)" "skb_pool (tx_net T) = 0" "c + 1 < 10"
    | "\<not> te_alloc E (tx_tick T)" "skb_pool (tx_net T) = 0" "\<not> c + 1 < 10" by blast
  then show ?case
  proof cases
    case 3
    then have "find_skb_try E d (c + 1) (netpoll_poll_dev E d (tick T)) = (r, T')"
      using "1.prems" by (simp add: find_skb_try.simps [of E d c T])
    from "1.IH" [OF _ _ 3(3) this] 3 same show ?thesis by (auto simp: same_tx_def)
  qed (use "1.prems" in \<open>auto simp: find_skb_try.simps [of E d c T] intro: exI [of _ "skb_pool (tx_net T)"]\<close>)
qed

lemma find_skb_result:
  assumes "find_skb E d T = (r, T')"
  shows "tx_wire T' = tx_wire T" "ip_ident T' = ip_ident T" "\<exists>q. tx_net T' = (tx_net T)\<lparr>skb_pool := q\<rparr>"
    "r = None \<Longrightarrow> skb_pool (tx_net T) = 0 \<and> te_refill E (tx_tick T) = 0"
  using find_skb_try_result [OF assms [unfolded find_skb_def Let_def]]
  by (auto simp: zap_completion_queue_def refill_skbs_def MAX_SKBS_def min_def split: if_splits)

lemma find_skb_keeps:
  assumes "find_skb E d T = (r, T')" "tx_up d p T"
  shows "tx_up d p (T'\<lparr>ip_ident := k\<rparr>)" "accepted p (T'\<lparr>ip_ident := k\<rparr>) = accepted p T" "the_dev d T' = the_dev d T"
  using find_skb_result(1,3) [OF assms(1)] assms(2) by (auto simp: tx_up_def accepted_def)

text \<open>\<open>netpoll_send_udp\<close> on a device that is up, which stays up.\<close>

lemma send_udp_result:
  assumes up: "tx_up d p T" and np: "np_dev np = Some d" "np_wf np" and dev: "length (nd_addr (the_dev d T)) = 6"
    and len: "length msg \<le> 1000" and room: "14 \<le> nd_ll_reserved (the_dev d T)" "nd_ll_reserved (the_dev d T) \<le> 454"
  shows "\<exists>T'. netpoll_send_udp E np msg T = Some T' \<and> tx_up d p T' \<and> the_dev d T' = the_dev d T \<and>
    (if fst (find_skb E d T) = None
     then skb_pool (tx_net T) = 0 \<and> te_refill E (tx_tick T) = 0 \<and> accepted p T' = accepted p T
     else \<exists>f. accepted p T' = accepted p T @ [f] \<and> parse_frame f = Some (target_datagram np (the_dev d T) msg))"
proof -
  obtain r U where f: "find_skb E d T = (r, U)" by (cases "find_skb E d T")
  note U = find_skb_result [OF f] find_skb_keeps [OF f up]
  show ?thesis
  proof (cases r)
    case None
    have "accepted p U = accepted p T" "tx_up d p U" using U(5,6) [of "ip_ident U"] by simp_all
    then show ?thesis using None f U(4,7) np(1) by (simp add: netpoll_send_udp_def)
  next
    case (Some pooled)
    obtain frame ident where fr: "udp_frame E np (the_dev d T) msg (ip_ident U) = (frame, ident)"
      by (cases "udp_frame E np (the_dev d T) msg (ip_ident U)")
    let ?skb = "\<lparr>skb_data = frame, skb_dev = d, skb_queue_mapping = 0, skb_vlan = None\<rparr>"
    obtain T' where T': "netpoll_send_skb E (Some np) ?skb (U\<lparr>ip_ident := ident\<rparr>) = Some (NETDEV_TX_OK, T')"
      "tx_keeps d p [frame] (U\<lparr>ip_ident := ident\<rparr>) T'"
      using send_keeps [OF U(5) [of ident] np(1), of ?skb E] by auto
    have "netpoll_send_udp E np msg T = Some T'"
      using Some f np(1) fr T'(1) U(7) len room by (simp add: netpoll_send_udp_def MAX_SKB_SIZE_def ETH_HLEN_def Let_def)
    moreover have "accepted p T' = accepted p T @ [frame]" "tx_up d p T'" "the_dev d T' = the_dev d T"
      using T'(2) U(6,7) by (simp_all add: tx_keeps_def)
    moreover have "parse_frame frame = Some (target_datagram np (the_dev d T) msg)"
      using parse_udp_frame [OF np(2) dev, of msg E "ip_ident U"] fr len by simp
    ultimately show ?thesis using Some f by auto
  qed
qed

section \<open>Properties\<close>

text \<open>
  C15: a console payload becomes one datagram to the target. On a device that is up and has between 14
  and 454 bytes of reserved header space, \<open>netpoll_send_udp\<close> of at most 1000 bytes never writes outside the
  buffer, not even one from the pool. It adds exactly one frame behind those accepted before, which a
  receiver reads as the message from the target's local to its remote address and port; or, when no buffer can be had,
  which needs an empty pool that could not be refilled, it drops the message and sends nothing.\<close>

theorem send_udp_delivers:
  assumes "tx_up d p T" "np_dev np = Some d" "np_wf np" "length (nd_addr (the_dev d T)) = 6" "length msg \<le> 1000"
    and "14 \<le> nd_ll_reserved (the_dev d T)" "nd_ll_reserved (the_dev d T) \<le> 454"
  shows "\<exists>T'. netpoll_send_udp E np msg T = Some T' \<and>
    (if fst (find_skb E d T) = None
     then skb_pool (tx_net T) = 0 \<and> te_refill E (tx_tick T) = 0 \<and> accepted p T' = accepted p T
     else \<exists>f. accepted p T' = accepted p T @ [f] \<and> parse_frame f = Some (target_datagram np (the_dev d T) msg))"
  using send_udp_result [OF assms, of E] by blast

theorem send_udp_delivers_witness:
  "\<exists>T' f. netpoll_send_udp demo_tx_env (eth_np\<lparr>np_dev := Some 0\<rparr>) [104, 105] demo_tx = Some T'
     \<and> accepted 7 T' = [f] \<and> map_option dg_payload (parse_frame f) = Some [104, 105]"
proof -
  have "np_dev (eth_np\<lparr>np_dev := Some 0\<rparr>) = Some 0" "np_wf (eth_np\<lparr>np_dev := Some 0\<rparr>)"
    "length (nd_addr (the_dev 0 demo_tx)) = 6" "length [104 :: u8, 105] \<le> 1000"
    "14 \<le> nd_ll_reserved (the_dev 0 demo_tx)" "nd_ll_reserved (the_dev 0 demo_tx) \<le> 454"
    by (simp_all add: eth_np_def np_wf_def demo_tx_def demo_dev_def)
  note d = send_udp_delivers [OF demo_tx_up this, of demo_tx_env]
  have "fst (find_skb demo_tx_env 0 demo_tx) \<noteq> None"
    by (simp add: find_skb_def find_skb_try.simps zap_completion_queue_def demo_tx_env_def demo_tx_def Let_def)
  then show ?thesis using d by (auto simp: target_datagram_def accepted_def demo_tx_def)
qed

end
