(* ===== verification/Netcon_Wire.thy ===== *)
theory Netcon_Wire
  imports Netcon_Msg Netpoll_Udp
begin

text \<open>
  From a console message to frames: \<open>write_msg\<close> of \<open>netconsole.c\<close> with every \<open>netpoll_send_udp\<close> it calls
  carried out by the transmit path of \<open>netpoll.c\<close>.
\<close>

section \<open>Composition\<close>

definition to_bytes :: "string \<Rightarrow> bytes" where "to_bytes = map of_char"

fun send_calls :: "tx_env \<Rightarrow> (netpoll \<times> string) list \<Rightarrow> tx \<Rightarrow> tx option" where
  "send_calls E [] T = Some T"
| "send_calls E ((np, s) # calls) T = do { T \<leftarrow> netpoll_send_udp E np (to_bytes s) T; send_calls E calls T }"

definition console_write :: "tx_env \<Rightarrow> bool \<Rightarrow> bool \<Rightarrow> netconsole_target list \<Rightarrow> string \<Rightarrow> tx \<Rightarrow> tx option" where
  "console_write E oops_only oops_in_progress target_list msg T = do {
     calls \<leftarrow> write_msg oops_only oops_in_progress (\<lambda>d. nd_running (the_dev d T)) target_list msg;
     send_calls E calls T }"

section \<open>Lemmas\<close>

lemma find_skb_alloc: "\<forall>t. te_alloc E t \<Longrightarrow> fst (find_skb E d T) \<noteq> None"
  by (simp add: find_skb_def find_skb_try.simps Let_def)

lemma send_calls_deliver:
  assumes "tx_up d p T" "\<forall>t. te_alloc E t" "length (nd_addr (the_dev d T)) = 6"
    "14 \<le> nd_ll_reserved (the_dev d T)" "nd_ll_reserved (the_dev d T) \<le> 454"
    and "\<forall>(np, s) \<in> set calls. np_dev np = Some d \<and> np_wf np \<and> length s \<le> 1000"
  shows "\<exists>T' fs. send_calls E calls T = Some T' \<and> accepted p T' = accepted p T @ fs
    \<and> map parse_frame fs = map (\<lambda>(np, s). Some (target_datagram np (the_dev d T) (to_bytes s))) calls"
  using assms
proof (induction calls arbitrary: T)
  case (Cons c calls)
  obtain np s where c: "c = (np, s)" by (cases c)
  have ok: "np_dev np = Some d" "np_wf np" "length (to_bytes s) \<le> 1000" using Cons.prems(6) c by (auto simp: to_bytes_def)
  obtain U f where U: "netpoll_send_udp E np (to_bytes s) T = Some U" "tx_up d p U" "the_dev d U = the_dev d T"
    "accepted p U = accepted p T @ [f]" "parse_frame f = Some (target_datagram np (the_dev d T) (to_bytes s))"
    using send_udp_result [OF Cons.prems(1) ok(1,2) Cons.prems(3) ok(3) Cons.prems(4,5), of E]
      find_skb_alloc [OF Cons.prems(2), of d T] by auto
  obtain T' fs where "send_calls E calls U = Some T'" "accepted p T' = accepted p U @ fs"
    "map parse_frame fs = map (\<lambda>(np, s). Some (target_datagram np (the_dev d U) (to_bytes s))) calls"
    using Cons.IH [OF U(2) Cons.prems(2)] Cons.prems(3-6) U(3) by auto
  then show ?case using U c by (intro exI [of _ T'] exI [of _ "f # fs"]) simp
qed simp

section \<open>Properties\<close>

text \<open>
  C23: a console message arrives whole. When every enabled plain target uses the device \<open>d\<close>, which is up, and buffers can
  be allocated, writing a message adds, behind everything accepted before, for each such target in the
  order of the list the datagrams of one splitting of the message, addressed from and to the target's addresses
  and ports. The pieces are not empty and concatenate to the message.\<close>

theorem console_message_arrives:
  assumes up: "tx_up d p T" "\<forall>t. te_alloc E t" "length (nd_addr (the_dev d T)) = 6"
      "14 \<le> nd_ll_reserved (the_dev d T)" "nd_ll_reserved (the_dev d T) \<le> 454"
    and nts: "\<forall>nt \<in> set nts. nt_enabled nt \<longrightarrow> np_dev (nt_np nt) = Some d \<and> np_wf (nt_np nt)"
    and logging: "\<not> oops_only \<or> oops_in_progress"
  shows "\<exists>T' fs. console_write E oops_only oops_in_progress nts msg T = Some T' \<and> accepted p T' = accepted p T @ fs
    \<and> map parse_frame fs = concat (map (\<lambda>nt. map (\<lambda>s. Some (target_datagram (nt_np nt) (the_dev d T) (to_bytes s))) (msg_frags msg))
        (filter (\<lambda>nt. nt_enabled nt \<and> \<not> nt_extended nt) nts))
    \<and> concat (msg_frags msg) = msg \<and> [] \<notin> set (msg_frags msg)"
proof -
  define calls where "calls = concat (map (\<lambda>nt. if \<not> nt_extended nt \<and> nt_enabled nt \<and> nd_running (the_dev (the (np_dev (nt_np nt))) T)
    then map (Pair (nt_np nt)) (msg_frags msg) else []) nts)"
  have run: "nd_running (the_dev d T)" using up(1) by (simp add: tx_up_def)
  have dev: "\<forall>nt \<in> set nts. nt_enabled nt \<longrightarrow> np_dev (nt_np nt) \<noteq> None" using nts by auto
  note w = write_msg_delivers [OF dev, of oops_only oops_in_progress "\<lambda>d. nd_running (the_dev d T)" msg]
  have "\<forall>(np, s) \<in> set calls. np_dev np = Some d \<and> np_wf np \<and> length s \<le> 1000"
    using nts w by (auto simp: calls_def split: if_splits)
  from send_calls_deliver [OF up this] obtain T' fs where s: "send_calls E calls T = Some T'" "accepted p T' = accepted p T @ fs"
    "map parse_frame fs = map (\<lambda>(np, s). Some (target_datagram np (the_dev d T) (to_bytes s))) calls" by blast
  moreover have "map (\<lambda>(np, s). Some (target_datagram np (the_dev d T) (to_bytes s))) calls
    = concat (map (\<lambda>nt. map (\<lambda>s. Some (target_datagram (nt_np nt) (the_dev d T) (to_bytes s))) (msg_frags msg))
        (filter (\<lambda>nt. nt_enabled nt \<and> \<not> nt_extended nt) nts))"
    using nts run unfolding calls_def by (induction nts) auto
  moreover have "console_write E oops_only oops_in_progress nts msg T = Some T'"
    using w s(1) logging by (auto simp: console_write_def calls_def)
  ultimately show ?thesis using w by (intro exI [of _ T'] exI [of _ fs]) auto
qed

theorem console_message_arrives_witness:
  "\<exists>T' f. console_write (demo_tx_env\<lparr>te_alloc := (\<lambda>_. True)\<rparr>) False False
       [\<lparr>nt_name = None, nt_enabled = True, nt_extended = False, nt_release = False, nt_np = eth_np\<lparr>np_dev := Some 0\<rparr>\<rparr>] ''hi'' demo_tx = Some T'
     \<and> accepted 7 T' = [f] \<and> map_option dg_payload (parse_frame f) = Some [104, 105]"
proof -
  let ?nt = "\<lparr>nt_name = None, nt_enabled = True, nt_extended = False, nt_release = False, nt_np = eth_np\<lparr>np_dev := Some 0\<rparr>\<rparr>"
  have a: "\<forall>t. te_alloc (demo_tx_env\<lparr>te_alloc := (\<lambda>_. True)\<rparr>) t" "length (nd_addr (the_dev 0 demo_tx)) = 6"
    "14 \<le> nd_ll_reserved (the_dev 0 demo_tx)" "nd_ll_reserved (the_dev 0 demo_tx) \<le> 454"
    "\<forall>nt \<in> set [?nt]. nt_enabled nt \<longrightarrow> np_dev (nt_np nt) = Some 0 \<and> np_wf (nt_np nt)" "\<not> False \<or> False"
    by (simp_all add: eth_np_def np_wf_def demo_tx_def demo_dev_def)
  have "msg_frags ''hi'' = [''hi'']" by (simp add: msg_frags_simps MAX_PRINT_CHUNK_def)
  moreover have "accepted 7 demo_tx = []" by (simp add: accepted_def demo_tx_def)
  ultimately obtain T' fs where "console_write (demo_tx_env\<lparr>te_alloc := (\<lambda>_. True)\<rparr>) False False [?nt] ''hi'' demo_tx = Some T'"
    "accepted 7 T' = fs" "map parse_frame fs = [Some (target_datagram (nt_np ?nt) (the_dev 0 demo_tx) (to_bytes ''hi''))]"
    using console_message_arrives [OF demo_tx_up a, of "''hi''"] by auto
  then show ?thesis by (auto simp: target_datagram_def to_bytes_def map_eq_Cons_conv)
qed

end
