(* ===== verification/Spec2Isabelle.thy ===== *)
theory Spec2Isabelle
  imports Ftl_Read Nand_Driver Netcon_Attr Netcon_Wire
begin

text \<open>
  Verification of the C drivers of \<open>rk322x-s3plus-mainline\<close>, a forward port of the Rockchip NAND stack
  to a mainline kernel (\<open>src/drivers/nand-rk322x/\<close>). All C in scope is kernel code for a 32-bit ARM.

  \<^bold>\<open>The program.\<close> Two independent ways to a block device over raw NAND, and a debugging aid:
    \<^item> \<open>ftl/rk-ftl.c\<close>, \<open>ftl/rk-ftl.h\<close>: a read-only FTL on top of an MTD device. It loads the vendor's
      system info, recovers the two-level page map, expands it into a flat L2P array and serves
      512-byte sectors through a one-page cache.
    \<^item> \<open>rknand-port/rk_nand_base.c\<close>: platform glue between the kernel and the closed vendor FTL (an
      assembly blob): probing, interrupts and waits, write-protect guard, misc devices, power
      management, module entry points.
    \<^item> \<open>rknand-port/rk_nand_blk.c\<close>: the block driver in front of the blob: request path, garbage
      collection thread, provisioning of a blank NAND in a kthread, registration and teardown.
    \<^item> \<open>netcon-port/netconsole.c\<close>: a console that sends kernel messages over UDP; its targets come from the
      option string or from configfs, and follow the network devices.
    \<^item> \<open>netcon-port/netpoll.c\<close>: the layer below: attachment to a device, the frames, transmission and polling
      without the network stack.

  \<^bold>\<open>The theories.\<close>
    \<^item> \<open>Rk_Prelude\<close>: machine types, error codes, bounds-checked memory (\<open>None\<close> is an access outside the
      object), little-endian words, reachability and the locale \<open>invariant_system\<close>, which lifts a
      one-step invariant to all reachable states.
    \<^item> \<open>Ftl_Format\<close>: constants, PPA macros and structs of \<open>rk-ftl.h\<close>, OOB decoding. Version comparison
      is the draw order across the wrap-around; PPA and OOB decoding invert the documented encodings.
    \<^item> \<open>Ftl_Map\<close>: page reads, scan, map recovery and expansion. The expansion builds exactly the map the
      regions describe and never leaves an array.
    \<^item> \<open>Ftl_Read\<close>: \<open>rk_ftl_readsect\<close>, device binding and release. Reads return the right sector or
      the error, the cache is transparent (locale \<open>sector_device\<close>), nothing leaks or is freed twice;
      after a failed read the cache can serve the wrong page.
    \<^item> \<open>Nand_Base\<close>: the glue state as a record, every function of \<open>rk_nand_base.c\<close> that changes it, and an
      invariant of all their interleavings (\<open>glue: invariant_system\<close>). Pointers are words, 0 is NULL.
    \<^item> \<open>Nand_Io\<close>: the request path on an explicit memory with directly mapped and high-memory locations,
      so that zero-copy and bounce-buffer transfers and their aliasing are visible. Reads deliver,
      writes pass, writes followed by reads round-trip; the queue is served completely and in order.
    \<^item> \<open>Nand_Gc\<close>: \<open>nand_gc_thread\<close> turn by turn, with what other contexts do between its steps as
      explicit functions. The counters are 32-bit. HZ is 250, as the code's comments say.
    \<^item> \<open>Nand_Provision\<close>: the driver state \<open>nand_drv\<close> (statics, \<open>mytr\<close>, and with prefix \<open>k_\<close> what the kernel
      holds for the driver), disks, the provision thread. A log records the calls, and inductive
      protocols say which call sequences are allowed.
    \<^item> \<open>Nand_Driver\<close>: register, unregister, init, exit, flush, suspend, resume, shutdown, and the
      platform driver. Registration is all or nothing, unregistration gives everything back, sleep is
      exclusive and balanced (\<open>pm: invariant_system\<close>); module exit skips the teardown.
    \<^item> \<open>Netpoll_Opt\<close>: the \<open>netpoll\<close> structure and the option parser, which reads back the documented
      option string of any configuration.
    \<^item> \<open>Netpoll_Dev\<close>: \<open>netpoll_setup\<close>, \<open>netpoll_cleanup\<close> on explicit tables of devices and \<open>netpoll_info\<close>
      blocks. Setup returns, failures and cleanup give back what was taken; a block shared by two targets is orphaned.
    \<^item> \<open>Netpoll_Refs\<close>: the invariant of these tables and the contract towards clients, the locale \<open>attachment\<close>
      (interpreted as \<open>netdevs\<close>).
    \<^item> \<open>Netpoll_Tx\<close>: the attempt to send, the queue and its worker, polling under the device semaphore, the
      buffer search. Frames leave in order, none is lost, a waiting queue has its worker scheduled; while polling is
      disabled the driver's poll hooks are not called.
    \<^item> \<open>Netpoll_Udp\<close>: the Ethernet, IPv4, IPv6 and UDP headers; a receiver's parser reads the message and addresses back.
    \<^item> \<open>Netcon_Msg\<close>: splitting of plain and extended messages (locale \<open>fragmenter\<close>), the 1000-byte buffer bounds-checked.
    \<^item> \<open>Netcon_Target\<close>: targets on an explicit heap, attributes, configfs creation and removal, device events,
      load and unload.
    \<^item> \<open>Netcon_Life\<close>: the invariant of the targets, kept by every operation (\<open>targets: invariant_system\<close>), and what load and unload
      leave; the notifier's restarting walk equals a one-pass update.
    \<^item> \<open>Netcon_Attr\<close>: the attributes as an interface: round trips, read-only while enabled, a rejected address is stored.
    \<^item> \<open>Netcon_Wire\<close>: from \<open>write_msg\<close> to the frames: a console message arrives whole and in order.
    \<^item> this theory: the property that spans loading, provisioning and the request path.

  \<^bold>\<open>Conventions.\<close> A function keeps its C name. State is passed explicitly; a call that can block
  for ever or fault returns an option, \<open>None\<close> being that outcome. Loops that may not end
  (\<open>wait_completed\<close>, \<open>provision_idle\<close>, \<open>carrier_wait\<close>) are partial functions in the option monad, and termination is
  a theorem with its exact condition; all other loops are total, no fuel is used. Errors are the
  negative codes of the source. The MTD core, the blob (\<open>ftl_blob\<close>, \<open>gc_blob\<close>, \<open>life_blob\<close>) and the
  kernel's answers (\<open>probe_env\<close>, \<open>life_env\<close>, \<open>setup_env\<close>, \<open>tx_env\<close>, \<open>init_env\<close>, the string library
  \<open>net_lib\<close> and formatter \<open>net_fmt\<close>) are parameters; what a theorem needs of them is a named
  hypothesis (\<open>mtd_read_contract\<close>, \<open>ftl_persists\<close>, \<open>stop_persists\<close>, \<open>clock_runs\<close>, \<open>attach_ok\<close>,
  \<open>lib_reads_back\<close>, \<open>lib_reads_lines\<close>).

  \<^bold>\<open>Concurrency.\<close> The request loop takes the arrivals of other contexts as a list of batches, the GC
  thread takes their effects as functions, the provision thread takes the answers to its
  \<open>kthread_should_stop\<close> polls as a sequence; joining it runs what it has not done yet. The operations
  mutex is part of the state; taking it while it is held is \<open>None\<close> or a failed trylock. Sends, worker
  runs, polls and the operations on netconsole targets interleave in any order as sequences of atomic steps; each runs
  under the locks the code takes for it (the target mutex, \<open>rtnl\<close>, the target list lock).

  \<^bold>\<open>Not modelled.\<close> The assembly blobs (closed, generated; parameters instead); link-time shims and
  one-line forwards to kernel services, which keep no state; log output, apart from the one warning
  that is printed once; the queue spin lock, whose critical sections are the atomic steps of the loop.
  Of \<open>netpoll.c\<close>, \<open>netpoll_print_options\<close> only logs; of \<open>netconsole.c\<close>, \<open>option_setup\<close> exists only outside modules.
\<close>

section \<open>From module load to the first read\<close>

lemma services_io: "\<exists>f. drv_io (provision_services K B s) = (drv_io s)\<lparr>io_ftl := f\<rparr>"
  by (auto simp: provision_services_def rknand_create_procfs_def blob_call_def set_ftl_def emit_def Let_def
      split: prod.splits)

lemma loaded_io:
  assumes "rknand_dev_init K B s = (0, s1)"
  shows "\<not> ops_mutex (drv_io s1)" "rq_list (drv_io s1) = []"
  using assms
  by (auto simp: rknand_dev_init_def rknand_get_reg_addr_def register_ops Let_def
      split: if_splits prod.splits)

lemma provisioned_io:
  assumes "\<And>k. \<not> stop k" "ke_dev_alloc K" "ke_alloc_disk K = 0" "ke_add_disk K = 0"
    and "provision_capacity B stop s = (cap, t)" "cap \<noteq> 0"
  obtains f where "drv_io (provision_work K B stop s) = (drv_io s)\<lparr>io_ftl := f\<rparr>"
    "k_disks (provision_work K B stop s) = k_disks s @ [dev_disk (op_major s) (part_dev (op_last_dev_index s)
       \<lparr>part_name = replicate 32 0, part_offset = 0, part_size = cap, part_type = 0\<rparr>)]"
proof -
  let ?part = "\<lparr>part_name = replicate 32 0, part_offset = 0, part_size = cap, part_type = 0\<rparr>"
  have "stop_persists stop" using assms(1) by (simp add: stop_persists_def)
  from capacity_phase [OF assms(5) this] obtain es where "ftl_phase es s t" by blast
  then have t: "\<exists>f. drv_io t = (drv_io s)\<lparr>io_ftl := f\<rparr>" "k_disks t = k_disks s" "op_major t = op_major s"
    "op_last_dev_index t = op_last_dev_index s" by (auto simp: ftl_phase_def)
  show thesis
  proof (rule work_cases [OF assms(5), of K])
    fix t' v
    assume up: "ftl_phase [] t t'" "nand_add_dev K ?part t' = (0, v)"
      "provision_work K B stop s = provision_services K B v"
    then have "drv_io v = drv_io t'" "k_disks v = k_disks s @ [dev_disk (op_major s)
        (part_dev (op_last_dev_index s) ?part)]" "\<exists>f. drv_io t' = (drv_io s)\<lparr>io_ftl := f\<rparr>"
      using add_dev_ok [of ?part K t'] assms(2-4,6) t by (auto simp: ftl_phase_def)
    then show thesis using that up(3) services_io [of K B v] services_result(1) [of K B v] by auto
  next
    fix t' v r
    assume "nand_add_dev K ?part t' = (r, v)" "r \<noteq> 0"
    then show thesis using add_dev_ok [of ?part K t'] assms(2-4,6) by simp
  qed (use assms in simp_all)
qed

text \<open>
  C8: the driver, loaded and provisioned, serves its disk. After a successful \<open>rknand_dev_init\<close> and an
  undisturbed provision thread that found capacity \<open>cap\<close>, the disk it registered accepts every
  well-formed read request whose first segment ends inside \<open>cap\<close>: the blob is asked for exactly the
  request's sectors, at the request's position, and its data arrives in the request's segments.
\<close>

theorem provisioned_disk_serves_reads:
  assumes "rknand_dev_init K B s = (0, s1)" "\<And>k. \<not> stop k"
    and "ke_dev_alloc K" "ke_alloc_disk K = 0" "ke_add_disk K = 0"
    and "provision_capacity B stop s1 = (cap, t)" "cap \<noteq> 0"
  defines "u \<equiv> provision_work K B stop s1"
  assumes "rq_wf (drv_io u) rq" "rq_op rq = REQ_OP_READ" "\<not> pending rq BLK_STS_OK"
    and "rq_pos rq + ucast (drop_bit 9 (rq_cur_bytes rq)) \<le> ucast cap"
    and "FtlRead F 0 (ucast (rq_pos rq)) (rq_nsect rq) (io_ftl (drv_io u)) = (0, data, f)"
    and "length data = unat (rq_nsect rq) * 512"
  shows "\<exists>s'. rk_nand_queue_rq F pending (Some (gd_private (last (k_disks u)))) [] rq (drv_io u) = Some (BLK_STS_OK, s')
    \<and> rq_completed s' = rq_completed (drv_io u) @ [(rq_tag rq, BLK_STS_OK)]
    \<and> map (io_mem s') (segs_locs (rq_segs rq)) = data"
proof -
  let ?dev = "part_dev (op_last_dev_index s1)
    \<lparr>part_name = replicate 32 0, part_offset = 0, part_size = cap, part_type = 0\<rparr>"
  obtain g where "drv_io u = (drv_io s1)\<lparr>io_ftl := g\<rparr>" "gd_private (last (k_disks u)) = ?dev"
    using provisioned_io [OF assms(2-7)] unfolding u_def by (metis dev_disk_private last_snoc)
  then have io: "\<not> ops_mutex (drv_io u)" "rq_list (drv_io u) = []" "gd_private (last (k_disks u)) = ?dev"
    using loaded_io [OF assms(1)] by simp_all
  have dev: "\<not> dev_disable_access ?dev" "\<not> dev_writeonly ?dev" "dev_off_size ?dev = 0" "rq_in_range ?dev rq"
    using assms(12) by (simp_all add: part_dev_def PART_WRITEONLY_def PART_NO_ACCESS_def rq_in_range_def)
  let ?s = "(drv_io u)\<lparr>rk_ftl_gc_do := False, ops_mutex := True\<rparr>"
  have "rq_wf ?s rq" using assms(9) by (simp add: rq_wf_def)
  from read_request_exec [OF this dev(4) assms(10) dev(1,2), of F data f] assms(13,14) dev(3)
  obtain v where "do_blktrans_all_request F ?dev rq ?s = (BLK_STS_OK, v)"
    "map (io_mem v) (segs_locs (rq_segs rq)) = data" by auto
  then show ?thesis
    using queue_rq_single [of "drv_io u" pending rq BLK_STS_OK F ?dev v] io assms(11) by simp
qed

lemma loaded_ok: "rknand_dev_init kind_kernel blank_blob (fresh_drv demo_base) = (0, loaded_drv)"
  "mtd_read_temp_buffer (drv_io loaded_drv) = 4096" "io_ftl (drv_io loaded_drv) = 0"
  by (simp_all add: loaded_drv_def rknand_dev_init_def rknand_get_reg_addr_def demo_base_regs kind_kernel_def
      register_ops Let_def fresh_drv_def demo_io_def blob_call_def blank_blob_def emit_def set_ftl_def)

lemma rq_wf_buffer: "mtd_read_temp_buffer s = mtd_read_temp_buffer s' \<Longrightarrow> rq_wf s rq = rq_wf s' rq"
  by (simp add: rq_wf_def)

theorem provisioned_disk_serves_reads_witness:
  "\<exists>s'. rk_nand_queue_rq null_ftl (\<lambda>_ _. False)
      (Some (gd_private (last (k_disks (provision_work kind_kernel blank_blob (\<lambda>_. False) loaded_drv))))) []
      (ram_rq 1 REQ_OP_READ high_segs) (drv_io (provision_work kind_kernel blank_blob (\<lambda>_. False) loaded_drv))
      = Some (BLK_STS_OK, s')
    \<and> map (io_mem s') (segs_locs high_segs) = replicate 512 0"
proof -
  let ?u = "provision_work kind_kernel blank_blob (\<lambda>_. False) loaded_drv"
  let ?rq = "ram_rq 1 REQ_OP_READ high_segs"
  have k: "ke_dev_alloc kind_kernel" "ke_alloc_disk kind_kernel = 0" "ke_add_disk kind_kernel = 0"
    by (simp_all add: kind_kernel_def)
  obtain t where t: "provision_capacity blank_blob (\<lambda>_. False) loaded_drv = (4096, t)" using blank_capacity loaded_ok(3) by blast
  obtain g where "drv_io ?u = (drv_io loaded_drv)\<lparr>io_ftl := g\<rparr>"
    using provisioned_io [OF _ k t] by auto
  then have "mtd_read_temp_buffer (drv_io ?u) = mtd_read_temp_buffer ram_io"
    using loaded_ok(2) by (simp add: ram_io_def)
  from rq_wf_buffer [OF this] have wf: "rq_wf (drv_io ?u) ?rq" by simp
  have rd: "FtlRead null_ftl 0 (ucast (rq_pos ?rq)) (rq_nsect ?rq) f = (0, replicate 512 0, f)" for f
    by (simp add: null_ftl_def ram_rq_shape)
  show ?thesis
    using provisioned_disk_serves_reads [OF loaded_ok(1) _ k t _ wf, where F = null_ftl and pending = "\<lambda>_ _. False",
        OF _ _ _ _ _ rd]
    by (simp add: ram_rq_shape) (auto simp: ram_rq_def drop_bit_eq_div)
qed

end
